(* ===== verification/Prelude.thy ===== *)
theory Prelude
  imports Main "HOL-Library.Word" "HOL-Library.AList" "HOL-Library.List_Lexorder"
    "HOL-Library.Char_ord"
begin

text \<open>
  The shared base of the development: names for the machine integers of the Rust code, the
  standard-library containers it uses (\<open>HashMap\<close>, \<open>BTreeMap\<close>, \<open>HashSet\<close>) as association lists
  and sets, decimal printing, and the three generic interfaces the components instantiate:
  a finite map, a register that keeps the maximum, and a state machine with an invariant.

  Conventions. Unsigned integers are words, so \<open>+\<close> wraps as a release build of the crate does
  (a debug build panics at the same places). \<open>i64\<close> is the same word read with \<open>sint\<close>; the
  casts \<open>as u64\<close> and \<open>as i64\<close> of the code are then identities. A \<open>Duration\<close> is its number of
  nanoseconds and an \<open>Instant\<close> the nanoseconds since an arbitrary origin. A \<open>panic!\<close> is a
  value of the error type of the operation that may panic.
\<close>

named_theorems lookup_simps \<open>what a container returns after an operation\<close>
named_theorems wf_intros \<open>operations keep the well-formedness of their component\<close>
named_theorems frame_simps \<open>fields an operation leaves alone\<close>

type_synonym u8 = "8 word"
type_synonym u32 = "32 word"
type_synonym u64 = "64 word"
type_synonym i64 = "64 word"
type_synonym usize = "64 word"
type_synonym bytes = "u8 list"
type_synonym node_id = string
type_synonym duration = nat
type_synonym instant = nat

subsection \<open>Words\<close>

lemma unat_inc: "(a::'a::len word) \<noteq> - 1 \<Longrightarrow> unat (a + 1) = Suc (unat a)"
  using unatSuc [of a] max_word_wrap [of a] by (auto simp: add.commute)

lemma word_less_inc: "(a::'a::len word) \<noteq> - 1 \<Longrightarrow> a < a + 1"
  by (simp add: word_less_nat_alt unat_inc)

lemma word_inc_leD: "(a::'a::len word) < b \<Longrightarrow> b \<noteq> a + 1 \<Longrightarrow> a + 1 < b"
  by (metis inc_le order_le_neq_trans)

subsection \<open>Durations\<close>

definition from_secs :: "nat \<Rightarrow> duration" where
  "from_secs s = s * 1000000000"

definition from_millis :: "u64 \<Rightarrow> duration" where
  "from_millis ms = unat ms * 1000000"

definition as_millis :: "duration \<Rightarrow> nat" where
  "as_millis d = d div 1000000"

text \<open>\<open>Instant::duration_since\<close> saturates at zero; \<open>checked_duration_since\<close> is \<open>None\<close> there.\<close>

definition duration_since :: "instant \<Rightarrow> instant \<Rightarrow> duration" where
  "duration_since later earlier = later - earlier"

definition checked_duration_since :: "instant \<Rightarrow> instant \<Rightarrow> duration option" where
  "checked_duration_since later earlier =
     (if earlier \<le> later then Some (later - earlier) else None)"

subsection \<open>Decimal printing of integers\<close>

fun show_nat :: "nat \<Rightarrow> string" where
  "show_nat n = (if n < 10 then [char_of (48 + n)]
                 else show_nat (n div 10) @ [char_of (48 + n mod 10)])"

declare show_nat.simps [simp del]

definition show_u32 :: "u32 \<Rightarrow> string" where
  "show_u32 w = show_nat (unat w)"

definition show_u64 :: "u64 \<Rightarrow> string" where
  "show_u64 w = show_nat (unat w)"

fun read_nat :: "nat \<Rightarrow> string \<Rightarrow> nat" where
  "read_nat acc [] = acc"
| "read_nat acc (c # cs) = read_nat (acc * 10 + (of_char c - 48)) cs"

lemma read_nat_append: "read_nat acc (xs @ ys) = read_nat (read_nat acc xs) ys"
  by (induction xs arbitrary: acc) auto

lemma read_show_nat: "read_nat 0 (show_nat n) = n"
proof (induction n rule: show_nat.induct)
  case (1 n)
  then show ?case
    by (cases "n < 10") (auto simp: show_nat.simps [of n] read_nat_append)
qed

lemma show_nat_inject: "show_nat m = show_nat n \<Longrightarrow> m = n"
  using read_show_nat by metis

lemma show_nat_digits: "c \<in> set (show_nat n) \<Longrightarrow> 48 \<le> (of_char c :: nat) \<and> (of_char c :: nat) < 58"
proof (induction n rule: show_nat.induct)
  case (1 n)
  then show ?case
    by (cases "n < 10") (auto simp: show_nat.simps [of n])
qed

subsection \<open>Computations that may panic\<close>

text \<open>A loop whose body may panic stops at the first panic.\<close>

definition result_bind :: "'e + 'a \<Rightarrow> ('a \<Rightarrow> 'e + 'b) \<Rightarrow> 'e + 'b" where
  "result_bind r f = (case r of Inl e \<Rightarrow> Inl e | Inr x \<Rightarrow> f x)"

fun fold_result :: "('x \<Rightarrow> 's \<Rightarrow> 'e + 's) \<Rightarrow> 'x list \<Rightarrow> 's \<Rightarrow> 'e + 's" where
  "fold_result f [] s = Inr s"
| "fold_result f (x # xs) s = result_bind (f x s) (fold_result f xs)"

lemma result_bind_simps [simp]: "result_bind (Inr x) f = f x" "result_bind (Inl e) f = Inl e"
  by (simp_all add: result_bind_def)

lemma fold_result_invariant:
  assumes "\<And>x s. x \<in> set xs \<Longrightarrow> P s \<Longrightarrow> \<exists>s'. f x s = Inr s' \<and> P s'" and "P s"
  shows "\<exists>s'. fold_result f xs s = Inr s' \<and> P s'"
  using assms
proof (induction xs arbitrary: s)
  case (Cons x xs)
  then obtain s1 where "f x s = Inr s1" "P s1" by (metis list.set_intros(1))
  then show ?case using Cons.IH [of s1] Cons.prems(1) by auto
qed simp

lemma fold_result_keeps:
  assumes "fold_result f xs a = Inr b" and "P a"
    and "\<And>x a b. x \<in> set xs \<Longrightarrow> f x a = Inr b \<Longrightarrow> P a \<Longrightarrow> P b"
  shows "P b"
  using assms
proof (induction xs arbitrary: a)
  case (Cons x xs)
  then obtain a1 where "f x a = Inr a1" "fold_result f xs a1 = Inr b"
    by (auto simp: result_bind_def split: sum.splits)
  then show ?case using Cons.IH [of a1] Cons.prems(2,3) by (metis list.set_intros)
qed simp

lemma fold_result_follow:
  assumes "fold_result f xs a = Inr b" and "R a s"
    and "\<And>x a b s. x \<in> set xs \<Longrightarrow> f x a = Inr b \<Longrightarrow> R a s \<Longrightarrow> \<exists>s'. S s s' \<and> R b s'"
    and "reflp S" and "transp S"
  shows "\<exists>s'. S s s' \<and> R b s'"
  using assms(1-3)
proof (induction xs arbitrary: a s)
  case Nil
  then show ?case using assms(4) by (auto dest: reflpD)
next
  case (Cons x xs)
  then obtain a1 where a1: "f x a = Inr a1" "fold_result f xs a1 = Inr b"
    by (auto simp: result_bind_def split: sum.splits)
  with Cons.prems obtain s1 where "S s s1" "R a1 s1" by (metis list.set_intros(1))
  moreover from Cons.IH [OF a1(2) this(2)] Cons.prems(3) obtain s2 where "S s1 s2" "R b s2"
    by (metis list.set_intros(2))
  ultimately show ?case using assms(5) by (blast dest: transpD)
qed

subsection \<open>Hash maps\<close>

text \<open>
  \<open>std::collections::HashMap\<close> is an association list with distinct keys. Rust leaves the
  iteration order of a hash map unspecified; the list order (the order of first insertion) is one
  admissible order, and the properties about results that depend on it are stated on sets.
\<close>

type_synonym ('k, 'v) hmap = "('k \<times> 'v) list"

definition hm_get :: "('k, 'v) hmap \<Rightarrow> 'k \<Rightarrow> 'v option" where
  "hm_get m k = map_of m k"

definition hm_contains_key :: "('k, 'v) hmap \<Rightarrow> 'k \<Rightarrow> bool" where
  "hm_contains_key m k = (case map_of m k of None \<Rightarrow> False | Some _ \<Rightarrow> True)"

definition hm_insert :: "'k \<Rightarrow> 'v \<Rightarrow> ('k, 'v) hmap \<Rightarrow> ('k, 'v) hmap" where
  "hm_insert k v m = AList.update k v m"

definition hm_remove :: "'k \<Rightarrow> ('k, 'v) hmap \<Rightarrow> ('k, 'v) hmap" where
  "hm_remove k m = AList.delete k m"

definition hm_keys :: "('k, 'v) hmap \<Rightarrow> 'k list" where
  "hm_keys m = map fst m"

definition hm_wf :: "('k, 'v) hmap \<Rightarrow> bool" where
  "hm_wf m \<longleftrightarrow> distinct (map fst m)"

text \<open>
  \<open>std::collections::BTreeMap\<close> is an association list kept in ascending key order, which is also
  its iteration order. Strings are ordered bytewise, as \<open>String\<close> is in Rust.
\<close>

type_synonym ('k, 'v) btmap = "('k \<times> 'v) list"

definition bt_get :: "('k::linorder, 'v) btmap \<Rightarrow> 'k \<Rightarrow> 'v option" where
  "bt_get m k = map_of m k"

definition bt_insert :: "'k::linorder \<Rightarrow> 'v \<Rightarrow> ('k, 'v) btmap \<Rightarrow> ('k, 'v) btmap" where
  "bt_insert k v m = takeWhile (\<lambda>p. fst p < k) m @ (k, v) # dropWhile (\<lambda>p. fst p \<le> k) m"

definition bt_remove :: "'k::linorder \<Rightarrow> ('k, 'v) btmap \<Rightarrow> ('k, 'v) btmap" where
  "bt_remove k m = filter (\<lambda>p. fst p \<noteq> k) m"

definition bt_keys :: "('k::linorder, 'v) btmap \<Rightarrow> 'k list" where
  "bt_keys m = map fst m"

definition bt_wf :: "('k::linorder, 'v) btmap \<Rightarrow> bool" where
  "bt_wf m \<longleftrightarrow> sorted_wrt (<) (map fst m)"

subsection \<open>The interface of a finite map\<close>

locale finite_map =
  fixes lookup :: "'m \<Rightarrow> 'k \<Rightarrow> 'v option"
    and put :: "'k \<Rightarrow> 'v \<Rightarrow> 'm \<Rightarrow> 'm"
    and drop_key :: "'k \<Rightarrow> 'm \<Rightarrow> 'm"
    and key_list :: "'m \<Rightarrow> 'k list"
    and invar :: "'m \<Rightarrow> bool"
  assumes lookup_put_law: "invar m \<Longrightarrow> lookup (put k v m) = (lookup m)(k \<mapsto> v)"
    and lookup_drop_law: "invar m \<Longrightarrow> lookup (drop_key k m) = (lookup m)(k := None)"
    and keys_law: "invar m \<Longrightarrow> set (key_list m) = dom (lookup m)"
    and distinct_law: "invar m \<Longrightarrow> distinct (key_list m)"
    and invar_put: "invar m \<Longrightarrow> invar (put k v m)"
    and invar_drop: "invar m \<Longrightarrow> invar (drop_key k m)"
begin

lemma keys_put: "invar m \<Longrightarrow> set (key_list (put k v m)) = insert k (set (key_list m))"
  by (simp add: keys_law invar_put lookup_put_law)

lemma keys_drop: "invar m \<Longrightarrow> set (key_list (drop_key k m)) = set (key_list m) - {k}"
  by (simp add: keys_law invar_drop lookup_drop_law)

lemma count_card: "invar m \<Longrightarrow> length (key_list m) = card (dom (lookup m))"
  by (metis distinct_card distinct_law keys_law)

lemma finite_dom_lookup: "invar m \<Longrightarrow> finite (dom (lookup m))"
  by (metis List.finite_set keys_law)

lemma count_put_new:
  "invar m \<Longrightarrow> lookup m k = None \<Longrightarrow> length (key_list (put k v m)) = Suc (length (key_list m))"
  by (simp add: count_card invar_put lookup_put_law domIff finite_dom_lookup)

lemma count_put_old:
  "invar m \<Longrightarrow> lookup m k = Some w \<Longrightarrow> length (key_list (put k v m)) = length (key_list m)"
  by (simp add: count_card invar_put lookup_put_law domI insert_absorb)

lemma put_then_drop:
  "invar m \<Longrightarrow> lookup m k = None \<Longrightarrow> lookup (drop_key k (put k v m)) = lookup m"
  by (simp add: lookup_drop_law lookup_put_law invar_put fun_upd_idem)

end

interpretation hm: finite_map hm_get hm_insert hm_remove hm_keys hm_wf
  by unfold_locales
    (auto simp: hm_get_def hm_insert_def hm_remove_def hm_keys_def hm_wf_def update_conv'
      delete_conv' dom_map_of_conv_image_fst distinct_update distinct_delete intro: rev_image_eqI)

lemma bt_map_of_filter: "map_of (filter (\<lambda>p. fst p \<noteq> k) m) = (map_of m)(k := None)"
  by (induction m) auto

lemma bt_wf_Cons [simp]: "bt_wf (p # m) \<longleftrightarrow> (\<forall>q \<in> set m. fst p < fst q) \<and> bt_wf m"
  by (auto simp: bt_wf_def)

lemma bt_dropWhile_eq:
  "bt_wf m \<Longrightarrow> dropWhile (\<lambda>p. fst p \<le> k) m = filter (\<lambda>p. k < fst p) m"
proof (induction m)
  case (Cons p m)
  have "k < fst p \<Longrightarrow> filter (\<lambda>p. k < fst p) m = m"
    using Cons.prems by (intro filter_True) fastforce
  with Cons show ?case by auto
qed simp

lemma bt_takeWhile_eq:
  "bt_wf m \<Longrightarrow> takeWhile (\<lambda>p. fst p < k) m = filter (\<lambda>p. fst p < k) m"
proof (induction m)
  case (Cons p m)
  have "\<not> fst p < k \<Longrightarrow> filter (\<lambda>p. fst p < k) m = []"
    using Cons.prems by (intro filter_False) fastforce
  with Cons show ?case by auto
qed simp

lemma bt_insert_eq:
  "bt_wf m \<Longrightarrow> bt_insert k v m = filter (\<lambda>p. fst p < k) m @ (k, v) # filter (\<lambda>p. k < fst p) m"
  by (simp add: bt_insert_def bt_dropWhile_eq bt_takeWhile_eq)

lemma map_of_filter_key:
  "map_of (filter (\<lambda>p. P (fst p)) m) x = (if P x then map_of m x else None)"
  by (induction m) auto

lemma map_of_bt_insert: "bt_wf m \<Longrightarrow> map_of (bt_insert k v m) = (map_of m)(k \<mapsto> v)"
  using map_of_filter_key [of "\<lambda>x. x < k" m] map_of_filter_key [of "\<lambda>x. k < x" m]
  by (auto simp: bt_insert_eq map_add_def fun_eq_iff split: option.splits)

lemma bt_wf_filter: "bt_wf m \<Longrightarrow> bt_wf (filter P m)"
  by (induction m) (auto simp: bt_wf_def)

lemma bt_wf_append: "bt_wf (xs @ ys) \<longleftrightarrow> bt_wf xs \<and> bt_wf ys \<and> (\<forall>x\<in>set xs. \<forall>y\<in>set ys. fst x < fst y)"
  by (auto simp: bt_wf_def sorted_wrt_append)

lemma bt_wf_insert: "bt_wf m \<Longrightarrow> bt_wf (bt_insert k v m)"
  by (auto simp: bt_insert_eq bt_wf_append bt_wf_filter)

lemma bt_wf_distinct: "bt_wf m \<Longrightarrow> distinct (map fst m)"
  by (simp add: bt_wf_def strict_sorted_iff)

interpretation bt: finite_map bt_get bt_insert bt_remove bt_keys bt_wf
  by unfold_locales
    (auto simp: bt_get_def bt_remove_def bt_keys_def bt_map_of_filter map_of_bt_insert bt_wf_filter
      bt_wf_insert bt_wf_distinct dom_map_of_conv_image_fst intro: rev_image_eqI)

declare hm.lookup_put_law [lookup_simps] hm.lookup_drop_law [lookup_simps]
declare hm.invar_put [wf_intros] hm.invar_drop [wf_intros]
declare bt.lookup_put_law [lookup_simps] bt.lookup_drop_law [lookup_simps]
declare bt.invar_put [wf_intros] bt.invar_drop [wf_intros]

lemma hm_contains_key_iff: "hm_contains_key m k \<longleftrightarrow> hm_get m k \<noteq> None"
  by (simp add: hm_contains_key_def hm_get_def split: option.splits)

lemma hm_wf_empty [simp]: "hm_wf []"
  by (simp add: hm_wf_def)

lemma hm_get_empty [simp]: "hm_get [] k = None"
  by (simp add: hm_get_def)

lemma hm_get_in_set: "hm_wf m \<Longrightarrow> hm_get m k = Some v \<longleftrightarrow> (k, v) \<in> set m"
  by (simp add: hm_get_def hm_wf_def)

subsection \<open>Registers that keep a maximum\<close>

text \<open>
  Several components keep, per key, the greatest value they were given: the pending map of the
  change feed, the generation of a peer's view. The interface says what one write does; that any
  sequence of writes ends in the maximum, whatever the order and the duplicates, is proved once.
\<close>

locale max_register =
  fixes key_of :: "'w \<Rightarrow> 'k"
    and val_of :: "'w \<Rightarrow> 'v::linorder"
    and read :: "'s \<Rightarrow> 'k \<Rightarrow> 'v option"
    and bump :: "'w \<Rightarrow> 's \<Rightarrow> 's"
    and invar :: "'s \<Rightarrow> bool"
  assumes bump_law: "invar s \<Longrightarrow> read (bump w s) =
      (read s)(key_of w \<mapsto> (case read s (key_of w) of None \<Rightarrow> val_of w | Some v \<Rightarrow> max v (val_of w)))"
    and invar_bump: "invar s \<Longrightarrow> invar (bump w s)"
begin

lemma invar_run: "invar s \<Longrightarrow> invar (fold bump ws s)"
  by (induction ws arbitrary: s) (auto simp: invar_bump)

text \<open>The values a run writes to a key.\<close>

definition written :: "'w list \<Rightarrow> 'k \<Rightarrow> 'v set" where
  "written ws k = {val_of w |w. w \<in> set ws \<and> key_of w = k}"

lemma finite_written: "finite (written ws k)"
  by (rule finite_subset [of _ "val_of ` set ws"]) (auto simp: written_def)

lemma written_Cons:
  "written (w # ws) k = (if key_of w = k then insert (val_of w) (written ws k) else written ws k)"
  by (auto simp: written_def)

lemma run_max:
  "invar s \<Longrightarrow> read (fold bump ws s) k =
     (let vs = set_option (read s k) \<union> written ws k
      in if vs = {} then None else Some (Max vs))"
proof (induction ws arbitrary: s)
  case Nil
  then show ?case by (cases "read s k") (auto simp: Let_def written_def)
next
  case (Cons w ws)
  have "read (fold bump (w # ws) s) k =
      (let vs = set_option (read (bump w s) k) \<union> written ws k
       in if vs = {} then None else Some (Max vs))"
    using Cons.IH [OF invar_bump [OF Cons.prems, of w]] by simp
  also have "\<dots> = (let vs = set_option (read s k) \<union> written (w # ws) k
      in if vs = {} then None else Some (Max vs))"
    using Cons.prems finite_written [of ws k]
    by (cases "read s k"; cases "written ws k = {}")
      (auto simp: bump_law Let_def max.assoc written_Cons)
  finally show ?case .
qed

lemma run_order_irrelevant:
  assumes "invar s" "invar s'" and "read s k = read s' k"
    and "(\<lambda>w. (key_of w, val_of w)) ` set ws = (\<lambda>w. (key_of w, val_of w)) ` set ws'"
  shows "read (fold bump ws s) k = read (fold bump ws' s') k"
proof -
  have "written xs k = {v. (k, v) \<in> (\<lambda>w. (key_of w, val_of w)) ` set xs}" for xs
    by (auto simp: written_def)
  then have "written ws k = written ws' k" using assms(4) by simp
  with assms(1-3) show ?thesis by (simp add: run_max)
qed

lemma run_read_mono: "invar s \<Longrightarrow> read s k = Some v \<Longrightarrow> \<exists>u. read (fold bump ws s) k = Some u \<and> v \<le> u"
  by (auto simp: run_max Let_def finite_written)

end

subsection \<open>State machines with an invariant\<close>

inductive reachable :: "('s \<Rightarrow> bool) \<Rightarrow> ('s \<Rightarrow> 's \<Rightarrow> bool) \<Rightarrow> 's \<Rightarrow> bool" for init step where
  reachable_init: "init s \<Longrightarrow> reachable init step s"
| reachable_step: "reachable init step s \<Longrightarrow> step s t \<Longrightarrow> reachable init step t"

locale invariant_machine =
  fixes init :: "'s \<Rightarrow> bool"
    and step :: "'s \<Rightarrow> 's \<Rightarrow> bool"
    and inv :: "'s \<Rightarrow> bool"
  assumes inv_init: "init s \<Longrightarrow> inv s"
    and inv_step: "inv s \<Longrightarrow> step s t \<Longrightarrow> inv t"
begin

lemma reachable_inv: "reachable init step s \<Longrightarrow> inv s"
  by (induction rule: reachable.induct) (auto intro: inv_init inv_step)

end

text \<open>A detailed machine that an abstract one can follow: each detailed step is matched by any number of
  abstract steps.\<close>

lemma reachable_steps: "step\<^sup>*\<^sup>* s t \<Longrightarrow> reachable init step s \<Longrightarrow> reachable init step t"
  by (induction rule: rtranclp_induct) (auto intro: reachable_step)

locale forward_simulation =
  fixes init :: "'c \<Rightarrow> bool"
    and step :: "'c \<Rightarrow> 'c \<Rightarrow> bool"
    and abs_init :: "'a \<Rightarrow> bool"
    and abs_step :: "'a \<Rightarrow> 'a \<Rightarrow> bool"
    and match :: "'c \<Rightarrow> 'a \<Rightarrow> bool"
  assumes match_init: "init c \<Longrightarrow> \<exists>a. abs_init a \<and> match c a"
    and match_step: "match c a \<Longrightarrow> reachable abs_init abs_step a \<Longrightarrow> step c c' \<Longrightarrow>
      \<exists>a'. abs_step\<^sup>*\<^sup>* a a' \<and> match c' a'"
begin

lemma reachable_match:
  "reachable init step c \<Longrightarrow> \<exists>a. reachable abs_init abs_step a \<and> match c a"
proof (induction rule: reachable.induct)
  case (reachable_init c)
  then obtain a where "abs_init a" "match c a" using match_init by blast
  then show ?case by (intro exI [of _ a] conjI reachable.reachable_init)
next
  case (reachable_step c c')
  then obtain a where a: "reachable abs_init abs_step a" "match c a" by blast
  obtain a' where a': "abs_step\<^sup>*\<^sup>* a a'" "match c' a'"
    using match_step [OF a(2,1) reachable_step.hyps(2)] by blast
  from reachable_steps [OF a'(1) a(1)] a'(2) show ?case by blast
qed

end

end
