(* ===== verification/Types.thy ===== *)
theory Types
  imports Prelude
begin

text \<open>
  The data model of the crate: \<open>dstate/src/types\<close> (generations, envelopes, configuration, errors,
  wire messages), the urgency hint of \<open>traits/state.rs\<close> and the clocks of \<open>traits/clock.rs\<close>.
  The single-constructor datatype \<open>generation\<close> carries the order of its \<open>Ord\<close> instance as a
  \<open>linorder\<close>; the other structs are records, their fields prefixed because field names are global.
\<close>

subsection \<open>Generations (types/node.rs)\<close>

datatype generation = Generation (incarnation: u64) (age: u64)

definition generation_new :: "u64 \<Rightarrow> u64 \<Rightarrow> generation" where
  "generation_new inc a = Generation inc a"

definition generation_zero :: generation where
  "generation_zero = Generation 0 0"

definition is_new_incarnation :: "generation \<Rightarrow> generation \<Rightarrow> bool" where
  "is_new_incarnation self other \<longleftrightarrow> incarnation self > incarnation other"

datatype ordering = Less | Equal | Greater

definition cmp_u64 :: "u64 \<Rightarrow> u64 \<Rightarrow> ordering" where
  "cmp_u64 a b = (if a < b then Less else if a = b then Equal else Greater)"

definition ordering_then :: "ordering \<Rightarrow> ordering \<Rightarrow> ordering" where
  "ordering_then o1 o2 = (case o1 of Equal \<Rightarrow> o2 | _ \<Rightarrow> o1)"

definition generation_cmp :: "generation \<Rightarrow> generation \<Rightarrow> ordering" where
  "generation_cmp self other =
     ordering_then (cmp_u64 (incarnation self) (incarnation other)) (cmp_u64 (age self) (age other))"

definition generation_partial_cmp :: "generation \<Rightarrow> generation \<Rightarrow> ordering option" where
  "generation_partial_cmp self other = Some (generation_cmp self other)"

definition show_generation :: "generation \<Rightarrow> string" where
  "show_generation g = ''v'' @ show_u64 (incarnation g) @ '':'' @ show_u64 (age g)"

datatype version_mismatch_policy = KeepStalePolicy | DropAndWait

text \<open>The comparison operators of Rust go through \<open>partial_cmp\<close>.\<close>

instantiation generation :: linorder
begin

definition less_eq_generation :: "generation \<Rightarrow> generation \<Rightarrow> bool" where
  "g \<le> h \<longleftrightarrow> generation_cmp g h \<noteq> Greater"

definition less_generation :: "generation \<Rightarrow> generation \<Rightarrow> bool" where
  "g < h \<longleftrightarrow> generation_cmp g h = Less"

instance
  by standard
    (auto simp: less_eq_generation_def less_generation_def generation_cmp_def ordering_then_def
      cmp_u64_def intro: generation.expand split: if_splits)

end

lemma generation_less_iff:
  "g < h \<longleftrightarrow> incarnation g < incarnation h \<or> incarnation g = incarnation h \<and> age g < age h"
  by (auto simp: less_generation_def generation_cmp_def ordering_then_def cmp_u64_def)

lemma generation_le_iff:
  "g \<le> h \<longleftrightarrow> incarnation g < incarnation h \<or> incarnation g = incarnation h \<and> age g \<le> age h"
  by (auto simp: less_eq_generation_def generation_cmp_def ordering_then_def cmp_u64_def)

lemma generation_zero_least: "generation_zero \<le> g"
  by (simp add: generation_zero_def generation_le_iff) (metis word_gt_0)

subsection \<open>Envelopes (types/envelope.rs)\<close>

record 's state_object =
  so_generation :: generation
  so_storage_version :: u32
  so_value :: 's
  so_created_time :: i64
  so_modified_time :: i64

definition so_age :: "'s state_object \<Rightarrow> u64" where
  "so_age so = age (so_generation so)"

definition so_incarnation :: "'s state_object \<Rightarrow> u64" where
  "so_incarnation so = incarnation (so_generation so)"

record 'v state_view_object =
  sv_generation :: generation
  sv_wire_version :: u32
  sv_value :: 'v
  sv_created_time :: i64
  sv_modified_time :: i64
  sv_synced_at :: instant
  sv_pending_remote_generation :: "generation option"
  sv_source_node :: node_id

subsection \<open>Urgency (traits/state.rs) and configuration (types/config.rs)\<close>

datatype sync_urgency = Immediate | Delayed duration | SuppressUrgency | DefaultUrgency

datatype push_mode = ActivePush | ActiveFeedLazyPull

record change_feed_config =
  cf_batch_interval :: duration

definition change_feed_config_default :: change_feed_config where
  "change_feed_config_default = \<lparr>cf_batch_interval = from_secs 1\<rparr>"

record sync_strategy =
  st_push_mode :: "push_mode option"
  st_periodic_full_sync :: "duration option"
  st_pull_on_query :: bool
  st_change_feed :: change_feed_config

definition active_push :: sync_strategy where
  "active_push = \<lparr>st_push_mode = Some ActivePush, st_periodic_full_sync = None,
     st_pull_on_query = False, st_change_feed = change_feed_config_default\<rparr>"

definition feed_lazy_pull :: sync_strategy where
  "feed_lazy_pull = \<lparr>st_push_mode = Some ActiveFeedLazyPull, st_periodic_full_sync = None,
     st_pull_on_query = True, st_change_feed = change_feed_config_default\<rparr>"

definition feed_with_periodic_sync :: "duration \<Rightarrow> sync_strategy" where
  "feed_with_periodic_sync interval = \<lparr>st_push_mode = Some ActiveFeedLazyPull,
     st_periodic_full_sync = Some interval, st_pull_on_query = True,
     st_change_feed = change_feed_config_default\<rparr>"

definition periodic_only :: "duration \<Rightarrow> sync_strategy" where
  "periodic_only interval = \<lparr>st_push_mode = None, st_periodic_full_sync = Some interval,
     st_pull_on_query = False, st_change_feed = change_feed_config_default\<rparr>"

record state_config =
  sc_sync_strategy :: sync_strategy
  sc_pull_timeout :: duration
  sc_version_mismatch_policy :: version_mismatch_policy

definition state_config_default :: state_config where
  "state_config_default = \<lparr>sc_sync_strategy = active_push, sc_pull_timeout = from_secs 5,
     sc_version_mismatch_policy = KeepStalePolicy\<rparr>"

subsection \<open>Wire messages (types/sync\_message.rs)\<close>

text \<open>Fields in the order of the source: state name, source node, generation, wire version, data.\<close>

datatype sync_message =
    FullSnapshot string node_id generation u32 bytes
  | DeltaUpdate string node_id generation u32 bytes
  | RequestSnapshot string node_id

record change_notification =
  cn_state_name :: string
  cn_source_node :: node_id
  cn_generation :: generation

record batched_change_feed =
  bf_source_node :: node_id
  bf_notifications :: "change_notification list"

subsection \<open>Errors (types/errors.rs, traits/persistence.rs)\<close>

datatype registry_error =
    StateNotRegistered string
  | TypeMismatch string string string
  | DuplicateName string

fun show_registry_error :: "registry_error \<Rightarrow> string" where
  "show_registry_error (StateNotRegistered name) = ''state not registered: '' @ name"
| "show_registry_error (TypeMismatch name expected actual) =
     ''type mismatch for '' @ [CHR 0x27] @ name @ [CHR 0x27] @ '': expected '' @ expected @
     '', got '' @ actual"
| "show_registry_error (DuplicateName name) = ''duplicate state name: '' @ name"

datatype query_error =
    RegistryQueryError registry_error
  | StalePeer node_id string
  | QueryActorStopped

text \<open>\<open>NodeId\<close> is dactor's type: how it prints is a parameter.\<close>

fun show_query_error :: "(node_id \<Rightarrow> string) \<Rightarrow> query_error \<Rightarrow> string" where
  "show_query_error show_node (RegistryQueryError e) = ''query failed: '' @ show_registry_error e"
| "show_query_error show_node (StalePeer node reason) =
     ''stale peer '' @ show_node node @ '': '' @ reason"
| "show_query_error show_node QueryActorStopped = ''query failed: actor stopped''"

definition query_error_from :: "registry_error \<Rightarrow> query_error" where
  "query_error_from e = RegistryQueryError e"

datatype mutation_error = PersistenceFailed string | MutationActorStopped

fun show_mutation_error :: "mutation_error \<Rightarrow> string" where
  "show_mutation_error (PersistenceFailed msg) = ''persistence failed: '' @ msg"
| "show_mutation_error MutationActorStopped = ''mutation failed: actor stopped''"

datatype deserialize_error = UnknownVersion u32 | Malformed string

definition unknown_version :: "u32 \<Rightarrow> deserialize_error" where
  "unknown_version version = UnknownVersion version"

fun show_deserialize_error :: "deserialize_error \<Rightarrow> string" where
  "show_deserialize_error (UnknownVersion v) = ''unknown version: '' @ show_u32 v"
| "show_deserialize_error (Malformed msg) = ''malformed data: '' @ msg"

datatype persist_error = StorageUnavailable string | DeserializationFailed string | Io string

fun show_persist_error :: "persist_error \<Rightarrow> string" where
  "show_persist_error (StorageUnavailable msg) = ''storage unavailable: '' @ msg"
| "show_persist_error (DeserializationFailed msg) = ''deserialization failed: '' @ msg"
| "show_persist_error (Io msg) = ''I/O error: '' @ msg"

subsection \<open>Clocks (traits/clock.rs)\<close>

text \<open>
  An operation reads its clock through the two methods of the \<open>Clock\<close> trait. The model passes the
  values the clock shows while the operation runs; they are constant during one operation of the
  \<open>TestClock\<close>, which every deterministic test uses.
\<close>

record clock_reading =
  clk_now :: instant
  clk_unix_ms :: i64

record test_clock =
  tc_start_instant :: instant
  tc_elapsed_ms :: i64
  tc_base_unix_ms :: i64

definition test_clock_with_base :: "instant \<Rightarrow> i64 \<Rightarrow> test_clock" where
  "test_clock_with_base start base =
     \<lparr>tc_start_instant = start, tc_elapsed_ms = 0, tc_base_unix_ms = base\<rparr>"

definition test_clock_advance :: "duration \<Rightarrow> test_clock \<Rightarrow> test_clock" where
  "test_clock_advance d c = c\<lparr>tc_elapsed_ms := tc_elapsed_ms c + of_nat (as_millis d)\<rparr>"

definition test_clock_elapsed :: "test_clock \<Rightarrow> duration" where
  "test_clock_elapsed c = from_millis (tc_elapsed_ms c)"

definition test_clock_now :: "test_clock \<Rightarrow> instant" where
  "test_clock_now c = tc_start_instant c + test_clock_elapsed c"

definition test_clock_unix_ms :: "test_clock \<Rightarrow> i64" where
  "test_clock_unix_ms c = tc_base_unix_ms c + tc_elapsed_ms c"

definition test_clock_read :: "test_clock \<Rightarrow> clock_reading" where
  "test_clock_read c = \<lparr>clk_now = test_clock_now c, clk_unix_ms = test_clock_unix_ms c\<rparr>"

subsection \<open>Facts\<close>

lemma show_nat_no_colon: "CHR '':'' \<notin> set (show_nat n)"
  using show_nat_digits [of "CHR '':''" n] by auto

lemma append_sep_inject:
  "c \<notin> set xs \<Longrightarrow> c \<notin> set xs' \<Longrightarrow> xs @ c # ys = xs' @ c # ys' \<longleftrightarrow> xs = xs' \<and> ys = ys'"
proof (induction xs arbitrary: xs')
  case Nil
  then show ?case by (cases xs') auto
next
  case (Cons x xs)
  then show ?case by (cases xs') auto
qed

lemma show_generation_inject: "show_generation g = show_generation h \<longleftrightarrow> g = h"
  by (cases g; cases h)
    (auto simp: show_generation_def show_u64_def append_sep_inject show_nat_no_colon
      word_unat_eq_iff dest!: show_nat_inject)

lemma generation_next_less: "a \<noteq> - 1 \<Longrightarrow> Generation i a < Generation i (a + 1)"
  by (simp add: generation_less_iff word_less_inc)

lemma test_clock_monotone:
  assumes "unat (tc_elapsed_ms c) + as_millis d < 2 ^ 64"
  shows "test_clock_now (test_clock_advance d c) = test_clock_now c + as_millis d * 1000000"
proof -
  have "unat (tc_elapsed_ms c + of_nat (as_millis d)) = unat (tc_elapsed_ms c) + as_millis d"
    using assms by (simp add: unat_word_ariths unat_of_nat)
  then show ?thesis
    by (simp add: test_clock_now_def test_clock_advance_def test_clock_elapsed_def from_millis_def
        distrib_right)
qed

end
