(* ===== verification/View_Map.thy ===== *)
theory View_Map
  imports Types
begin

text \<open>
  \<open>dstate/src/core/view_map.rs\<close>. The view map is an outer map from nodes to cells and one cell per
  node; the outer map is replaced when a node joins or leaves, a cell is overwritten in place when a
  view changes. The model keeps the cells in an explicit store, because a reader that loaded the
  outer map earlier still shares the cells with the writer: \<open>vm_inner\<close> maps a node to the
  address of its cell and \<open>vm_cells\<close> is the store. \<open>vm_get\<close> is the abstraction function; the
  refinement lemmas say that each operation is the corresponding update of a partial map.
\<close>

record 'v view_map =
  vm_inner :: "(node_id, nat) hmap"
  vm_cells :: "'v state_view_object list"

definition vm_new :: "node_id \<Rightarrow> 'v state_view_object \<Rightarrow> 'v view_map" where
  "vm_new node initial_view = \<lparr>vm_inner = hm_insert node 0 [], vm_cells = [initial_view]\<rparr>"

definition vm_get :: "'v view_map \<Rightarrow> node_id \<Rightarrow> 'v state_view_object option" where
  "vm_get m node = map_option (\<lambda>a. vm_cells m ! a) (hm_get (vm_inner m) node)"

text \<open>A new cell is allocated at the end of the store and the outer map is copied.\<close>

definition vm_insert_cell :: "'v view_map \<Rightarrow> node_id \<Rightarrow> 'v state_view_object \<Rightarrow> 'v view_map" where
  "vm_insert_cell m node view =
     \<lparr>vm_inner = hm_insert node (length (vm_cells m)) (vm_inner m), vm_cells = vm_cells m @ [view]\<rparr>"

definition vm_store_cell :: "'v view_map \<Rightarrow> nat \<Rightarrow> 'v state_view_object \<Rightarrow> 'v view_map" where
  "vm_store_cell m a view = m\<lparr>vm_cells := (vm_cells m)[a := view]\<rparr>"

definition vm_update :: "'v view_map \<Rightarrow> node_id \<Rightarrow> 'v state_view_object \<Rightarrow> 'v view_map \<times> bool" where
  "vm_update m node view =
     (case hm_get (vm_inner m) node of
        Some a \<Rightarrow> (vm_store_cell m a view, True)
      | None \<Rightarrow> (m, False))"

definition vm_insert_node ::
    "'v view_map \<Rightarrow> node_id \<Rightarrow> 'v state_view_object \<Rightarrow> 'v view_map \<times> bool" where
  "vm_insert_node m node view =
     (if hm_contains_key (vm_inner m) node then (m, False)
      else (vm_insert_cell m node view, True))"

definition vm_upsert :: "'v view_map \<Rightarrow> node_id \<Rightarrow> 'v state_view_object \<Rightarrow> 'v view_map" where
  "vm_upsert m node view =
     (case hm_get (vm_inner m) node of
        Some a \<Rightarrow> vm_store_cell m a view
      | None \<Rightarrow> vm_insert_cell m node view)"

definition vm_remove_node :: "'v view_map \<Rightarrow> node_id \<Rightarrow> 'v view_map \<times> bool" where
  "vm_remove_node m node =
     (if \<not> hm_contains_key (vm_inner m) node then (m, False)
      else (m\<lparr>vm_inner := hm_remove node (vm_inner m)\<rparr>, True))"

definition vm_contains :: "'v view_map \<Rightarrow> node_id \<Rightarrow> bool" where
  "vm_contains m node = hm_contains_key (vm_inner m) node"

definition vm_len :: "'v view_map \<Rightarrow> nat" where
  "vm_len m = length (vm_inner m)"

definition vm_snapshot :: "'v view_map \<Rightarrow> (node_id, 'v state_view_object) hmap" where
  "vm_snapshot m = map (\<lambda>(k, a). (k, vm_cells m ! a)) (vm_inner m)"

definition vm_node_ids :: "'v view_map \<Rightarrow> node_id list" where
  "vm_node_ids m = hm_keys (vm_inner m)"

definition view_is_stale :: "instant \<Rightarrow> duration \<Rightarrow> 'v state_view_object \<Rightarrow> bool" where
  "view_is_stale now max_staleness vo \<longleftrightarrow>
     sv_pending_remote_generation vo \<noteq> None \<or> duration_since now (sv_synced_at vo) > max_staleness"

definition vm_stale_peers ::
    "'v view_map \<Rightarrow> node_id \<Rightarrow> duration \<Rightarrow> clock_reading \<Rightarrow> node_id list" where
  "vm_stale_peers m local_node max_staleness clock =
     map fst (filter (\<lambda>(k, a). view_is_stale (clk_now clock) max_staleness (vm_cells m ! a))
       (filter (\<lambda>(k, a). k \<noteq> local_node) (vm_inner m)))"

definition vm_update_if ::
    "'v view_map \<Rightarrow> node_id \<Rightarrow> ('v state_view_object option \<Rightarrow> 'v state_view_object option) \<Rightarrow>
     'v view_map \<times> bool" where
  "vm_update_if m node f =
     (case hm_get (vm_inner m) node of
        Some a \<Rightarrow>
          (case f (Some (vm_cells m ! a)) of
             Some new_view \<Rightarrow> (vm_store_cell m a new_view, True)
           | None \<Rightarrow> (m, False))
      | None \<Rightarrow>
          (case f None of
             Some new_view \<Rightarrow> (vm_insert_cell m node new_view, True)
           | None \<Rightarrow> (m, False)))"

subsection \<open>Well-formedness: distinct keys, distinct allocated cells\<close>

definition vm_wf :: "'v view_map \<Rightarrow> bool" where
  "vm_wf m \<longleftrightarrow> hm_wf (vm_inner m) \<and> distinct (map snd (vm_inner m)) \<and>
     (\<forall>a \<in> snd ` set (vm_inner m). a < length (vm_cells m))"

lemma vm_wf_hm [simp]: "vm_wf m \<Longrightarrow> hm_wf (vm_inner m)"
  by (simp add: vm_wf_def)

lemma vm_wf_addr: "vm_wf m \<Longrightarrow> hm_get (vm_inner m) n = Some a \<Longrightarrow> a < length (vm_cells m)"
  by (force simp: vm_wf_def hm_get_def dest: map_of_SomeD)

lemma vm_wf_inj:
  assumes "vm_wf m" and "hm_get (vm_inner m) n = Some a" and "hm_get (vm_inner m) k = Some a"
  shows "n = k"
proof -
  have "inj_on snd (set (vm_inner m))"
    using assms(1) by (auto simp: vm_wf_def distinct_map)
  moreover have "(n, a) \<in> set (vm_inner m)" "(k, a) \<in> set (vm_inner m)"
    using assms(2,3) by (auto simp: hm_get_def dest: map_of_SomeD)
  ultimately show ?thesis by (metis inj_onD prod.inject snd_conv)
qed

lemma snd_in_hm_insert: "(x, b) \<in> set (hm_insert k a m) \<Longrightarrow> b = a \<or> b \<in> snd ` set m"
proof (induction m)
  case (Cons p m)
  then show ?case by (cases p) (auto simp: hm_insert_def split: if_splits intro: rev_image_eqI)
qed (simp add: hm_insert_def)

lemma distinct_snd_hm_insert:
  "distinct (map snd m) \<Longrightarrow> a \<notin> snd ` set m \<Longrightarrow> distinct (map snd (hm_insert k a m))"
proof (induction m)
  case (Cons p m)
  then show ?case
    using snd_in_hm_insert [of _ _ k a m] by (cases p) (force simp: hm_insert_def)
qed (simp add: hm_insert_def)

lemma vm_wf_new [wf_intros]: "vm_wf (vm_new n v)"
  by (simp add: vm_wf_def vm_new_def hm_insert_def hm_wf_def)

lemma vm_wf_store_cell [wf_intros]: "vm_wf m \<Longrightarrow> vm_wf (vm_store_cell m a v)"
  by (simp add: vm_wf_def vm_store_cell_def)

lemma vm_wf_insert_cell [wf_intros]: "vm_wf m \<Longrightarrow> vm_wf (vm_insert_cell m n v)"
proof -
  assume wf: "vm_wf m"
  then have new: "length (vm_cells m) \<notin> snd ` set (vm_inner m)"
    by (auto simp: vm_wf_def)
  have "b < Suc (length (vm_cells m))"
    if "(x, b) \<in> set (hm_insert n (length (vm_cells m)) (vm_inner m))" for x b
    using snd_in_hm_insert [OF that] wf by (auto simp: vm_wf_def less_Suc_eq)
  then show ?thesis
    using wf new by (auto simp: vm_wf_def vm_insert_cell_def hm.invar_put distinct_snd_hm_insert)
qed

lemma set_hm_remove: "set (hm_remove k m) = {p \<in> set m. fst p \<noteq> k}"
  by (auto simp: hm_remove_def AList.delete_eq)

lemma distinct_snd_hm_remove: "distinct (map snd m) \<Longrightarrow> distinct (map snd (hm_remove k m))"
  by (simp add: hm_remove_def AList.delete_eq distinct_map_filter)

lemma vm_wf_remove_node [wf_intros]: "vm_wf m \<Longrightarrow> vm_wf (fst (vm_remove_node m n))"
  by (auto simp: vm_wf_def vm_remove_node_def hm.invar_drop distinct_snd_hm_remove set_hm_remove)

lemma vm_wf_update [wf_intros]: "vm_wf m \<Longrightarrow> vm_wf (fst (vm_update m n v))"
  by (auto simp: vm_update_def intro: wf_intros split: option.splits)

lemma vm_wf_insert_node [wf_intros]: "vm_wf m \<Longrightarrow> vm_wf (fst (vm_insert_node m n v))"
  by (auto simp: vm_insert_node_def intro: wf_intros)

lemma vm_wf_upsert [wf_intros]: "vm_wf m \<Longrightarrow> vm_wf (vm_upsert m n v)"
  by (auto simp: vm_upsert_def intro: wf_intros split: option.splits)

lemma vm_wf_update_if [wf_intros]: "vm_wf m \<Longrightarrow> vm_wf (fst (vm_update_if m n f))"
  by (auto simp: vm_update_if_def intro: wf_intros split: option.splits)

subsection \<open>Refinement: each operation is an update of a partial map\<close>

lemma vm_get_new [lookup_simps]: "vm_get (vm_new n v) = [n \<mapsto> v]"
  by (auto simp: vm_get_def vm_new_def hm_insert_def hm_get_def fun_eq_iff)

lemma vm_get_store_cell:
  "vm_wf m \<Longrightarrow> hm_get (vm_inner m) n = Some a \<Longrightarrow> vm_get (vm_store_cell m a v) = (vm_get m)(n \<mapsto> v)"
  by (rule ext) (auto simp: vm_get_def vm_store_cell_def nth_list_update vm_wf_addr map_option_case
      dest: vm_wf_inj split: option.splits)

lemma vm_get_insert_cell:
  "vm_wf m \<Longrightarrow> vm_get (vm_insert_cell m n v) = (vm_get m)(n \<mapsto> v)"
  by (rule ext) (auto simp: vm_get_def vm_insert_cell_def lookup_simps nth_append map_option_case
      dest: vm_wf_addr split: option.splits)

lemma vm_get_None_iff: "vm_get m n = None \<longleftrightarrow> hm_get (vm_inner m) n = None"
  by (simp add: vm_get_def)

lemma vm_get_update [lookup_simps]:
  "vm_wf m \<Longrightarrow> vm_get (fst (vm_update m n v)) = (if vm_get m n = None then vm_get m else (vm_get m)(n \<mapsto> v))"
  by (auto simp: vm_update_def vm_get_store_cell vm_get_None_iff split: option.splits)

lemma vm_update_present [lookup_simps]: "snd (vm_update m n v) \<longleftrightarrow> vm_get m n \<noteq> None"
  by (auto simp: vm_update_def vm_get_None_iff split: option.splits)

lemma vm_get_insert_node [lookup_simps]:
  "vm_wf m \<Longrightarrow> vm_get (fst (vm_insert_node m n v)) =
     (if vm_get m n = None then (vm_get m)(n \<mapsto> v) else vm_get m)"
  by (auto simp: vm_insert_node_def vm_get_insert_cell vm_get_None_iff hm_contains_key_iff)

lemma vm_get_upsert [lookup_simps]: "vm_wf m \<Longrightarrow> vm_get (vm_upsert m n v) = (vm_get m)(n \<mapsto> v)"
  by (auto simp: vm_upsert_def vm_get_store_cell vm_get_insert_cell split: option.splits)

lemma vm_get_remove_node [lookup_simps]:
  "vm_wf m \<Longrightarrow> vm_get (fst (vm_remove_node m n)) = (vm_get m)(n := None)"
  by (rule ext) (auto simp: vm_remove_node_def vm_get_def hm_contains_key_iff lookup_simps)

lemma vm_remove_node_present [lookup_simps]: "snd (vm_remove_node m n) \<longleftrightarrow> vm_get m n \<noteq> None"
  by (auto simp: vm_remove_node_def hm_contains_key_iff vm_get_None_iff)

lemma vm_get_update_if [lookup_simps]:
  "vm_wf m \<Longrightarrow> vm_get (fst (vm_update_if m n f)) =
     (case f (vm_get m n) of None \<Rightarrow> vm_get m | Some v \<Rightarrow> (vm_get m)(n \<mapsto> v))"
  by (auto simp: vm_update_if_def vm_get_store_cell vm_get_insert_cell vm_get_def [of m n]
      split: option.splits)

lemma vm_update_if_changed [lookup_simps]: "snd (vm_update_if m n f) \<longleftrightarrow> f (vm_get m n) \<noteq> None"
  by (auto simp: vm_update_if_def vm_get_def split: option.splits)

lemma hm_get_snapshot [lookup_simps]: "hm_get (vm_snapshot m) n = vm_get m n"
  by (simp add: vm_snapshot_def vm_get_def hm_get_def map_of_map comp_def)

lemma map_fst_snapshot: "map fst (vm_snapshot m) = vm_node_ids m"
  by (simp add: vm_snapshot_def vm_node_ids_def hm_keys_def case_prod_unfold comp_def)

lemma hm_wf_snapshot [wf_intros]: "vm_wf m \<Longrightarrow> hm_wf (vm_snapshot m)"
  by (simp add: hm_wf_def map_fst_snapshot) (simp add: vm_wf_def hm_wf_def vm_node_ids_def hm_keys_def)

lemma set_snapshot_iff: "vm_wf m \<Longrightarrow> (n, v) \<in> set (vm_snapshot m) \<longleftrightarrow> vm_get m n = Some v"
  by (simp add: hm_get_in_set [symmetric] hm_wf_snapshot lookup_simps)

lemma vm_len_card: "vm_wf m \<Longrightarrow> vm_len m = card (dom (vm_get m))"
proof -
  assume "vm_wf m"
  then have "length (hm_keys (vm_inner m)) = card (dom (hm_get (vm_inner m)))"
    by (simp add: hm.count_card)
  moreover have "dom (hm_get (vm_inner m)) = dom (vm_get m)"
    by (auto simp: vm_get_def dom_def)
  ultimately show ?thesis by (simp add: vm_len_def hm_keys_def)
qed

lemma set_stale_peers:
  assumes "vm_wf m"
  shows "set (vm_stale_peers m local d clock) =
    {n. n \<noteq> local \<and> (\<exists>v. vm_get m n = Some v \<and> view_is_stale (clk_now clock) d v)}"
proof -
  have "hm_get (vm_inner m) n = Some a \<longleftrightarrow> (n, a) \<in> set (vm_inner m)" for n a
    using assms by (simp add: hm_get_in_set)
  then show ?thesis
    by (auto simp: vm_stale_peers_def vm_get_def image_iff split: prod.splits) force+
qed

subsection \<open>The interface its clients rely on\<close>

text \<open>
  \<open>views_le\<close> compares two states of a view map: no entry is lost and no generation goes back. The
  locale is the contract of \<open>update_if\<close>, and its lemma is what every guarded inbound update uses.
\<close>

definition views_le ::
    "(node_id \<rightharpoonup> 'v state_view_object) \<Rightarrow> (node_id \<rightharpoonup> 'v state_view_object) \<Rightarrow> bool" where
  "views_le f g \<longleftrightarrow>
     (\<forall>n v. f n = Some v \<longrightarrow> (\<exists>w. g n = Some w \<and> sv_generation v \<le> sv_generation w))"

lemma views_le_refl [simp]: "views_le f f"
  by (simp add: views_le_def)

lemma views_le_trans: "views_le f g \<Longrightarrow> views_le g h \<Longrightarrow> views_le f h"
  unfolding views_le_def by (meson order_trans)

lemma views_le_upd:
  "(\<And>v. f n = Some v \<Longrightarrow> sv_generation v \<le> sv_generation w) \<Longrightarrow> views_le f (f(n \<mapsto> w))"
  by (auto simp: views_le_def)

locale view_store =
  fixes get :: "'m \<Rightarrow> node_id \<Rightarrow> 'v state_view_object option"
    and update_if :: "'m \<Rightarrow> node_id \<Rightarrow>
      ('v state_view_object option \<Rightarrow> 'v state_view_object option) \<Rightarrow> 'm \<times> bool"
    and invar :: "'m \<Rightarrow> bool"
  assumes update_if_get_law: "invar m \<Longrightarrow> get (fst (update_if m n f)) =
      (case f (get m n) of None \<Rightarrow> get m | Some v \<Rightarrow> (get m)(n \<mapsto> v))"
    and update_if_flag_law: "invar m \<Longrightarrow> snd (update_if m n f) \<longleftrightarrow> f (get m n) \<noteq> None"
    and update_if_invar_law: "invar m \<Longrightarrow> invar (fst (update_if m n f))"
begin

lemma guarded_update_le:
  assumes "invar m"
    and "\<And>v w. get m n = Some v \<Longrightarrow> f (Some v) = Some w \<Longrightarrow> sv_generation v \<le> sv_generation w"
  shows "views_le (get m) (get (fst (update_if m n f)))"
  using assms by (auto simp: update_if_get_law split: option.splits intro!: views_le_upd)

lemma rejected_update_same: "invar m \<Longrightarrow> \<not> snd (update_if m n f) \<Longrightarrow> get (fst (update_if m n f)) = get m"
  by (simp add: update_if_get_law update_if_flag_law)

lemma update_if_other: "invar m \<Longrightarrow> k \<noteq> n \<Longrightarrow> get (fst (update_if m n f)) k = get m k"
  by (simp add: update_if_get_law split: option.splits)

end

interpretation vm: view_store vm_get vm_update_if vm_wf
  by unfold_locales (auto simp: lookup_simps intro: wf_intros)

subsection \<open>Concurrent readers\<close>

text \<open>
  A reader loads the outer map once (\<open>inner\<close>) and then the cell of a node, possibly after the writer
  has gone on. All writes go through the mailbox of one actor, so the writer is a sequence of
  operations.
\<close>

definition vm_read_via ::
    "(node_id, nat) hmap \<Rightarrow> 'v view_map \<Rightarrow> node_id \<Rightarrow> 'v state_view_object option" where
  "vm_read_via inner m node = map_option (\<lambda>a. vm_cells m ! a) (hm_get inner node)"

datatype 'v vm_op =
    VmUpdate node_id "'v state_view_object"
  | VmInsert node_id "'v state_view_object"
  | VmUpsert node_id "'v state_view_object"
  | VmRemove node_id
  | VmUpdateIf node_id "'v state_view_object option \<Rightarrow> 'v state_view_object option"

fun vm_apply :: "'v vm_op \<Rightarrow> 'v view_map \<Rightarrow> 'v view_map" where
  "vm_apply (VmUpdate n v) m = fst (vm_update m n v)"
| "vm_apply (VmInsert n v) m = fst (vm_insert_node m n v)"
| "vm_apply (VmUpsert n v) m = vm_upsert m n v"
| "vm_apply (VmRemove n) m = fst (vm_remove_node m n)"
| "vm_apply (VmUpdateIf n f) m = fst (vm_update_if m n f)"

lemma vm_wf_apply [wf_intros]: "vm_wf m \<Longrightarrow> vm_wf (vm_apply op m)"
  by (cases op) (auto intro: wf_intros)

lemma vm_apply_keeps_cell:
  "vm_wf m \<Longrightarrow> op \<noteq> VmRemove n \<Longrightarrow> hm_get (vm_inner m) n = Some a \<Longrightarrow>
     hm_get (vm_inner (vm_apply op m)) n = Some a"
  by (cases op) (auto simp: vm_update_def vm_insert_node_def vm_upsert_def vm_remove_node_def
      vm_update_if_def vm_store_cell_def vm_insert_cell_def lookup_simps hm_contains_key_iff
      split: option.splits)

lemma vm_run_keeps_cell:
  "vm_wf m \<Longrightarrow> VmRemove n \<notin> set ops \<Longrightarrow> hm_get (vm_inner m) n = Some a \<Longrightarrow>
     hm_get (vm_inner (fold vm_apply ops m)) n = Some a"
  by (induction ops arbitrary: m) (auto simp: vm_apply_keeps_cell wf_intros)

text \<open>
  C27: a lock-free reader that loaded the outer map before any sequence of writes reads, for a node
  that was present and not removed meanwhile, exactly the entry the view map now holds: the two-level
  structure never serves a torn or outdated cell to an old outer map.
\<close>

theorem lock_free_read_current:
  assumes "vm_wf m" and "vm_contains m n" and "VmRemove n \<notin> set ops"
  shows "vm_read_via (vm_inner m) (fold vm_apply ops m) n = vm_get (fold vm_apply ops m) n"
proof -
  obtain a where "hm_get (vm_inner m) n = Some a"
    using assms(2) by (auto simp: vm_contains_def hm_contains_key_iff)
  with vm_run_keeps_cell [OF assms(1,3)] show ?thesis
    by (simp add: vm_read_via_def vm_get_def)
qed

theorem lock_free_read_current_witness:
  "\<exists>v w :: u8 state_view_object. v \<noteq> w \<and>
     vm_read_via (vm_inner (vm_new ''a'' v)) (fold vm_apply [VmUpsert ''b'' v, VmUpdate ''a'' w] (vm_new ''a'' v)) ''a'' = Some w"
proof -
  define v :: "u8 state_view_object" where
    "v = \<lparr>sv_generation = generation_zero, sv_wire_version = 1, sv_value = 0, sv_created_time = 0,
      sv_modified_time = 0, sv_synced_at = 0, sv_pending_remote_generation = None, sv_source_node = ''a''\<rparr>"
  let ?m = "vm_new ''a'' v"
  let ?ops = "[VmUpsert ''b'' v, VmUpdate ''a'' (v\<lparr>sv_value := 1\<rparr>)]"
  have "vm_wf ?m" by (rule wf_intros)
  moreover have "vm_contains ?m ''a''" by (simp add: vm_contains_def vm_new_def hm_contains_key_def hm_insert_def)
  ultimately have "vm_read_via (vm_inner ?m) (fold vm_apply ?ops ?m) ''a'' = vm_get (fold vm_apply ?ops ?m) ''a''"
    by (rule lock_free_read_current) simp
  also have "\<dots> = Some (v\<lparr>sv_value := 1\<rparr>)"
    by (simp add: vm_new_def vm_get_def vm_upsert_def vm_update_def vm_insert_cell_def vm_store_cell_def
        hm_get_def hm_insert_def)
  finally show ?thesis by (intro exI [of _ v] exI [of _ "v\<lparr>sv_value := 1\<rparr>"]) (simp add: v_def)
qed

end
