(* ===== verification/Shard_Core.thy ===== *)
theory Shard_Core
  imports View_Map
begin

text \<open>
  \<open>dstate/src/core/shard_core.rs\<close>: the state machine of one shard on one node. It owns the local
  \<open>state_object\<close> and the view map of the cluster. Methods that take \<open>&self\<close> change the view map
  through its cells; the model returns the new shard. The clock is the reading the operation sees.
\<close>

record 'v inbound_snapshot =
  is_source :: node_id
  is_generation :: generation
  is_wire_version :: u32
  is_view :: 'v
  is_created_time :: i64
  is_modified_time :: i64

record 'v mutation_outcome =
  mo_generation :: generation
  mo_view :: 'v

record ('v, 'vd) delta_mutation_outcome =
  dmo_generation :: generation
  dmo_view :: 'v
  dmo_view_delta :: 'vd

record ('s, 'v) prepared_mutation =
  pm_base_generation :: generation
  pm_new_state :: "'s state_object"
  pm_view :: 'v

record ('s, 'v, 'vd) prepared_delta_mutation =
  pdm_base_generation :: generation
  pdm_new_state :: "'s state_object"
  pdm_view :: 'v
  pdm_view_delta :: 'vd

datatype accept_result = Accepted | Discarded

datatype delta_accept_result =
    Applied
  | DeltaDiscarded
  | GapDetected generation generation
  | UnknownPeer

datatype 'r query_result = Fresh 'r | StalePeersDetected "node_id list" 'r

text \<open>The panic of \<open>commit_mutation\<close> and \<open>commit_delta_mutation\<close>: both generations of the failed
  \<open>assert_eq!\<close>.\<close>

datatype commit_panic = BaseGenerationMismatch generation generation

record ('s, 'v) shard_core =
  sh_node_id :: node_id
  sh_state :: "'s state_object"
  sh_views :: "'v view_map"

subsection \<open>Construction and accessors\<close>

definition shard_new :: "node_id \<Rightarrow> 's state_object \<Rightarrow> 'v \<Rightarrow> clock_reading \<Rightarrow> ('s, 'v) shard_core" where
  "shard_new node state initial_view clock =
     (let initial_vo = \<lparr>sv_generation = so_generation state,
            sv_wire_version = so_storage_version state, sv_value = initial_view,
            sv_created_time = so_created_time state, sv_modified_time = so_modified_time state,
            sv_synced_at = clk_now clock, sv_pending_remote_generation = None,
            sv_source_node = node\<rparr>
      in \<lparr>sh_node_id = node, sh_state = state, sh_views = vm_new node initial_vo\<rparr>)"

definition state_mut :: "('s state_object \<Rightarrow> 's state_object) \<Rightarrow> ('s, 'v) shard_core \<Rightarrow> ('s, 'v) shard_core" where
  "state_mut f sh = sh\<lparr>sh_state := f (sh_state sh)\<rparr>"

definition get_view :: "('s, 'v) shard_core \<Rightarrow> node_id \<Rightarrow> 'v state_view_object option" where
  "get_view sh node = vm_get (sh_views sh) node"

definition shard_snapshot :: "('s, 'v) shard_core \<Rightarrow> (node_id, 'v state_view_object) hmap" where
  "shard_snapshot sh = vm_snapshot (sh_views sh)"

definition view_count :: "('s, 'v) shard_core \<Rightarrow> nat" where
  "view_count sh = vm_len (sh_views sh)"

definition should_accept :: "generation \<Rightarrow> generation \<Rightarrow> bool" where
  "should_accept incoming local \<longleftrightarrow> incoming > local"

definition age_inc :: "generation \<Rightarrow> generation" where
  "age_inc g = Generation (incarnation g) (age g + 1)"

definition update_own_view :: "clock_reading \<Rightarrow> 'v \<Rightarrow> ('s, 'v) shard_core \<Rightarrow> ('s, 'v) shard_core" where
  "update_own_view clock view sh = sh\<lparr>sh_views := fst (vm_update (sh_views sh) (sh_node_id sh)
     \<lparr>sv_generation = so_generation (sh_state sh),
      sv_wire_version = so_storage_version (sh_state sh), sv_value = view,
      sv_created_time = so_created_time (sh_state sh),
      sv_modified_time = so_modified_time (sh_state sh), sv_synced_at = clk_now clock,
      sv_pending_remote_generation = None, sv_source_node = sh_node_id sh\<rparr>)\<rparr>"

subsection \<open>Mutations\<close>

definition apply_mutation ::
    "clock_reading \<Rightarrow> ('s \<Rightarrow> 's) \<Rightarrow> ('s \<Rightarrow> 'v) \<Rightarrow> ('s, 'v) shard_core \<Rightarrow>
     ('s, 'v) shard_core \<times> 'v mutation_outcome" where
  "apply_mutation clock mutate_fn project_fn sh =
     (let st = sh_state sh;
          st = st\<lparr>so_value := mutate_fn (so_value st)\<rparr>;
          st = st\<lparr>so_generation := age_inc (so_generation st)\<rparr>;
          st = st\<lparr>so_modified_time := clk_unix_ms clock\<rparr>;
          view = project_fn (so_value st);
          sh = update_own_view clock view (sh\<lparr>sh_state := st\<rparr>)
      in (sh, \<lparr>mo_generation = so_generation st, mo_view = view\<rparr>))"

definition apply_mutation_with_delta ::
    "clock_reading \<Rightarrow> ('s \<Rightarrow> 's \<times> 'dc) \<Rightarrow> ('s \<Rightarrow> 'v) \<Rightarrow> ('dc \<Rightarrow> 'vd) \<Rightarrow> ('s, 'v) shard_core \<Rightarrow>
     ('s, 'v) shard_core \<times> ('v, 'vd) delta_mutation_outcome" where
  "apply_mutation_with_delta clock mutate_fn project_view_fn project_delta_fn sh =
     (let st = sh_state sh;
          (new_value, delta_change) = mutate_fn (so_value st);
          st = st\<lparr>so_value := new_value\<rparr>;
          st = st\<lparr>so_generation := age_inc (so_generation st)\<rparr>;
          st = st\<lparr>so_modified_time := clk_unix_ms clock\<rparr>;
          view = project_view_fn (so_value st);
          view_delta = project_delta_fn delta_change;
          sh = update_own_view clock view (sh\<lparr>sh_state := st\<rparr>)
      in (sh, \<lparr>dmo_generation = so_generation st, dmo_view = view, dmo_view_delta = view_delta\<rparr>))"

definition prepare_mutation ::
    "clock_reading \<Rightarrow> ('s \<Rightarrow> 's) \<Rightarrow> ('s \<Rightarrow> 'v) \<Rightarrow> ('s, 'v) shard_core \<Rightarrow> ('s, 'v) prepared_mutation" where
  "prepare_mutation clock mutate_fn project_fn sh =
     (let base_generation = so_generation (sh_state sh);
          new_state = sh_state sh;
          new_state = new_state\<lparr>so_value := mutate_fn (so_value new_state)\<rparr>;
          new_state = new_state\<lparr>so_generation := age_inc (so_generation new_state)\<rparr>;
          new_state = new_state\<lparr>so_modified_time := clk_unix_ms clock\<rparr>;
          view = project_fn (so_value new_state)
      in \<lparr>pm_base_generation = base_generation, pm_new_state = new_state, pm_view = view\<rparr>)"

definition commit_mutation ::
    "clock_reading \<Rightarrow> ('s, 'v) prepared_mutation \<Rightarrow> ('s, 'v) shard_core \<Rightarrow>
     commit_panic + ('s, 'v) shard_core \<times> 'v mutation_outcome" where
  "commit_mutation clock prepared sh =
     (if pm_base_generation prepared \<noteq> so_generation (sh_state sh)
      then Inl (BaseGenerationMismatch (pm_base_generation prepared) (so_generation (sh_state sh)))
      else
        let sh = update_own_view clock (pm_view prepared) (sh\<lparr>sh_state := pm_new_state prepared\<rparr>)
        in Inr (sh, \<lparr>mo_generation = so_generation (sh_state sh), mo_view = pm_view prepared\<rparr>))"

definition prepare_mutation_with_delta ::
    "clock_reading \<Rightarrow> ('s \<Rightarrow> 's \<times> 'dc) \<Rightarrow> ('s \<Rightarrow> 'v) \<Rightarrow> ('dc \<Rightarrow> 'vd) \<Rightarrow> ('s, 'v) shard_core \<Rightarrow>
     ('s, 'v, 'vd) prepared_delta_mutation" where
  "prepare_mutation_with_delta clock mutate_fn project_view_fn project_delta_fn sh =
     (let base_generation = so_generation (sh_state sh);
          new_state = sh_state sh;
          (new_value, delta_change) = mutate_fn (so_value new_state);
          new_state = new_state\<lparr>so_value := new_value\<rparr>;
          new_state = new_state\<lparr>so_generation := age_inc (so_generation new_state)\<rparr>;
          new_state = new_state\<lparr>so_modified_time := clk_unix_ms clock\<rparr>;
          view = project_view_fn (so_value new_state);
          view_delta = project_delta_fn delta_change
      in \<lparr>pdm_base_generation = base_generation, pdm_new_state = new_state, pdm_view = view,
          pdm_view_delta = view_delta\<rparr>)"

definition commit_delta_mutation ::
    "clock_reading \<Rightarrow> ('s, 'v, 'vd) prepared_delta_mutation \<Rightarrow> ('s, 'v) shard_core \<Rightarrow>
     commit_panic + ('s, 'v) shard_core \<times> ('v, 'vd) delta_mutation_outcome" where
  "commit_delta_mutation clock prepared sh =
     (if pdm_base_generation prepared \<noteq> so_generation (sh_state sh)
      then Inl (BaseGenerationMismatch (pdm_base_generation prepared) (so_generation (sh_state sh)))
      else
        let sh = update_own_view clock (pdm_view prepared) (sh\<lparr>sh_state := pdm_new_state prepared\<rparr>)
        in Inr (sh, \<lparr>dmo_generation = so_generation (sh_state sh), dmo_view = pdm_view prepared,
                    dmo_view_delta = pdm_view_delta prepared\<rparr>))"

subsection \<open>Inbound snapshots and deltas\<close>

text \<open>\<open>Option::filter\<close> of the standard library.\<close>

definition option_filter :: "('a \<Rightarrow> bool) \<Rightarrow> 'a option \<Rightarrow> 'a option" where
  "option_filter p x = (case x of Some a \<Rightarrow> if p a then Some a else None | None \<Rightarrow> None)"

definition snapshot_update ::
    "clock_reading \<Rightarrow> 'v inbound_snapshot \<Rightarrow> 'v state_view_object option \<Rightarrow>
     'v state_view_object option" where
  "snapshot_update clock snap existing =
     (let accept = (case existing of
                      Some e \<Rightarrow> should_accept (is_generation snap) (sv_generation e)
                    | None \<Rightarrow> True)
      in if \<not> accept then None
         else
           let pending = option_filter (\<lambda>p. is_generation snap < p)
                 (case existing of Some e \<Rightarrow> sv_pending_remote_generation e | None \<Rightarrow> None)
           in Some \<lparr>sv_generation = is_generation snap, sv_wire_version = is_wire_version snap,
                    sv_value = is_view snap, sv_created_time = is_created_time snap,
                    sv_modified_time = is_modified_time snap, sv_synced_at = clk_now clock,
                    sv_pending_remote_generation = pending, sv_source_node = is_source snap\<rparr>)"

definition accept_inbound_snapshot ::
    "clock_reading \<Rightarrow> 'v inbound_snapshot \<Rightarrow> ('s, 'v) shard_core \<Rightarrow>
     ('s, 'v) shard_core \<times> accept_result" where
  "accept_inbound_snapshot clock snap sh =
     (let (views, accepted) = vm_update_if (sh_views sh) (is_source snap) (snapshot_update clock snap)
      in (sh\<lparr>sh_views := views\<rparr>, if accepted then Accepted else Discarded))"

definition accept_inbound_delta ::
    "clock_reading \<Rightarrow> node_id \<Rightarrow> generation \<Rightarrow> u32 \<Rightarrow> ('v \<Rightarrow> 'v) \<Rightarrow> ('s, 'v) shard_core \<Rightarrow>
     ('s, 'v) shard_core \<times> delta_accept_result" where
  "accept_inbound_delta clock source gen wire_version apply_fn sh =
     (case vm_get (sh_views sh) source of
        None \<Rightarrow> (sh, UnknownPeer)
      | Some existing \<Rightarrow>
          if incarnation gen < incarnation (sv_generation existing) then (sh, DeltaDiscarded)
          else if incarnation gen > incarnation (sv_generation existing)
          then (sh, GapDetected (sv_generation existing) gen)
          else if age gen \<noteq> age (sv_generation existing) + 1
          then (if age gen \<le> age (sv_generation existing) then (sh, DeltaDiscarded)
                else (sh, GapDetected (sv_generation existing) gen))
          else
            let new_view = apply_fn (sv_value existing);
                pending = option_filter (\<lambda>p. gen < p) (sv_pending_remote_generation existing)
            in (sh\<lparr>sh_views := fst (vm_update (sh_views sh) source
                  \<lparr>sv_generation = gen, sv_wire_version = wire_version, sv_value = new_view,
                   sv_created_time = sv_created_time existing,
                   sv_modified_time = clk_unix_ms clock, sv_synced_at = clk_now clock,
                   sv_pending_remote_generation = pending, sv_source_node = source\<rparr>)\<rparr>, Applied))"

subsection \<open>Staleness and cluster events\<close>

definition shard_stale_peers :: "('s, 'v) shard_core \<Rightarrow> duration \<Rightarrow> clock_reading \<Rightarrow> node_id list" where
  "shard_stale_peers sh max_staleness clock =
     vm_stale_peers (sh_views sh) (sh_node_id sh) max_staleness clock"

definition stale_update ::
    "generation \<Rightarrow> 'v state_view_object option \<Rightarrow> 'v state_view_object option" where
  "stale_update incoming existing =
     (case existing of
        None \<Rightarrow> None
      | Some e \<Rightarrow> if incoming \<le> sv_generation e then None
                  else Some (e\<lparr>sv_pending_remote_generation := Some incoming\<rparr>))"

definition mark_stale :: "node_id \<Rightarrow> u64 \<Rightarrow> u64 \<Rightarrow> ('s, 'v) shard_core \<Rightarrow> ('s, 'v) shard_core" where
  "mark_stale source inc a sh =
     sh\<lparr>sh_views := fst (vm_update_if (sh_views sh) source (stale_update (generation_new inc a)))\<rparr>"

definition shard_on_node_joined ::
    "clock_reading \<Rightarrow> node_id \<Rightarrow> 'v \<Rightarrow> ('s, 'v) shard_core \<Rightarrow> ('s, 'v) shard_core" where
  "shard_on_node_joined clock node default_view sh =
     (if node = sh_node_id sh then sh
      else sh\<lparr>sh_views := fst (vm_insert_node (sh_views sh) node
             \<lparr>sv_generation = generation_zero, sv_wire_version = 0, sv_value = default_view,
              sv_created_time = 0, sv_modified_time = 0, sv_synced_at = clk_now clock,
              sv_pending_remote_generation = Some (generation_new 1 0),
              sv_source_node = node\<rparr>)\<rparr>)"

definition shard_on_node_left :: "node_id \<Rightarrow> ('s, 'v) shard_core \<Rightarrow> ('s, 'v) shard_core" where
  "shard_on_node_left node sh =
     (if node = sh_node_id sh then sh
      else sh\<lparr>sh_views := fst (vm_remove_node (sh_views sh) node)\<rparr>)"

definition query_local ::
    "('s, 'v) shard_core \<Rightarrow> duration \<Rightarrow> clock_reading \<Rightarrow>
     ((node_id, 'v state_view_object) hmap \<Rightarrow> 'r) \<Rightarrow> 'r query_result" where
  "query_local sh max_staleness clock project =
     (let snapshot = vm_snapshot (sh_views sh);
          stale = map fst (filter (\<lambda>(k, view). view_is_stale (clk_now clock) max_staleness view)
                    (filter (\<lambda>(k, view). k \<noteq> sh_node_id sh) snapshot));
          result = project snapshot
      in if stale = [] then Fresh result else StalePeersDetected stale result)"

definition new_state_object :: "'s \<Rightarrow> u64 \<Rightarrow> clock_reading \<Rightarrow> 's state_object" where
  "new_state_object v inc clock =
     \<lparr>so_generation = generation_new inc 0, so_storage_version = 0, so_value = v,
      so_created_time = clk_unix_ms clock, so_modified_time = clk_unix_ms clock\<rparr>"

subsection \<open>Invariant\<close>

text \<open>
  Every entry is filed under the node it came from and a pending announcement is strictly ahead of
  the view it announces; the local node always has an entry. \<open>own_mirrors\<close> says that the local
  entry shows the local state.
\<close>

definition view_ok :: "node_id \<Rightarrow> 'v state_view_object \<Rightarrow> bool" where
  "view_ok n v \<longleftrightarrow> sv_source_node v = n \<and>
     (\<forall>p. sv_pending_remote_generation v = Some p \<longrightarrow> sv_generation v < p)"

definition shard_wf :: "('s, 'v) shard_core \<Rightarrow> bool" where
  "shard_wf sh \<longleftrightarrow> vm_wf (sh_views sh) \<and> get_view sh (sh_node_id sh) \<noteq> None \<and>
     (\<forall>n v. get_view sh n = Some v \<longrightarrow> view_ok n v)"

definition own_mirrors :: "('s \<Rightarrow> 'v) \<Rightarrow> ('s, 'v) shard_core \<Rightarrow> bool" where
  "own_mirrors project sh \<longleftrightarrow>
     (\<exists>v. get_view sh (sh_node_id sh) = Some v \<and> sv_generation v = so_generation (sh_state sh) \<and>
        sv_value v = project (so_value (sh_state sh)))"

lemma shard_wf_vm [simp]: "shard_wf sh \<Longrightarrow> vm_wf (sh_views sh)"
  by (simp add: shard_wf_def)

lemma shard_wf_own: "shard_wf sh \<Longrightarrow> \<exists>v. get_view sh (sh_node_id sh) = Some v"
  by (auto simp: shard_wf_def)

lemma shard_wf_own_vm: "shard_wf sh \<Longrightarrow> vm_get (sh_views sh) (sh_node_id sh) \<noteq> None"
  by (simp add: shard_wf_def get_view_def)

lemma shard_wf_view_ok: "shard_wf sh \<Longrightarrow> get_view sh n = Some v \<Longrightarrow> view_ok n v"
  by (simp add: shard_wf_def)

lemma shard_wfI:
  "vm_wf (sh_views sh) \<Longrightarrow> get_view sh (sh_node_id sh) \<noteq> None \<Longrightarrow>
     (\<And>n v. get_view sh n = Some v \<Longrightarrow> view_ok n v) \<Longrightarrow> shard_wf sh"
  by (simp add: shard_wf_def)

subsection \<open>What each operation does to the views\<close>

lemma get_view_new [lookup_simps]:
  "get_view (shard_new n st v c) = [n \<mapsto> \<lparr>sv_generation = so_generation st,
     sv_wire_version = so_storage_version st, sv_value = v, sv_created_time = so_created_time st,
     sv_modified_time = so_modified_time st, sv_synced_at = clk_now c,
     sv_pending_remote_generation = None, sv_source_node = n\<rparr>]"
  by (rule ext) (simp add: get_view_def shard_new_def Let_def lookup_simps)

lemma update_own_view_frame [frame_simps]:
  "sh_node_id (update_own_view c v sh) = sh_node_id sh"
  "sh_state (update_own_view c v sh) = sh_state sh"
  by (simp_all add: update_own_view_def)

lemma get_view_update_own [lookup_simps]:
  "vm_wf (sh_views sh) \<Longrightarrow> vm_get (sh_views sh) (sh_node_id sh) \<noteq> None \<Longrightarrow>
   get_view (update_own_view c v sh) = (get_view sh)(sh_node_id sh \<mapsto>
     \<lparr>sv_generation = so_generation (sh_state sh),
      sv_wire_version = so_storage_version (sh_state sh), sv_value = v,
      sv_created_time = so_created_time (sh_state sh),
      sv_modified_time = so_modified_time (sh_state sh), sv_synced_at = clk_now c,
      sv_pending_remote_generation = None, sv_source_node = sh_node_id sh\<rparr>)"
  by (rule ext) (auto simp: get_view_def update_own_view_def lookup_simps)

lemma get_view_state_upd [simp]: "get_view (sh\<lparr>sh_state := st\<rparr>) = get_view sh"
  by (rule ext) (simp add: get_view_def)

lemma update_own_view_wf [wf_intros]:
  assumes "shard_wf sh" shows "shard_wf (update_own_view c v (sh\<lparr>sh_state := st\<rparr>))"
proof (rule shard_wfI)
  show "vm_wf (sh_views (update_own_view c v (sh\<lparr>sh_state := st\<rparr>)))"
    using assms by (simp add: update_own_view_def wf_intros)
qed (use assms in \<open>auto simp: lookup_simps frame_simps shard_wf_own_vm view_ok_def
    dest: shard_wf_view_ok split: if_splits\<close>)

lemma update_own_view_mirrors:
  "shard_wf sh \<Longrightarrow> v = project (so_value st) \<Longrightarrow>
   own_mirrors project (update_own_view c v (sh\<lparr>sh_state := st\<rparr>))"
  by (simp add: own_mirrors_def frame_simps lookup_simps shard_wf_own_vm)

lemma get_view_accept_snapshot [lookup_simps]:
  "vm_wf (sh_views sh) \<Longrightarrow> get_view (fst (accept_inbound_snapshot c snap sh)) =
     (case snapshot_update c snap (get_view sh (is_source snap)) of
        None \<Rightarrow> get_view sh | Some v \<Rightarrow> (get_view sh)(is_source snap \<mapsto> v))"
  by (rule ext) (simp add: get_view_def accept_inbound_snapshot_def case_prod_unfold Let_def lookup_simps
      split: option.splits)

lemma accept_snapshot_frame [frame_simps]:
  "sh_node_id (fst (accept_inbound_snapshot c snap sh)) = sh_node_id sh"
  "sh_state (fst (accept_inbound_snapshot c snap sh)) = sh_state sh"
  by (simp_all add: accept_inbound_snapshot_def case_prod_unfold Let_def)

lemma accept_snapshot_result:
  "snd (accept_inbound_snapshot c snap sh) =
     (if snapshot_update c snap (get_view sh (is_source snap)) = None then Discarded else Accepted)"
  by (simp add: accept_inbound_snapshot_def case_prod_unfold Let_def lookup_simps get_view_def)

lemma snapshot_update_None_iff:
  "snapshot_update c snap e = None \<longleftrightarrow> (\<exists>v. e = Some v \<and> is_generation snap \<le> sv_generation v)"
  by (auto simp: snapshot_update_def should_accept_def Let_def split: option.splits)

lemma snapshot_update_SomeD:
  "snapshot_update c snap e = Some w \<Longrightarrow>
     sv_generation w = is_generation snap \<and> sv_value w = is_view snap \<and>
     sv_wire_version w = is_wire_version snap \<and> sv_synced_at w = clk_now c \<and>
     view_ok (is_source snap) w \<and> (\<forall>v. e = Some v \<longrightarrow> sv_generation v < is_generation snap)"
  by (auto simp: snapshot_update_def should_accept_def Let_def view_ok_def option_filter_def
      split: option.splits if_splits)

lemma accept_snapshot_wf [wf_intros]:
  assumes "shard_wf sh" shows "shard_wf (fst (accept_inbound_snapshot c snap sh))"
proof (rule shard_wfI)
  show "vm_wf (sh_views (fst (accept_inbound_snapshot c snap sh)))"
    using assms by (simp add: accept_inbound_snapshot_def case_prod_unfold Let_def wf_intros)
qed (use assms in \<open>auto simp: lookup_simps frame_simps shard_wf_own_vm [unfolded get_view_def [symmetric]]
    shard_wf_own dest: snapshot_update_SomeD shard_wf_view_ok split: if_splits option.splits\<close>)

lemma accept_snapshot_le:
  "shard_wf sh \<Longrightarrow> views_le (get_view sh) (get_view (fst (accept_inbound_snapshot c snap sh)))"
  by (auto simp: lookup_simps split: option.splits intro!: views_le_upd less_imp_le
      dest: snapshot_update_SomeD)

lemma accept_delta_cases:
  obtains (applied) e where "get_view sh source = Some e"
      "incarnation gen = incarnation (sv_generation e)" "age gen = age (sv_generation e) + 1"
      "snd (accept_inbound_delta c source gen wv f sh) = Applied"
  | (rejected) "fst (accept_inbound_delta c source gen wv f sh) = sh"
      "snd (accept_inbound_delta c source gen wv f sh) \<noteq> Applied"
proof (cases "get_view sh source")
  case None
  then show ?thesis by (intro rejected) (simp_all add: accept_inbound_delta_def get_view_def)
next
  case (Some e)
  show ?thesis
  proof (cases "incarnation gen = incarnation (sv_generation e) \<and> age gen = age (sv_generation e) + 1")
    case True
    with Some show ?thesis
      by (intro applied) (simp_all add: accept_inbound_delta_def get_view_def Let_def)
  next
    case False
    with Some show ?thesis
      by (intro rejected) (auto simp: accept_inbound_delta_def get_view_def)
  qed
qed

lemma get_view_accept_delta_applied:
  assumes "vm_wf (sh_views sh)" and "get_view sh source = Some e"
    and "incarnation gen = incarnation (sv_generation e)" "age gen = age (sv_generation e) + 1"
  shows "get_view (fst (accept_inbound_delta c source gen wv f sh)) = (get_view sh)(source \<mapsto>
    \<lparr>sv_generation = gen, sv_wire_version = wv, sv_value = f (sv_value e),
     sv_created_time = sv_created_time e, sv_modified_time = clk_unix_ms c, sv_synced_at = clk_now c,
     sv_pending_remote_generation = option_filter (\<lambda>p. gen < p) (sv_pending_remote_generation e),
     sv_source_node = source\<rparr>)"
  using assms by (intro ext) (auto simp: accept_inbound_delta_def get_view_def Let_def lookup_simps)

lemma accept_delta_frame [frame_simps]:
  "sh_node_id (fst (accept_inbound_delta c source gen wv f sh)) = sh_node_id sh"
  "sh_state (fst (accept_inbound_delta c source gen wv f sh)) = sh_state sh"
  by (auto simp: accept_inbound_delta_def Let_def split: option.splits)

lemma accept_delta_vm_wf: "vm_wf (sh_views sh) \<Longrightarrow> vm_wf (sh_views (fst (accept_inbound_delta c source gen wv f sh)))"
  by (auto simp: accept_inbound_delta_def Let_def wf_intros split: option.splits)

lemma accept_delta_wf [wf_intros]:
  assumes "shard_wf sh" shows "shard_wf (fst (accept_inbound_delta c source gen wv f sh))"
proof (cases rule: accept_delta_cases [of sh source gen c wv f])
  case (applied e)
  show ?thesis
    by (rule shard_wfI)
      (use assms applied in \<open>auto simp: get_view_accept_delta_applied frame_simps accept_delta_vm_wf
        view_ok_def option_filter_def shard_wf_own_vm [unfolded get_view_def [symmetric]] shard_wf_own
        dest: shard_wf_view_ok split: if_splits option.splits\<close>)
qed (use assms in simp)

lemma get_view_mark_stale [lookup_simps]:
  "vm_wf (sh_views sh) \<Longrightarrow> get_view (mark_stale source i a sh) =
     (case stale_update (Generation i a) (get_view sh source) of
        None \<Rightarrow> get_view sh | Some v \<Rightarrow> (get_view sh)(source \<mapsto> v))"
  by (rule ext) (simp add: get_view_def mark_stale_def lookup_simps generation_new_def
      split: option.splits)

lemma mark_stale_frame [frame_simps]:
  "sh_node_id (mark_stale source i a sh) = sh_node_id sh"
  "sh_state (mark_stale source i a sh) = sh_state sh"
  by (simp_all add: mark_stale_def)

lemma stale_update_SomeD:
  "stale_update g e = Some w \<Longrightarrow> \<exists>v. e = Some v \<and> sv_generation v < g \<and>
     w = v\<lparr>sv_pending_remote_generation := Some g\<rparr>"
  by (auto simp: stale_update_def split: option.splits if_splits)

lemma mark_stale_wf [wf_intros]:
  assumes "shard_wf sh" shows "shard_wf (mark_stale source i a sh)"
proof (rule shard_wfI)
  show "vm_wf (sh_views (mark_stale source i a sh))"
    using assms by (simp add: mark_stale_def wf_intros)
qed (use assms in \<open>auto simp: lookup_simps frame_simps shard_wf_own_vm [unfolded get_view_def [symmetric]]
    view_ok_def shard_wf_own dest!: stale_update_SomeD dest: shard_wf_view_ok
    split: if_splits option.splits\<close>)

lemma get_view_joined [lookup_simps]:
  "vm_wf (sh_views sh) \<Longrightarrow> get_view (shard_on_node_joined c n dv sh) =
     (if n = sh_node_id sh \<or> get_view sh n \<noteq> None then get_view sh
      else (get_view sh)(n \<mapsto> \<lparr>sv_generation = Generation 0 0, sv_wire_version = 0, sv_value = dv,
        sv_created_time = 0, sv_modified_time = 0, sv_synced_at = clk_now c,
        sv_pending_remote_generation = Some (Generation 1 0), sv_source_node = n\<rparr>))"
  by (rule ext) (simp add: get_view_def shard_on_node_joined_def lookup_simps generation_new_def
      generation_zero_def)

lemma joined_frame [frame_simps]:
  "sh_node_id (shard_on_node_joined c n dv sh) = sh_node_id sh"
  "sh_state (shard_on_node_joined c n dv sh) = sh_state sh"
  by (simp_all add: shard_on_node_joined_def)

lemma joined_wf [wf_intros]:
  assumes "shard_wf sh" shows "shard_wf (shard_on_node_joined c n dv sh)"
proof (rule shard_wfI)
  show "vm_wf (sh_views (shard_on_node_joined c n dv sh))"
    using assms by (simp add: shard_on_node_joined_def wf_intros)
qed (use assms in \<open>auto simp: lookup_simps frame_simps shard_wf_own_vm [unfolded get_view_def [symmetric]]
    view_ok_def shard_wf_own generation_less_iff dest: shard_wf_view_ok split: if_splits\<close>)

lemma get_view_left [lookup_simps]:
  "vm_wf (sh_views sh) \<Longrightarrow> get_view (shard_on_node_left n sh) =
     (if n = sh_node_id sh then get_view sh else (get_view sh)(n := None))"
  by (rule ext) (simp add: get_view_def shard_on_node_left_def lookup_simps)

lemma left_frame [frame_simps]:
  "sh_node_id (shard_on_node_left n sh) = sh_node_id sh"
  "sh_state (shard_on_node_left n sh) = sh_state sh"
  by (simp_all add: shard_on_node_left_def)

lemma left_wf [wf_intros]:
  assumes "shard_wf sh" shows "shard_wf (shard_on_node_left n sh)"
proof (rule shard_wfI)
  show "vm_wf (sh_views (shard_on_node_left n sh))"
    using assms by (simp add: shard_on_node_left_def wf_intros)
qed (use assms in \<open>auto simp: lookup_simps frame_simps shard_wf_own_vm [unfolded get_view_def [symmetric]]
    shard_wf_own dest: shard_wf_view_ok split: if_splits\<close>)

lemma shard_new_wf [wf_intros]: "shard_wf (shard_new n st v c)"
  by (rule shard_wfI) (auto simp: lookup_simps view_ok_def split: if_splits,
      auto simp: shard_new_def Let_def intro: wf_intros)

lemma shard_new_mirrors: "own_mirrors project (shard_new n st (project (so_value st)) c)"
  by (simp add: own_mirrors_def lookup_simps) (simp add: shard_new_def Let_def lookup_simps)

subsection \<open>Mutations\<close>

text \<open>The state a mutation ends in, shared by the direct and the two-phase path.\<close>

definition mutated_state :: "clock_reading \<Rightarrow> ('s \<Rightarrow> 's) \<Rightarrow> 's state_object \<Rightarrow> 's state_object" where
  "mutated_state c f st = st\<lparr>so_value := f (so_value st), so_generation := age_inc (so_generation st),
     so_modified_time := clk_unix_ms c\<rparr>"

lemma apply_mutation_eq:
  "apply_mutation c f p sh =
     (let st = mutated_state c f (sh_state sh)
      in (update_own_view c (p (so_value st)) (sh\<lparr>sh_state := st\<rparr>),
          \<lparr>mo_generation = so_generation st, mo_view = p (so_value st)\<rparr>))"
  by (simp add: apply_mutation_def mutated_state_def Let_def)

lemma apply_mutation_with_delta_eq:
  "apply_mutation_with_delta c f pv pd sh =
     (let st = mutated_state c (\<lambda>s. fst (f s)) (sh_state sh)
      in (update_own_view c (pv (so_value st)) (sh\<lparr>sh_state := st\<rparr>),
          \<lparr>dmo_generation = so_generation st, dmo_view = pv (so_value st),
           dmo_view_delta = pd (snd (f (so_value (sh_state sh))))\<rparr>))"
  by (simp add: apply_mutation_with_delta_def mutated_state_def Let_def case_prod_unfold)

lemma apply_mutation_wf [wf_intros]: "shard_wf sh \<Longrightarrow> shard_wf (fst (apply_mutation c f p sh))"
  by (simp add: apply_mutation_eq Let_def wf_intros)

lemma apply_mutation_with_delta_wf [wf_intros]:
  "shard_wf sh \<Longrightarrow> shard_wf (fst (apply_mutation_with_delta c f pv pd sh))"
  by (simp add: apply_mutation_with_delta_eq Let_def wf_intros)

lemma apply_mutation_frame [frame_simps]:
  "sh_node_id (fst (apply_mutation c f p sh)) = sh_node_id sh"
  "sh_state (fst (apply_mutation c f p sh)) = mutated_state c f (sh_state sh)"
  "sh_node_id (fst (apply_mutation_with_delta c g pv pd sh)) = sh_node_id sh"
  "sh_state (fst (apply_mutation_with_delta c g pv pd sh)) = mutated_state c (\<lambda>s. fst (g s)) (sh_state sh)"
  by (simp_all add: apply_mutation_eq apply_mutation_with_delta_eq Let_def frame_simps)

lemma mutated_state_sel [simp]:
  "so_generation (mutated_state c f st) = age_inc (so_generation st)"
  "so_value (mutated_state c f st) = f (so_value st)"
  "so_modified_time (mutated_state c f st) = clk_unix_ms c"
  "so_created_time (mutated_state c f st) = so_created_time st"
  "so_storage_version (mutated_state c f st) = so_storage_version st"
  by (simp_all add: mutated_state_def)

lemma age_inc_less: "age g \<noteq> - 1 \<Longrightarrow> g < age_inc g"
  by (simp add: age_inc_def generation_less_iff word_less_inc)

subsection \<open>Snapshots in any order\<close>

definition accept_one :: "clock_reading \<times> 'v inbound_snapshot \<Rightarrow> ('s, 'v) shard_core \<Rightarrow> ('s, 'v) shard_core" where
  "accept_one d sh = fst (accept_inbound_snapshot (fst d) (snd d) sh)"

definition generation_of :: "('s, 'v) shard_core \<Rightarrow> node_id \<Rightarrow> generation option" where
  "generation_of sh n = map_option sv_generation (get_view sh n)"

lemma accept_one_generation:
  assumes "shard_wf sh"
  shows "generation_of (accept_one d sh) = (generation_of sh)(is_source (snd d) \<mapsto>
    (case generation_of sh (is_source (snd d)) of None \<Rightarrow> is_generation (snd d)
     | Some g \<Rightarrow> max g (is_generation (snd d))))"
proof -
  let ?e = "get_view sh (is_source (snd d))"
  show ?thesis
  proof (cases "snapshot_update (fst d) (snd d) ?e")
    case None
    then obtain v where "?e = Some v" "is_generation (snd d) \<le> sv_generation v"
      by (auto simp: snapshot_update_None_iff)
    with None assms show ?thesis
      by (auto simp: accept_one_def generation_of_def lookup_simps max_absorb1 fun_eq_iff)
  next
    case (Some w)
    with snapshot_update_SomeD [OF Some] assms show ?thesis
      by (cases ?e) (auto simp: accept_one_def generation_of_def lookup_simps fun_eq_iff
          max_absorb2 less_imp_le)
  qed
qed

interpretation snap: max_register "\<lambda>d. is_source (snd d)" "\<lambda>d. is_generation (snd d)"
    generation_of accept_one shard_wf
  by unfold_locales (simp_all add: accept_one_generation, simp add: accept_one_def wf_intros)

text \<open>A view carries the value its owner published at that generation.\<close>

definition faithful :: "(node_id \<Rightarrow> generation \<Rightarrow> 'v) \<Rightarrow> ('s, 'v) shard_core \<Rightarrow> bool" where
  "faithful content sh \<longleftrightarrow>
     (\<forall>n v. get_view sh n = Some v \<longrightarrow> sv_value v = content n (sv_generation v))"

lemma accept_one_faithful:
  "shard_wf sh \<Longrightarrow> faithful content sh \<Longrightarrow>
   is_view (snd d) = content (is_source (snd d)) (is_generation (snd d)) \<Longrightarrow>
   faithful content (accept_one d sh)"
  by (auto simp: faithful_def accept_one_def lookup_simps dest: snapshot_update_SomeD
      split: option.splits if_splits)

lemma accept_run_faithful:
  "shard_wf sh \<Longrightarrow> faithful content sh \<Longrightarrow>
   \<forall>d \<in> set ds. is_view (snd d) = content (is_source (snd d)) (is_generation (snd d)) \<Longrightarrow>
   faithful content (fold accept_one ds sh)"
  by (induction ds arbitrary: sh) (auto simp: accept_one_faithful snap.invar_bump)

lemma faithful_value:
  "faithful content sh \<Longrightarrow> map_option (\<lambda>v. (sv_generation v, sv_value v)) (get_view sh n) =
     map_option (\<lambda>g. (g, content n g)) (generation_of sh n)"
  by (cases "get_view sh n") (auto simp: faithful_def generation_of_def)

text \<open>
  C10: snapshots converge. Two replicas that agree on the generations they hold receive the same set
  of snapshots, in any order, with any duplicates and at any times. If every snapshot carries what
  its owner published at that generation, both replicas end with the same generation and the same
  value for every node.
\<close>

theorem snapshots_converge:
  fixes sh sh' :: "('s, 'v) shard_core"
  assumes "shard_wf sh" "shard_wf sh'" "faithful content sh" "faithful content sh'"
    and "generation_of sh = generation_of sh'"
    and "\<forall>d \<in> set ds \<union> set ds'.
      is_view (snd d) = content (is_source (snd d)) (is_generation (snd d))"
    and "snd ` set ds = snd ` set ds'"
  shows "map_option (\<lambda>v. (sv_generation v, sv_value v)) (get_view (fold accept_one ds sh) n) =
    map_option (\<lambda>v. (sv_generation v, sv_value v)) (get_view (fold accept_one ds' sh') n)"
proof -
  have "(\<lambda>d. (is_source (snd d), is_generation (snd d))) ` set ds =
      (\<lambda>d. (is_source (snd d), is_generation (snd d))) ` set ds'"
    using arg_cong [OF assms(7), of "image (\<lambda>s. (is_source s, is_generation s))"]
    by (simp add: image_image)
  then have "generation_of (fold accept_one ds sh) n = generation_of (fold accept_one ds' sh') n"
    using assms(1,2,5) by (intro snap.run_order_irrelevant) auto
  moreover have "faithful content (fold accept_one ds sh)" "faithful content (fold accept_one ds' sh')"
    using assms by (auto intro: accept_run_faithful)
  ultimately show ?thesis by (simp add: faithful_value)
qed

definition demo_clock :: clock_reading where
  "demo_clock = \<lparr>clk_now = 0, clk_unix_ms = 1000\<rparr>"

definition demo_shard :: "(nat, nat) shard_core" where
  "demo_shard = shard_new ''a'' (new_state_object 0 1 demo_clock) 0 demo_clock"

definition demo_snap :: "u64 \<Rightarrow> clock_reading \<times> nat inbound_snapshot" where
  "demo_snap k = (demo_clock, \<lparr>is_source = ''b'', is_generation = Generation 5 k, is_wire_version = 1,
     is_view = unat k, is_created_time = 0, is_modified_time = 0\<rparr>)"

lemmas demo_defs = demo_clock_def demo_shard_def demo_snap_def

lemma demo_shard_wf: "shard_wf demo_shard"
  by (simp add: demo_shard_def wf_intros)

lemma demo_shard_faithful: "faithful (\<lambda>n g. unat (age g)) demo_shard"
  by (auto simp: faithful_def demo_defs lookup_simps new_state_object_def generation_new_def
      split: if_splits)

theorem snapshots_converge_witness:
  "map_option (\<lambda>v. (sv_generation v, sv_value v))
     (get_view (fold accept_one [demo_snap 1, demo_snap 2] demo_shard) ''b'') =
   map_option (\<lambda>v. (sv_generation v, sv_value v))
     (get_view (fold accept_one [demo_snap 2, demo_snap 1, demo_snap 2] demo_shard) ''b'')"
  by (rule snapshots_converge [where content = "\<lambda>n g. unat (age g)"])
    (auto simp: demo_shard_wf demo_shard_faithful demo_snap_def)

subsection \<open>Properties of the mutation path\<close>

text \<open>
  A mutation publishes atomically. After \<open>apply_mutation\<close> the local entry of the view map shows
  the mutated state projected by the caller, at the new generation that the outcome reports; the
  generation is strictly newer unless the 64-bit age counter wraps; every other entry is untouched.
\<close>

theorem apply_mutation_publishes:
  assumes "shard_wf sh" and "apply_mutation c f p sh = (sh', out)"
  shows "own_mirrors p sh' \<and> sh_state sh' = mutated_state c f (sh_state sh) \<and>
    mo_generation out = so_generation (sh_state sh') \<and>
    mo_view out = p (f (so_value (sh_state sh))) \<and>
    (age (so_generation (sh_state sh)) = - 1 \<or> so_generation (sh_state sh) < mo_generation out) \<and>
    (n = sh_node_id sh \<or> get_view sh' n = get_view sh n)"
proof -
  let ?st = "mutated_state c f (sh_state sh)"
  have sh': "sh' = update_own_view c (p (so_value ?st)) (sh\<lparr>sh_state := ?st\<rparr>)"
    and out: "out = \<lparr>mo_generation = so_generation ?st, mo_view = p (so_value ?st)\<rparr>"
    using assms(2) by (simp_all add: apply_mutation_eq Let_def)
  have "own_mirrors p sh'"
    unfolding sh' by (rule update_own_view_mirrors) (simp_all add: assms(1))
  moreover have "n = sh_node_id sh \<or> get_view sh' n = get_view sh n"
    using assms(1) by (simp add: sh' lookup_simps shard_wf_own_vm)
  moreover have "age (so_generation (sh_state sh)) = - 1 \<or> so_generation (sh_state sh) < mo_generation out"
    using age_inc_less by (auto simp: out)
  ultimately show ?thesis by (simp add: sh' out frame_simps)
qed

theorem apply_mutation_publishes_witness:
  "own_mirrors id (fst (apply_mutation demo_clock Suc id demo_shard)) \<and>
   sh_state (fst (apply_mutation demo_clock Suc id demo_shard)) =
     mutated_state demo_clock Suc (sh_state demo_shard)"
  using apply_mutation_publishes [OF demo_shard_wf surjective_pairing [of "apply_mutation demo_clock Suc id demo_shard"]]
  by simp

lemma commit_prepare:
  "commit_mutation c (prepare_mutation c f p sh) sh = Inr (apply_mutation c f p sh)"
  by (simp add: commit_mutation_def prepare_mutation_def apply_mutation_def Let_def frame_simps)

text \<open>
  What may happen to a shard while a prepared mutation is being saved: everything that comes from its peers.
\<close>

datatype 'v peer_event =
    PeerSnapshot clock_reading "'v inbound_snapshot"
  | PeerDelta clock_reading node_id generation u32 "'v \<Rightarrow> 'v"
  | PeerStale node_id u64 u64
  | PeerJoined clock_reading node_id 'v
  | PeerLeft node_id

fun peer_of :: "'v peer_event \<Rightarrow> node_id" where
  "peer_of (PeerSnapshot c snap) = is_source snap"
| "peer_of (PeerDelta c source gen wv f) = source"
| "peer_of (PeerStale source i a) = source"
| "peer_of (PeerJoined c n dv) = n"
| "peer_of (PeerLeft n) = n"

fun peer_apply :: "'v peer_event \<Rightarrow> ('s, 'v) shard_core \<Rightarrow> ('s, 'v) shard_core" where
  "peer_apply (PeerSnapshot c snap) sh = fst (accept_inbound_snapshot c snap sh)"
| "peer_apply (PeerDelta c source gen wv f) sh = fst (accept_inbound_delta c source gen wv f sh)"
| "peer_apply (PeerStale source i a) sh = mark_stale source i a sh"
| "peer_apply (PeerJoined c n dv) sh = shard_on_node_joined c n dv sh"
| "peer_apply (PeerLeft n) sh = shard_on_node_left n sh"

lemma peer_apply_frame [frame_simps]:
  "sh_node_id (peer_apply ev sh) = sh_node_id sh" "sh_state (peer_apply ev sh) = sh_state sh"
  by (cases ev; simp add: frame_simps)+

lemma peer_apply_wf [wf_intros]: "shard_wf sh \<Longrightarrow> shard_wf (peer_apply ev sh)"
  by (cases ev) (simp_all add: wf_intros)

lemma get_view_accept_delta:
  assumes "vm_wf (sh_views sh)"
  shows "get_view (fst (accept_inbound_delta c source gen wv f sh)) = (case get_view sh source of
      None \<Rightarrow> get_view sh
    | Some e \<Rightarrow> if incarnation gen = incarnation (sv_generation e) \<and> age gen = age (sv_generation e) + 1
        then (get_view sh)(source \<mapsto> \<lparr>sv_generation = gen, sv_wire_version = wv, sv_value = f (sv_value e),
          sv_created_time = sv_created_time e, sv_modified_time = clk_unix_ms c, sv_synced_at = clk_now c,
          sv_pending_remote_generation = option_filter (\<lambda>p. gen < p) (sv_pending_remote_generation e),
          sv_source_node = source\<rparr>)
        else get_view sh)"
proof (cases rule: accept_delta_cases [of sh source gen c wv f])
  case (applied e)
  then show ?thesis using assms by (simp add: get_view_accept_delta_applied)
next
  case rejected
  then show ?thesis
    by (auto simp: accept_inbound_delta_def get_view_def [symmetric] Let_def split: option.splits if_splits)
qed

text \<open>An event changes the entry of its peer only, and looks at nothing else.\<close>

lemma peer_apply_local:
  assumes "shard_wf sh" and "shard_wf sh'" and "sh_node_id sh' = sh_node_id sh"
  shows "n \<noteq> peer_of ev \<Longrightarrow> get_view (peer_apply ev sh) n = get_view sh n"
    and "get_view sh' (peer_of ev) = get_view sh (peer_of ev) \<Longrightarrow>
      get_view (peer_apply ev sh') (peer_of ev) = get_view (peer_apply ev sh) (peer_of ev)"
  using assms by (cases ev; auto simp: lookup_simps get_view_accept_delta split: option.splits)+

lemma peer_fold:
  assumes "shard_wf sh" and "shard_wf sh'" and "sh_node_id sh' = sh_node_id sh"
    and "\<forall>n. n \<noteq> sh_node_id sh \<longrightarrow> get_view sh' n = get_view sh n"
    and "\<forall>ev \<in> set evs. peer_of ev \<noteq> sh_node_id sh"
  shows "shard_wf (fold peer_apply evs sh) \<and> sh_node_id (fold peer_apply evs sh) = sh_node_id sh \<and>
    sh_state (fold peer_apply evs sh) = sh_state sh \<and>
    get_view (fold peer_apply evs sh) (sh_node_id sh) = get_view sh (sh_node_id sh) \<and>
    (\<forall>n. n \<noteq> sh_node_id sh \<longrightarrow> get_view (fold peer_apply evs sh') n = get_view (fold peer_apply evs sh) n)"
  using assms
proof (induction evs arbitrary: sh sh')
  case (Cons ev evs)
  have "get_view (peer_apply ev sh') n = get_view (peer_apply ev sh) n" if "n \<noteq> sh_node_id sh" for n
    using that Cons.prems peer_apply_local [OF Cons.prems(1-3)] peer_apply_local(1) [OF Cons.prems(2,2) refl]
    by (cases "n = peer_of ev") auto
  moreover have "get_view (peer_apply ev sh) (sh_node_id sh) = get_view sh (sh_node_id sh)"
    using peer_apply_local(1) [OF Cons.prems(1-3), of "sh_node_id sh" ev] Cons.prems(5) by auto
  ultimately show ?case
    using Cons.IH [of "peer_apply ev sh" "peer_apply ev sh'"] Cons.prems by (simp add: wf_intros frame_simps)
qed simp

text \<open>The views with the local entry synced at the reading \<open>c\<close>.\<close>

definition resynced ::
    "clock_reading \<Rightarrow> node_id \<Rightarrow> (node_id \<rightharpoonup> 'v state_view_object) \<Rightarrow> (node_id \<rightharpoonup> 'v state_view_object)" where
  "resynced c own views = views(own := map_option (\<lambda>v. v\<lparr>sv_synced_at := clk_now c\<rparr>) (views own))"

lemma late_commit_views:
  assumes "shard_wf sh" and "\<forall>ev \<in> set evs. peer_of ev \<noteq> sh_node_id sh"
  shows "get_view (update_own_view c2 v ((fold peer_apply evs sh)\<lparr>sh_state := st\<rparr>)) =
    resynced c2 (sh_node_id sh) (get_view (fold peer_apply evs (update_own_view c1 v (sh\<lparr>sh_state := st\<rparr>))))"
proof -
  let ?u = "update_own_view c1 v (sh\<lparr>sh_state := st\<rparr>)"
  have u: "shard_wf ?u" "sh_node_id ?u = sh_node_id sh" "\<forall>n. n \<noteq> sh_node_id sh \<longrightarrow> get_view ?u n = get_view sh n"
    using assms(1) by (simp_all add: wf_intros frame_simps lookup_simps shard_wf_own_vm)
  note a = peer_fold [OF assms(1) u assms(2)]
  have "get_view (fold peer_apply evs ?u) (sh_node_id sh) = get_view ?u (sh_node_id sh)"
    using peer_fold [OF u(1,1) refl, of evs] assms(2) u(2) by simp
  moreover have "vm_get (sh_views (fold peer_apply evs sh)) (sh_node_id sh) \<noteq> None"
    using a shard_wf_own_vm [of "fold peer_apply evs sh"] by simp
  ultimately show ?thesis
    using a assms(1) by (auto simp: resynced_def fun_eq_iff lookup_simps shard_wf_own_vm frame_simps)
qed

text \<open>
  C20: persist-before-publish costs nothing. A mutation is prepared at one time; while its state is being saved, any snapshots,
  deltas, announcements, joins and departures of peers arrive; then it is committed, at another time. The commit does not panic and
  reports the outcome of the direct mutation at the time of the preparation. The state is the mutated one, at the next age and with that
  time as its modification time; the views are those of the direct mutation followed by the same events, the local one
  synced at the time of the commit. So it is for the plain and for the delta path.
\<close>

theorem two_phase_is_direct:
  assumes "shard_wf sh" and "\<forall>ev \<in> set evs. peer_of ev \<noteq> sh_node_id sh"
  shows "(\<exists>sh'. commit_mutation c2 (prepare_mutation c1 f p sh) (fold peer_apply evs sh) = Inr (sh', snd (apply_mutation c1 f p sh)) \<and>
      sh_node_id sh' = sh_node_id sh \<and> sh_state sh' = (sh_state sh)\<lparr>so_value := f (so_value (sh_state sh)),
        so_generation := age_inc (so_generation (sh_state sh)), so_modified_time := clk_unix_ms c1\<rparr> \<and>
      get_view sh' = resynced c2 (sh_node_id sh) (get_view (fold peer_apply evs (fst (apply_mutation c1 f p sh)))) \<and>
      own_mirrors p sh') \<and>
    (\<exists>sh'. commit_delta_mutation c2 (prepare_mutation_with_delta c1 g p pd sh) (fold peer_apply evs sh) =
        Inr (sh', snd (apply_mutation_with_delta c1 g p pd sh)) \<and>
      sh_node_id sh' = sh_node_id sh \<and> sh_state sh' = (sh_state sh)\<lparr>so_value := fst (g (so_value (sh_state sh))),
        so_generation := age_inc (so_generation (sh_state sh)), so_modified_time := clk_unix_ms c1\<rparr> \<and>
      get_view sh' = resynced c2 (sh_node_id sh) (get_view (fold peer_apply evs (fst (apply_mutation_with_delta c1 g p pd sh)))) \<and>
      own_mirrors p sh')"
proof -
  have sh1: "shard_wf (fold peer_apply evs sh)" "sh_node_id (fold peer_apply evs sh) = sh_node_id sh"
    "sh_state (fold peer_apply evs sh) = sh_state sh"
    using peer_fold [OF assms(1,1) refl _ assms(2)] by simp_all
  have own: "own_mirrors p (update_own_view c2 (p (so_value st)) ((fold peer_apply evs sh)\<lparr>sh_state := st\<rparr>))" for st
    by (rule update_own_view_mirrors [OF sh1(1) refl])
  show ?thesis
    using own [of "mutated_state c1 f (sh_state sh)"] own [of "mutated_state c1 (\<lambda>s. fst (g s)) (sh_state sh)"]
      late_commit_views [OF assms, of c2 _ _ c1]
    by (simp add: commit_mutation_def prepare_mutation_def commit_delta_mutation_def prepare_mutation_with_delta_def
        apply_mutation_eq apply_mutation_with_delta_eq mutated_state_def sh1 frame_simps Let_def case_prod_unfold)
qed

theorem two_phase_is_direct_witness:
  "\<exists>sh'. commit_mutation (demo_clock\<lparr>clk_now := 9, clk_unix_ms := 2000\<rparr>) (prepare_mutation demo_clock Suc id demo_shard)
       (fold peer_apply [PeerSnapshot demo_clock (snd (demo_snap 3))] demo_shard) =
         Inr (sh', \<lparr>mo_generation = Generation 1 1, mo_view = 1\<rparr>) \<and>
     so_modified_time (sh_state sh') = 1000 \<and> map_option sv_synced_at (get_view sh' ''a'') = Some 9 \<and>
     map_option sv_value (get_view sh' ''b'') = Some 3"
proof -
  let ?evs = "[PeerSnapshot demo_clock (snd (demo_snap 3))]"
  have "\<forall>ev \<in> set ?evs. peer_of ev \<noteq> sh_node_id demo_shard"
    by (simp add: demo_defs shard_new_def Let_def)
  note t = two_phase_is_direct [OF demo_shard_wf this, of "demo_clock\<lparr>clk_now := 9, clk_unix_ms := 2000\<rparr>" demo_clock Suc id]
  obtain sh' where sh': "commit_mutation (demo_clock\<lparr>clk_now := 9, clk_unix_ms := 2000\<rparr>) (prepare_mutation demo_clock Suc id demo_shard)
      (fold peer_apply ?evs demo_shard) = Inr (sh', snd (apply_mutation demo_clock Suc id demo_shard))"
    "so_modified_time (sh_state sh') = clk_unix_ms demo_clock"
    "get_view sh' = resynced (demo_clock\<lparr>clk_now := 9, clk_unix_ms := 2000\<rparr>) (sh_node_id demo_shard)
      (get_view (fold peer_apply ?evs (fst (apply_mutation demo_clock Suc id demo_shard))))"
    using conjunct1 [OF t] by auto
  have "snd (apply_mutation demo_clock Suc id demo_shard) = \<lparr>mo_generation = Generation 1 1, mo_view = 1\<rparr>" by code_simp
  moreover have "map_option sv_synced_at (get_view sh' ''a'') = Some 9" unfolding sh'(3) by code_simp
  moreover have "map_option sv_value (get_view sh' ''b'') = Some 3" unfolding sh'(3) by code_simp
  ultimately show ?thesis using sh'(1,2) by (auto simp: demo_clock_def)
qed

text \<open>
  One commit at a time. When two mutations are prepared on the same state and the first is
  committed, committing the second panics with the two generations; even a wrapped age counter
  cannot make the generations equal again.
\<close>

theorem second_commit_panics:
  assumes "commit_mutation c1 (prepare_mutation c1 f1 p1 sh) sh = Inr (sh1, out)"
  shows "commit_mutation c2 (prepare_mutation c2 f2 p2 sh) sh1 =
    Inl (BaseGenerationMismatch (so_generation (sh_state sh)) (age_inc (so_generation (sh_state sh))))"
proof -
  have "sh_state sh1 = mutated_state c1 f1 (sh_state sh)"
    using assms by (metis Inr_inject apply_mutation_frame(2) commit_prepare fst_conv)
  moreover have "age_inc g \<noteq> g" for g
    by (cases g) (simp add: age_inc_def)
  ultimately show ?thesis
    by (simp add: commit_mutation_def prepare_mutation_def Let_def) metis
qed

theorem second_commit_panics_witness:
  "commit_mutation demo_clock (prepare_mutation demo_clock (\<lambda>x. x + 2) id demo_shard)
     (fst (apply_mutation demo_clock Suc id demo_shard)) =
   Inl (BaseGenerationMismatch (Generation 1 0) (Generation 1 1))"
  using second_commit_panics [of demo_clock Suc id demo_shard
      "fst (apply_mutation demo_clock Suc id demo_shard)"
      "snd (apply_mutation demo_clock Suc id demo_shard)" demo_clock "\<lambda>x. x + 2" id]
  by (simp add: commit_mutation_def prepare_mutation_def apply_mutation_def Let_def frame_simps)
    (simp add: demo_defs shard_new_def new_state_object_def generation_new_def age_inc_def Let_def)

subsection \<open>Properties of the inbound path\<close>

text \<open>
  C19: a delta is applied exactly when it is the next one. Against a known peer whose age counter is
  not at its maximum, an inbound delta is discarded when it is not newer than the view, applied when
  its generation is the successor of the view's, and reported as a gap (with both generations)
  otherwise; only the applied case changes the view map, and only at the source.
\<close>

theorem accept_inbound_delta_trichotomy:
  assumes "shard_wf sh" and "get_view sh source = Some e" and "age (sv_generation e) \<noteq> - 1"
  shows "snd (accept_inbound_delta c source gen wv f sh) =
      (if gen \<le> sv_generation e then DeltaDiscarded
       else if gen = age_inc (sv_generation e) then Applied
       else GapDetected (sv_generation e) gen) \<and>
    get_view (fst (accept_inbound_delta c source gen wv f sh)) =
      (if gen = age_inc (sv_generation e)
       then (get_view sh)(source \<mapsto> \<lparr>sv_generation = gen, sv_wire_version = wv,
         sv_value = f (sv_value e), sv_created_time = sv_created_time e,
         sv_modified_time = clk_unix_ms c, sv_synced_at = clk_now c,
         sv_pending_remote_generation = option_filter (\<lambda>p. gen < p) (sv_pending_remote_generation e),
         sv_source_node = source\<rparr>)
       else get_view sh)"
proof (cases "gen = age_inc (sv_generation e)")
  case True
  then have "\<not> gen \<le> sv_generation e"
    using age_inc_less [OF assms(3)] by simp
  moreover from True assms(2) have "snd (accept_inbound_delta c source gen wv f sh) = Applied"
    by (simp add: accept_inbound_delta_def get_view_def age_inc_def Let_def)
  moreover have "get_view (fst (accept_inbound_delta c source gen wv f sh)) = (get_view sh)(source \<mapsto>
      \<lparr>sv_generation = gen, sv_wire_version = wv, sv_value = f (sv_value e),
       sv_created_time = sv_created_time e, sv_modified_time = clk_unix_ms c,
       sv_synced_at = clk_now c,
       sv_pending_remote_generation = option_filter (\<lambda>p. gen < p) (sv_pending_remote_generation e),
       sv_source_node = source\<rparr>)"
    using True assms(1,2) by (intro get_view_accept_delta_applied) (simp_all add: age_inc_def)
  ultimately show ?thesis using True by simp
next
  case False
  then have "incarnation gen \<noteq> incarnation (sv_generation e) \<or> age gen \<noteq> age (sv_generation e) + 1"
    by (cases gen) (auto simp: age_inc_def)
  with False assms(2) show ?thesis
    by (auto simp: accept_inbound_delta_def get_view_def generation_le_iff not_less_iff_gr_or_eq)
qed

theorem accept_inbound_delta_trichotomy_witness:
  "snd (accept_inbound_delta demo_clock ''a'' (Generation 1 1) 1 Suc demo_shard) = Applied \<and>
   snd (accept_inbound_delta demo_clock ''a'' (Generation 1 0) 1 Suc demo_shard) = DeltaDiscarded \<and>
   snd (accept_inbound_delta demo_clock ''a'' (Generation 1 3) 1 Suc demo_shard) =
     GapDetected (Generation 1 0) (Generation 1 3)"
proof -
  let ?e = "the (get_view demo_shard ''a'')"
  have e: "get_view demo_shard ''a'' = Some ?e" "sv_generation ?e = Generation 1 0"
    by (simp_all add: demo_shard_def lookup_simps new_state_object_def generation_new_def)
  have max: "age (sv_generation ?e) \<noteq> - 1" by (simp add: e(2))
  show ?thesis
    using accept_inbound_delta_trichotomy [OF demo_shard_wf e(1) max, of demo_clock "Generation 1 1" 1 Suc]
      accept_inbound_delta_trichotomy [OF demo_shard_wf e(1) max, of demo_clock "Generation 1 0" 1 Suc]
      accept_inbound_delta_trichotomy [OF demo_shard_wf e(1) max, of demo_clock "Generation 1 3" 1 Suc]
    by (simp add: e(2) age_inc_def generation_le_iff)
qed

lemma accept_delta_le:
  assumes "shard_wf sh" and "\<And>e. get_view sh source = Some e \<Longrightarrow> age (sv_generation e) \<noteq> - 1"
  shows "views_le (get_view sh) (get_view (fst (accept_inbound_delta c source gen wv f sh)))"
proof (cases rule: accept_delta_cases [of sh source gen c wv f])
  case (applied e)
  have "age (sv_generation e) < age (sv_generation e) + 1"
    using assms(2) applied(1) by (simp add: word_less_inc)
  then have "sv_generation e \<le> gen"
    by (simp add: generation_le_iff applied(2,3) less_imp_le)
  then show ?thesis
    unfolding get_view_accept_delta_applied [OF shard_wf_vm [OF assms(1)] applied(1-3)]
    by (intro views_le_upd) (simp add: applied(1))
qed simp

lemma mark_stale_le: "shard_wf sh \<Longrightarrow> views_le (get_view sh) (get_view (mark_stale source i a sh))"
  by (auto simp: lookup_simps split: option.splits dest!: stale_update_SomeD intro!: views_le_upd)

lemma joined_le: "shard_wf sh \<Longrightarrow> views_le (get_view sh) (get_view (shard_on_node_joined c n dv sh))"
  by (auto simp: lookup_simps intro!: views_le_upd)

text \<open>
  views never go back. Inbound snapshots, inbound deltas (below the maximal age), change-feed
  announcements and joins neither lose an entry of the view map nor lower the generation of one.
\<close>

theorem inbound_never_goes_back:
  assumes "shard_wf sh" and "\<And>e. get_view sh source = Some e \<Longrightarrow> age (sv_generation e) \<noteq> - 1"
  shows "views_le (get_view sh) (get_view (fst (accept_inbound_snapshot c snap sh))) \<and>
    views_le (get_view sh) (get_view (fst (accept_inbound_delta c source gen wv f sh))) \<and>
    views_le (get_view sh) (get_view (mark_stale n i a sh)) \<and>
    views_le (get_view sh) (get_view (shard_on_node_joined c k dv sh))"
  using assms by (simp add: accept_snapshot_le accept_delta_le mark_stale_le joined_le)

theorem inbound_never_goes_back_witness:
  "views_le (get_view demo_shard)
     (get_view (fst (accept_inbound_delta demo_clock ''a'' (Generation 1 1) 1 Suc demo_shard)))"
  by (rule inbound_never_goes_back [THEN conjunct2, THEN conjunct1])
    (auto simp: demo_shard_wf, simp add: demo_shard_def lookup_simps new_state_object_def generation_new_def)

lemma query_stale_eq:
  "map fst (filter (\<lambda>(k, view). view_is_stale (clk_now c) d view)
     (filter (\<lambda>(k, view). k \<noteq> own) (vm_snapshot m))) = vm_stale_peers m own d c"
  by (simp add: vm_snapshot_def vm_stale_peers_def filter_map comp_def case_prod_unfold)

lemma distinct_stale_peers: "vm_wf m \<Longrightarrow> distinct (vm_stale_peers m own d c)"
  by (simp add: vm_stale_peers_def vm_wf_def hm_wf_def distinct_map_filter)

definition stale_nodes :: "('s, 'v) shard_core \<Rightarrow> duration \<Rightarrow> clock_reading \<Rightarrow> node_id set" where
  "stale_nodes sh d c = {n. n \<noteq> sh_node_id sh \<and>
     (\<exists>v. get_view sh n = Some v \<and> (sv_pending_remote_generation v \<noteq> None \<or>
        d < clk_now c - sv_synced_at v))}"

lemma query_local_sound:
  assumes "shard_wf sh"
  shows "(case query_local sh d c project of
       Fresh r \<Rightarrow> r = project (shard_snapshot sh) \<and> stale_nodes sh d c = {}
     | StalePeersDetected ps r \<Rightarrow> r = project (shard_snapshot sh) \<and> set ps = stale_nodes sh d c \<and> ps \<noteq> [] \<and>
         distinct ps \<and> ps = shard_stale_peers sh d c)"
proof -
  have "query_local sh d c project =
      (if shard_stale_peers sh d c = [] then Fresh (project (shard_snapshot sh))
       else StalePeersDetected (shard_stale_peers sh d c) (project (shard_snapshot sh)))"
    by (simp only: query_local_def query_stale_eq shard_stale_peers_def shard_snapshot_def Let_def)
  moreover have "set (shard_stale_peers sh d c) = stale_nodes sh d c"
    using assms(1) by (simp add: stale_nodes_def shard_stale_peers_def set_stale_peers view_is_stale_def
        duration_since_def get_view_def)
  ultimately show ?thesis
    using assms(1) by (auto simp: distinct_stale_peers shard_stale_peers_def)
qed

text \<open>
  queries report staleness exactly. The projection always runs on the captured snapshot; the
  answer is \<open>Fresh\<close> exactly when no peer is stale, and otherwise it lists, once each, precisely the
  peers other than the local node whose view has a pending announcement or is older than the bound;
  that list is the one \<open>stale_peers\<close> returns.
\<close>

theorem query_local_exact:
  assumes "shard_wf sh"
  shows "(case query_local sh d c project of
       Fresh r \<Rightarrow> r = project (shard_snapshot sh) \<and> stale_nodes sh d c = {}
     | StalePeersDetected ps r \<Rightarrow> r = project (shard_snapshot sh) \<and> set ps = stale_nodes sh d c \<and> ps \<noteq> [] \<and>
         distinct ps \<and> ps = shard_stale_peers sh d c)"
  using assms by (rule query_local_sound)

theorem query_local_exact_witness:
  "query_local (shard_on_node_joined demo_clock ''b'' 0 demo_shard) 5 demo_clock length =
     StalePeersDetected [''b''] 2 \<and> shard_wf (shard_on_node_joined demo_clock ''b'' 0 demo_shard) \<and>
   stale_nodes (shard_on_node_joined demo_clock ''b'' 0 demo_shard) 5 demo_clock = {''b''}"
proof -
  let ?sh = "shard_on_node_joined demo_clock ''b'' 0 demo_shard"
  have wf: "shard_wf ?sh" by (simp add: demo_shard_wf wf_intros)
  have q: "query_local ?sh 5 demo_clock length = StalePeersDetected [''b''] 2"
    by code_simp
  show ?thesis
    using query_local_exact [OF wf, where d = 5 and c = demo_clock and project = length] wf q by auto
qed

text \<open>
  C37: a late announcement hides a newer one. \<open>mark_stale\<close> compares the announced generation with the
  view only, so when the announcement of \<open>g\<close> arrives after that of a newer \<open>h\<close> it replaces it;
  once a snapshot at \<open>g\<close> is accepted the marker is gone although the view is behind \<open>h\<close>, which the
  node had been told about.
\<close>

theorem late_announcement_hides_newer:
  assumes "shard_wf sh" and "get_view sh n = Some e"
    and "sv_generation e < g" and "g < h" and "is_source snap = n" and "is_generation snap = g"
  shows "\<exists>w. get_view (fst (accept_inbound_snapshot c snap
        (mark_stale n (incarnation g) (age g) (mark_stale n (incarnation h) (age h) sh)))) n = Some w \<and>
      sv_pending_remote_generation w = None \<and> sv_generation w < h"
proof -
  let ?sh1 = "mark_stale n (incarnation h) (age h) sh"
  let ?sh2 = "mark_stale n (incarnation g) (age g) ?sh1"
  have "sv_generation e < h" using assms(3,4) by simp
  then have 1: "get_view ?sh1 n = Some (e\<lparr>sv_pending_remote_generation := Some h\<rparr>)"
    using assms by (simp add: lookup_simps stale_update_def)
  then have 2: "get_view ?sh2 n = Some (e\<lparr>sv_pending_remote_generation := Some g\<rparr>)"
    using assms by (simp add: lookup_simps stale_update_def wf_intros)
  show ?thesis
    using assms 2 by (simp add: lookup_simps wf_intros snapshot_update_def should_accept_def
        option_filter_def Let_def)
qed

theorem late_announcement_hides_newer_witness:
  "\<exists>w. get_view (fst (accept_inbound_snapshot demo_clock (snd (demo_snap 7))
        (mark_stale ''b'' 5 7 (mark_stale ''b'' 5 9
          (shard_on_node_joined demo_clock ''b'' 0 demo_shard))))) ''b'' = Some w \<and>
      sv_pending_remote_generation w = None \<and> sv_generation w < Generation 5 9"
  using late_announcement_hides_newer [of "shard_on_node_joined demo_clock ''b'' 0 demo_shard" "''b''"
      "the (get_view (shard_on_node_joined demo_clock ''b'' 0 demo_shard) ''b'')" "Generation 5 7"
      "Generation 5 9" "snd (demo_snap 7)" demo_clock]
  by (simp add: demo_shard_wf wf_intros lookup_simps generation_less_iff demo_snap_def)
    (simp add: demo_shard_def lookup_simps, simp add: shard_new_def Let_def)

end
