(* ===== verification/Persistence.thy ===== *)
theory Persistence
  imports Shard_Core
begin

text \<open>
  \<open>dstate/src/core/persistence_startup_logic.rs\<close> (what a node starts from), the persistence trait of
  \<open>traits/persistence.rs\<close> and its two test implementations of \<open>test_support/test_persist.rs\<close>.
\<close>

datatype 's startup_outcome =
    FreshStart "'s state_object"
  | Restored "'s state_object"
  | Migrated "'s state_object" u32
  | FallbackToEmpty "'s state_object" string

fun outcome_state :: "'s startup_outcome \<Rightarrow> 's state_object" where
  "outcome_state (FreshStart st) = st"
| "outcome_state (Restored st) = st"
| "outcome_state (Migrated st _) = st"
| "outcome_state (FallbackToEmpty st _) = st"

record persistence_startup_logic =
  psl_current_storage_version :: u32

definition startup_new :: "u32 \<Rightarrow> persistence_startup_logic" where
  "startup_new v = \<lparr>psl_current_storage_version = v\<rparr>"

definition fresh_state :: "persistence_startup_logic \<Rightarrow> 's \<Rightarrow> clock_reading \<Rightarrow> 's state_object" where
  "fresh_state psl v clock =
     (let now = clk_unix_ms clock
      in \<lparr>so_generation = generation_new now 0, so_storage_version = psl_current_storage_version psl,
          so_value = v, so_created_time = now, so_modified_time = now\<rparr>)"

definition fresh_state_at_least ::
    "persistence_startup_logic \<Rightarrow> 's \<Rightarrow> clock_reading \<Rightarrow> u64 \<Rightarrow> 's state_object" where
  "fresh_state_at_least psl v clock old_incarnation =
     (let now = clk_unix_ms clock;
          inc = max now (old_incarnation + 1)
      in \<lparr>so_generation = generation_new inc 0, so_storage_version = psl_current_storage_version psl,
          so_value = v, so_created_time = now, so_modified_time = now\<rparr>)"

definition initialize ::
    "persistence_startup_logic \<Rightarrow> persist_error + 's state_object option \<Rightarrow> 's \<Rightarrow> clock_reading \<Rightarrow>
     ('s \<Rightarrow> u32 \<Rightarrow> string + 's) \<Rightarrow> 's startup_outcome" where
  "initialize psl load_result default_value clock migrate_fn =
     (case load_result of
        Inl e \<Rightarrow> FallbackToEmpty (fresh_state psl default_value clock) (show_persist_error e)
      | Inr None \<Rightarrow> FreshStart (fresh_state psl default_value clock)
      | Inr (Some loaded) \<Rightarrow>
          if so_storage_version loaded = psl_current_storage_version psl then Restored loaded
          else
            (case migrate_fn (so_value loaded) (so_storage_version loaded) of
               Inr migrated_value \<Rightarrow>
                 Migrated \<lparr>so_generation = so_generation loaded,
                    so_storage_version = psl_current_storage_version psl,
                    so_value = migrated_value, so_created_time = so_created_time loaded,
                    so_modified_time = so_modified_time loaded\<rparr> (so_storage_version loaded)
             | Inl reason \<Rightarrow>
                 FallbackToEmpty (fresh_state_at_least psl default_value clock
                   (incarnation (so_generation loaded))) reason))"

subsection \<open>Stores\<close>

record 's in_memory_persistence =
  im_stored :: "'s state_object option"

definition im_new :: "'s in_memory_persistence" where
  "im_new = \<lparr>im_stored = None\<rparr>"



datatype failing_persistence = FailingPersistence

definition failing_save ::
    "'s state_object \<Rightarrow> 'dc option \<Rightarrow> failing_persistence \<Rightarrow>
     failing_persistence \<times> (persist_error + unit)" where
  "failing_save state delta p = (p, Inl (StorageUnavailable ''FailingPersistence always fails''))"

definition failing_load :: "failing_persistence \<Rightarrow> persist_error + 's state_object option" where
  "failing_load p = Inl (StorageUnavailable ''FailingPersistence always fails'')"

subsection \<open>Persist before publish\<close>

text \<open>
  Persist-before-publish as the documentation of the two phases prescribes it to their caller: prepare the mutation, save its state,
  commit it when the save succeeded and drop it when not. A request is the readings of the clock at the two phases, the mutation and
  the delta saved along with the state.
\<close>

type_synonym ('s, 'dc) persist_request = "clock_reading \<times> clock_reading \<times> ('s \<Rightarrow> 's) \<times> 'dc option"

definition persist_mutation ::
    "('s state_object \<Rightarrow> 'dc option \<Rightarrow> 'p \<Rightarrow> 'p \<times> (persist_error + unit)) \<Rightarrow> ('s \<Rightarrow> 'v) \<Rightarrow> ('s, 'dc) persist_request \<Rightarrow>
     ('s, 'v) shard_core \<times> 'p \<Rightarrow> commit_panic + (('s, 'v) shard_core \<times> 'p) \<times> (persist_error + 'v mutation_outcome)" where
  "persist_mutation save pr req s =
     (case req of (c1, c2, f, d) \<Rightarrow> case s of (sh, p) \<Rightarrow>
        let prepared = prepare_mutation c1 f pr sh
        in case save (pm_new_state prepared) d p of
             (p', Inl err) \<Rightarrow> Inr ((sh, p'), Inl err)
           | (p', Inr _) \<Rightarrow> map_sum id (\<lambda>(sh', out). ((sh', p'), Inr out)) (commit_mutation c2 prepared sh))"

fun persist_run ::
    "('s state_object \<Rightarrow> 'dc option \<Rightarrow> 'p \<Rightarrow> 'p \<times> (persist_error + unit)) \<Rightarrow> ('s \<Rightarrow> 'v) \<Rightarrow> ('s, 'dc) persist_request list \<Rightarrow>
     ('s, 'v) shard_core \<times> 'p \<Rightarrow> commit_panic + (('s, 'v) shard_core \<times> 'p) \<times> (persist_error + 'v mutation_outcome) list" where
  "persist_run save pr [] s = Inr (s, [])"
| "persist_run save pr (req # reqs) s =
     (case persist_mutation save pr req s of
        Inl e \<Rightarrow> Inl e
      | Inr (s, r) \<Rightarrow> map_sum id (\<lambda>(s, rs). (s, r # rs)) (persist_run save pr reqs s))"

text \<open>The requests that were carried out.\<close>

definition persisted :: "('s, 'dc) persist_request list \<Rightarrow> (persist_error + 'v mutation_outcome) list \<Rightarrow> ('s, 'dc) persist_request list" where
  "persisted reqs rs = map fst (filter (\<lambda>(req, r). \<not> isl r) (zip reqs rs))"

lemma persisted_simps [simp]:
  "persisted [] rs = []"
  "persisted (req # reqs) (r # rs) = (if isl r then persisted reqs rs else req # persisted reqs rs)"
  by (simp_all add: persisted_def)

text \<open>What the mutations of the requests make of a state.\<close>

definition replayed :: "('s, 'dc) persist_request list \<Rightarrow> 's state_object \<Rightarrow> 's state_object" where
  "replayed reqs st = fold (\<lambda>(c1, c2, f, d) st. mutated_state c1 f st) reqs st"

lemma replayed_simps [simp]:
  "replayed [] st = st" "replayed ((c1, c2, f, d) # reqs) st = replayed reqs (mutated_state c1 f st)"
  by (simp_all add: replayed_def)


lemma prepared_state: "pm_new_state (prepare_mutation c f pr sh) = mutated_state c f (sh_state sh)"
  by (simp add: prepare_mutation_def mutated_state_def Let_def)

lemma commit_prepared:
  "commit_mutation c2 (prepare_mutation c1 f pr sh) sh =
     Inr (update_own_view c2 (pr (f (so_value (sh_state sh)))) (sh\<lparr>sh_state := mutated_state c1 f (sh_state sh)\<rparr>),
       \<lparr>mo_generation = age_inc (so_generation (sh_state sh)), mo_view = pr (f (so_value (sh_state sh)))\<rparr>)"
  by (simp add: commit_mutation_def prepare_mutation_def mutated_state_def frame_simps Let_def)

subsection \<open>The contract of a store\<close>

text \<open>
  The trait \<open>StatePersistence\<close> as an interface: a save that reports success is what the next load
  returns; a save that reports an error leaves the stored state alone. Persist-before-publish (prepare,
  save, commit) rests on it.
\<close>

locale state_persistence =
  fixes save :: "'s state_object \<Rightarrow> 'dc option \<Rightarrow> 'p \<Rightarrow> 'p \<times> (persist_error + unit)"
    and load :: "'p \<Rightarrow> persist_error + 's state_object option"
  assumes save_ok: "save st d p = (p', Inr ()) \<Longrightarrow> load p' = Inr (Some st)"
    and save_failed: "save st d p = (p', Inl err) \<Longrightarrow> load p' = load p"
begin

lemma save_then_load:
  "save st d p = (p', r) \<Longrightarrow> load p' = (case r of Inr _ \<Rightarrow> Inr (Some st) | Inl _ \<Rightarrow> load p)"
  using save_ok save_failed by (auto split: sum.splits)

lemma persist_step:
  assumes "load p = Inr (Some (sh_state sh))"
  shows "\<exists>sh' p' r. persist_mutation save pr (c1, c2, f, d) (sh, p) = Inr ((sh', p'), r) \<and>
    sh_state sh' = (if isl r then sh_state sh else mutated_state c1 f (sh_state sh)) \<and> load p' = Inr (Some (sh_state sh'))"
proof -
  obtain p' r where "save (pm_new_state (prepare_mutation c1 f pr sh)) d p = (p', r)" by fastforce
  with save_then_load [OF this] assms show ?thesis
    by (cases r) (simp_all add: persist_mutation_def commit_prepared prepared_state frame_simps)
qed

lemma persist_run_tracks:
  assumes "load p = Inr (Some (sh_state sh))"
  shows "\<exists>sh' p' rs. persist_run save pr reqs (sh, p) = Inr ((sh', p'), rs) \<and> length rs = length reqs \<and>
    sh_state sh' = replayed (persisted reqs rs) (sh_state sh) \<and> load p' = Inr (Some (sh_state sh'))"
  using assms
proof (induction reqs arbitrary: sh p)
  case (Cons req reqs)
  obtain c1 c2 f d where req: "req = (c1, c2, f, d)" using prod_cases4 by blast
  obtain sh1 p1 r where 1: "persist_mutation save pr req (sh, p) = Inr ((sh1, p1), r)"
    "sh_state sh1 = (if isl r then sh_state sh else mutated_state c1 f (sh_state sh))" "load p1 = Inr (Some (sh_state sh1))"
    using persist_step [OF Cons.prems] unfolding req by blast
  from Cons.IH [OF 1(3)] obtain sh' p' rs where "persist_run save pr reqs (sh1, p1) = Inr ((sh', p'), rs)"
    "length rs = length reqs" "sh_state sh' = replayed (persisted reqs rs) (sh_state sh1)" "load p' = Inr (Some (sh_state sh'))"
    by blast
  then show ?case using 1 by (simp add: req)
qed simp

end


interpretation fp: state_persistence failing_save failing_load
  by unfold_locales (auto simp: failing_save_def failing_load_def)

subsection \<open>Properties\<close>



text \<open>
  C29: a restart is never older than what was stored. Whatever the store returned, starting up succeeds. Without a stored state, or when
  the load fails (its error text is reported), the node starts with the default value at age 0 and the time of the clock as its incarnation. A
  loaded state is resumed, with its value migrated when its storage version differs. When that migration fails (its reason is reported) the node starts
  empty at age 0, with the time of the clock or the stored incarnation plus one as its incarnation, whichever is larger; the table of incarnation rules
  in the code has the time of the clock here, which would be older than the stored state when the clock is behind it. In every case in which a state was
  loaded, and its incarnation counter is not at its maximum, the state the node starts with is not older, and a peer whose view of the node
  is at most at the stored generation is at the generation of the restarted node after handling its snapshot.
\<close>

theorem restart_not_older:
  assumes "initialize psl load_result dv c mig = out"
  shows "let empty = (\<lambda>i. \<lparr>so_generation = Generation i 0, so_storage_version = psl_current_storage_version psl, so_value = dv,
      so_created_time = clk_unix_ms c, so_modified_time = clk_unix_ms c\<rparr>) in
    case load_result of
      Inl e \<Rightarrow> out = FallbackToEmpty (empty (clk_unix_ms c)) (show_persist_error e)
    | Inr None \<Rightarrow> out = FreshStart (empty (clk_unix_ms c))
    | Inr (Some loaded) \<Rightarrow>
        (if so_storage_version loaded = psl_current_storage_version psl then out = Restored loaded
         else case mig (so_value loaded) (so_storage_version loaded) of
             Inr v \<Rightarrow> out = Migrated (loaded\<lparr>so_value := v, so_storage_version := psl_current_storage_version psl\<rparr>)
               (so_storage_version loaded)
           | Inl reason \<Rightarrow> out = FallbackToEmpty
               (empty (max (clk_unix_ms c) (incarnation (so_generation loaded) + 1))) reason) \<and>
        (incarnation (so_generation loaded) = - 1 \<or>
          so_generation loaded \<le> so_generation (outcome_state out) \<and>
          (\<forall>(sh :: ('a, 'v) shard_core) v c2 snap. shard_wf sh \<longrightarrow> get_view sh (is_source snap) = Some v \<longrightarrow>
            sv_generation v \<le> so_generation loaded \<longrightarrow> is_generation snap = so_generation (outcome_state out) \<longrightarrow>
            map_option sv_generation (get_view (fst (accept_inbound_snapshot c2 snap sh)) (is_source snap)) =
              Some (so_generation (outcome_state out))))"
proof -
  have peer: "map_option sv_generation (get_view (fst (accept_inbound_snapshot c2 snap sh)) (is_source snap)) = Some g"
    if "shard_wf sh" "get_view sh (is_source snap) = Some v" "sv_generation v \<le> g" "is_generation snap = g"
    for sh :: "('a, 'v) shard_core" and v c2 snap g
    using accept_one_generation [OF that(1), of "(c2, snap)"] that(2-4)
    by (simp add: fun_eq_iff accept_one_def generation_of_def max_absorb2)
  have "a \<noteq> - 1 \<Longrightarrow> a < max b (a + 1)" for a b :: u64
    using word_less_inc [of a] by (simp add: less_max_iff_disj)
  then have newer: "incarnation g \<noteq> - 1 \<Longrightarrow> g \<le> Generation (max b (incarnation g + 1)) 0" for g b
    by (simp add: generation_less_iff less_imp_le)
  show ?thesis
  proof (cases load_result)
    case (Inr x)
    show ?thesis
    proof (cases x)
      case (Some loaded)
      have "so_generation loaded \<le> so_generation (outcome_state out)" if "incarnation (so_generation loaded) \<noteq> - 1"
        using assms Inr Some newer [OF that]
        by (auto simp: initialize_def fresh_state_at_least_def generation_new_def Let_def split: sum.splits if_splits)
      then show ?thesis
        using assms Inr Some peer order_trans
        by (auto simp: initialize_def fresh_state_at_least_def generation_new_def Let_def split: sum.splits if_splits)
    qed (use assms Inr in \<open>simp add: initialize_def fresh_state_def generation_new_def Let_def\<close>)
  qed (use assms in \<open>simp add: initialize_def fresh_state_def generation_new_def Let_def\<close>)
qed

theorem restart_not_older_witness:
  "initialize (startup_new 2) (Inr (Some (new_state_object (5::nat) 7000 demo_clock))) 0 demo_clock (\<lambda>v from. Inl ''no migration'') =
     FallbackToEmpty \<lparr>so_generation = Generation 7001 0, so_storage_version = 2, so_value = 0, so_created_time = 1000,
       so_modified_time = 1000\<rparr> ''no migration''"
  using restart_not_older [OF refl, where ?'a = nat and ?'v = nat and psl = "startup_new 2" and dv = 0 and c = demo_clock
      and load_result = "Inr (Some (new_state_object (5::nat) 7000 demo_clock))" and mig = "\<lambda>v from. Inl ''no migration''"]
  by (simp add: startup_new_def new_state_object_def generation_new_def demo_clock_def Let_def)

end
