(* ===== verification/Registry.thy ===== *)
theory Registry
  imports Types
begin

text \<open>
  \<open>dstate/src/registry.rs\<close>: the registry of the state types of a node. A boxed \<open>dyn AnyStateShard\<close> is a
  value of a type of objects together with the dispatch table of the trait; \<open>TypeId\<close>s are numbers.
  The contract the registry relies on (events do not rename a shard, \<open>as_any\<close> returns the shard
  itself) is the locale \<open>any_state_shard\<close>, interpreted on the two implementations of
  \<open>dstate/tests/registry_tests.rs\<close>.
\<close>

type_synonym type_id = nat

record 'o shard_vtable =
  vt_state_name :: "'o \<Rightarrow> string"
  vt_on_node_joined :: "node_id \<Rightarrow> 'o \<Rightarrow> 'o"
  vt_on_node_left :: "node_id \<Rightarrow> 'o \<Rightarrow> 'o"
  vt_on_mark_stale :: "node_id \<Rightarrow> u64 \<Rightarrow> u64 \<Rightarrow> 'o \<Rightarrow> 'o"
  vt_as_any :: "'o \<Rightarrow> type_id"

record 'o state_registry =
  reg_shards :: "(string, type_id \<times> 'o) hmap"

definition registry_new :: "'o state_registry" where
  "registry_new = \<lparr>reg_shards = []\<rparr>"

definition register ::
    "'o shard_vtable \<Rightarrow> type_id \<Rightarrow> 'o \<Rightarrow> 'o state_registry \<Rightarrow>
     'o state_registry \<times> (registry_error + unit)" where
  "register vt tid shard reg =
     (let name = vt_state_name vt shard
      in if hm_contains_key (reg_shards reg) name then (reg, Inl (DuplicateName name))
         else (reg\<lparr>reg_shards := hm_insert name (tid, shard) (reg_shards reg)\<rparr>, Inr ()))"

definition reg_lookup :: "'o state_registry \<Rightarrow> string \<Rightarrow> registry_error + 'o" where
  "reg_lookup reg name =
     (case hm_get (reg_shards reg) name of
        Some (_, shard) \<Rightarrow> Inr shard
      | None \<Rightarrow> Inl (StateNotRegistered name))"

text \<open>The type \<open>T\<close> of the caller is its \<open>TypeId\<close> and its name; \<open>downcast_ref\<close> compares the type of the
  object behind \<open>as_any\<close>.\<close>

definition lookup_typed ::
    "'o shard_vtable \<Rightarrow> type_id \<Rightarrow> string \<Rightarrow> 'o state_registry \<Rightarrow> string \<Rightarrow> registry_error + 'o" where
  "lookup_typed vt requested_tid type_name reg name =
     (case hm_get (reg_shards reg) name of
        None \<Rightarrow> Inl (StateNotRegistered name)
      | Some (registered_tid, shard) \<Rightarrow>
          if registered_tid \<noteq> requested_tid
          then Inl (TypeMismatch name type_name ''different type'')
          else if vt_as_any vt shard = requested_tid then Inr shard
          else Inl (TypeMismatch name type_name ''downcast failed''))"

definition broadcast_node_joined ::
    "'o shard_vtable \<Rightarrow> node_id \<Rightarrow> 'o state_registry \<Rightarrow> 'o state_registry" where
  "broadcast_node_joined vt node reg =
     reg\<lparr>reg_shards := map (\<lambda>(name, tid, shard). (name, tid, vt_on_node_joined vt node shard))
       (reg_shards reg)\<rparr>"

definition broadcast_node_left ::
    "'o shard_vtable \<Rightarrow> node_id \<Rightarrow> 'o state_registry \<Rightarrow> 'o state_registry" where
  "broadcast_node_left vt node reg =
     reg\<lparr>reg_shards := map (\<lambda>(name, tid, shard). (name, tid, vt_on_node_left vt node shard))
       (reg_shards reg)\<rparr>"

definition reg_len :: "'o state_registry \<Rightarrow> nat" where
  "reg_len reg = length (reg_shards reg)"

definition reg_is_empty :: "'o state_registry \<Rightarrow> bool" where
  "reg_is_empty reg \<longleftrightarrow> reg_shards reg = []"

definition state_names :: "'o state_registry \<Rightarrow> string list" where
  "state_names reg = hm_keys (reg_shards reg)"

subsection \<open>The implementations of the registry tests\<close>

datatype test_object =
    TestShard string u32 u32 u32
  | OtherShard string

fun test_object_name :: "test_object \<Rightarrow> string" where
  "test_object_name (TestShard name _ _ _) = name"
| "test_object_name (OtherShard name) = name"

fun test_object_joined :: "node_id \<Rightarrow> test_object \<Rightarrow> test_object" where
  "test_object_joined node (TestShard name joined left stale) = TestShard name (joined + 1) left stale"
| "test_object_joined node (OtherShard name) = OtherShard name"

fun test_object_left :: "node_id \<Rightarrow> test_object \<Rightarrow> test_object" where
  "test_object_left node (TestShard name joined left stale) = TestShard name joined (left + 1) stale"
| "test_object_left node (OtherShard name) = OtherShard name"

fun test_object_stale :: "node_id \<Rightarrow> u64 \<Rightarrow> u64 \<Rightarrow> test_object \<Rightarrow> test_object" where
  "test_object_stale source inc a (TestShard name joined left stale) = TestShard name joined left (stale + 1)"
| "test_object_stale source inc a (OtherShard name) = OtherShard name"

text \<open>The \<open>TypeId\<close>s of \<open>TestShard\<close> and \<open>OtherShard\<close>.\<close>

fun test_object_type :: "test_object \<Rightarrow> type_id" where
  "test_object_type (TestShard _ _ _ _) = 1"
| "test_object_type (OtherShard _) = 2"

definition test_vtable :: "test_object shard_vtable" where
  "test_vtable = \<lparr>vt_state_name = test_object_name, vt_on_node_joined = test_object_joined,
     vt_on_node_left = test_object_left, vt_on_mark_stale = test_object_stale,
     vt_as_any = test_object_type\<rparr>"

subsection \<open>The contract of a shard\<close>

text \<open>Every entry is filed under the name of its shard, with the type it was registered at.\<close>

definition registry_wf :: "'o shard_vtable \<Rightarrow> 'o state_registry \<Rightarrow> bool" where
  "registry_wf vt reg \<longleftrightarrow> hm_wf (reg_shards reg) \<and>
     (\<forall>name tid shard. hm_get (reg_shards reg) name = Some (tid, shard) \<longrightarrow>
        vt_state_name vt shard = name \<and> vt_as_any vt shard = tid)"

lemma hm_get_broadcast [lookup_simps]:
  "hm_get (map (\<lambda>(name, tid, shard). (name, tid, f shard)) m) k = map_option (map_prod id f) (hm_get m k)"
  by (induction m) (auto simp: hm_get_def)

lemma hm_wf_broadcast [wf_intros]:
  "hm_wf m \<Longrightarrow> hm_wf (map (\<lambda>(name, tid, shard). (name, tid, f shard)) m)"
  by (simp add: hm_wf_def case_prod_unfold comp_def)

locale any_state_shard =
  fixes vt :: "'o shard_vtable"
  assumes joined_name: "vt_state_name vt (vt_on_node_joined vt n x) = vt_state_name vt x"
    and left_name: "vt_state_name vt (vt_on_node_left vt n x) = vt_state_name vt x"
    and joined_any: "vt_as_any vt (vt_on_node_joined vt n x) = vt_as_any vt x"
    and left_any: "vt_as_any vt (vt_on_node_left vt n x) = vt_as_any vt x"
begin

lemma wf_new: "registry_wf vt registry_new"
  by (simp add: registry_wf_def registry_new_def)

lemma wf_register:
  assumes "registry_wf vt reg" shows "registry_wf vt (fst (register vt (vt_as_any vt x) x reg))"
  using assms
  by (auto simp: registry_wf_def register_def Let_def wf_intros lookup_simps split: if_splits)

lemma wf_broadcast:
  assumes "registry_wf vt reg"
  shows "registry_wf vt (broadcast_node_joined vt n reg)" "registry_wf vt (broadcast_node_left vt n reg)"
  using assms
  by (auto simp: registry_wf_def broadcast_node_joined_def broadcast_node_left_def wf_intros lookup_simps
      joined_name left_name joined_any left_any)

lemma broadcast_lookup:
  shows "reg_lookup (broadcast_node_joined vt n reg) name = map_sum id (vt_on_node_joined vt n) (reg_lookup reg name)"
    and "reg_lookup (broadcast_node_left vt n reg) name = map_sum id (vt_on_node_left vt n) (reg_lookup reg name)"
  by (auto simp: reg_lookup_def broadcast_node_joined_def broadcast_node_left_def lookup_simps
      split: option.splits)

lemma typed_iff:
  assumes "registry_wf vt reg"
  shows "lookup_typed vt tid tname reg name = Inr x \<longleftrightarrow> reg_lookup reg name = Inr x \<and> vt_as_any vt x = tid"
proof (cases "hm_get (reg_shards reg) name")
  case (Some p)
  then have "vt_as_any vt (snd p) = fst p"
    using assms by (cases p) (auto simp: registry_wf_def)
  with Some show ?thesis
    by (cases p) (auto simp: lookup_typed_def reg_lookup_def)
qed (simp add: lookup_typed_def reg_lookup_def)

end

interpretation ts: any_state_shard test_vtable
proof unfold_locales
  fix n x
  show "vt_state_name test_vtable (vt_on_node_joined test_vtable n x) = vt_state_name test_vtable x"
    "vt_state_name test_vtable (vt_on_node_left test_vtable n x) = vt_state_name test_vtable x"
    "vt_as_any test_vtable (vt_on_node_joined test_vtable n x) = vt_as_any test_vtable x"
    "vt_as_any test_vtable (vt_on_node_left test_vtable n x) = vt_as_any test_vtable x"
    by (cases x; simp add: test_vtable_def)+
qed

subsection \<open>Properties\<close>

definition run_registry :: "test_object list \<Rightarrow> test_object state_registry" where
  "run_registry xs = fold (\<lambda>x reg. fst (register test_vtable (test_object_type x) x reg)) xs registry_new"

lemma run_registry_wf: "registry_wf test_vtable (run_registry xs)"
proof -
  have "registry_wf test_vtable (fold (\<lambda>x reg. fst (register test_vtable (test_object_type x) x reg)) xs reg)"
    if "registry_wf test_vtable reg" for reg
    using that
  proof (induction xs arbitrary: reg)
    case (Cons x xs)
    then show ?case using ts.wf_register [of reg x] by (simp add: test_vtable_def)
  qed simp
  then show ?thesis using ts.wf_new by (simp add: run_registry_def)
qed

text \<open>
  C36: registration is first come, first served, and a failed registration changes nothing. A name that
  is taken is refused with \<open>DuplicateName\<close>; otherwise the shard is found under its name afterwards and
  every other lookup answers as before.
\<close>

theorem register_spec:
  assumes "registry_wf vt reg"
  shows "(case reg_lookup reg (vt_state_name vt x) of
      Inr y \<Rightarrow> register vt tid x reg = (reg, Inl (DuplicateName (vt_state_name vt x)))
    | Inl err \<Rightarrow> err = StateNotRegistered (vt_state_name vt x) \<and> snd (register vt tid x reg) = Inr () \<and>
        reg_lookup (fst (register vt tid x reg)) = (reg_lookup reg)(vt_state_name vt x := Inr x) \<and>
        reg_len (fst (register vt tid x reg)) = Suc (reg_len reg))"
proof (cases "hm_get (reg_shards reg) (vt_state_name vt x)")
  case None
  have wf: "hm_wf (reg_shards reg)" using assms by (simp add: registry_wf_def)
  have len: "length (hm_insert (vt_state_name vt x) (tid, x) (reg_shards reg)) = Suc (length (reg_shards reg))"
    using hm.count_put_new [OF wf None, of "(tid, x)"] by (simp add: hm_keys_def)
  show ?thesis
    using None wf len
    by (auto simp: reg_lookup_def register_def Let_def hm_contains_key_iff reg_len_def lookup_simps fun_eq_iff)
next
  case (Some p)
  then show ?thesis by (cases p) (simp add: reg_lookup_def register_def Let_def hm_contains_key_iff)
qed

theorem register_spec_witness:
  "snd (register test_vtable 2 (OtherShard ''s'') (run_registry [TestShard ''s'' 0 0 0])) =
     Inl (DuplicateName ''s'')"
proof -
  have "reg_lookup (run_registry [TestShard ''s'' 0 0 0]) ''s'' = Inr (TestShard ''s'' 0 0 0)" by code_simp
  then show ?thesis
    using register_spec [OF run_registry_wf [of "[TestShard ''s'' 0 0 0]"], of "OtherShard ''s''" 2]
    by (simp add: test_vtable_def)
qed

text \<open>
  typed lookups are exact and survive cluster events. On the registry of the tests, in every state
  built by registrations, a lookup at a type succeeds exactly when the name is registered and the
  shard has that type; a broadcast reaches every registered shard exactly once and renames none.
\<close>

theorem typed_lookup_after_broadcast:
  "lookup_typed test_vtable tid tname (broadcast_node_joined test_vtable n (run_registry xs)) name = Inr y \<longleftrightarrow>
     (\<exists>x. reg_lookup (run_registry xs) name = Inr x \<and> test_object_type x = tid \<and> y = test_object_joined n x)"
proof -
  have any: "vt_as_any test_vtable (test_object_joined n x) = test_object_type x" for x
    by (cases x) (simp_all add: test_vtable_def)
  have "lookup_typed test_vtable tid tname (broadcast_node_joined test_vtable n (run_registry xs)) name = Inr y \<longleftrightarrow>
      map_sum id (test_object_joined n) (reg_lookup (run_registry xs) name) = Inr y \<and> vt_as_any test_vtable y = tid"
    using ts.typed_iff [OF ts.wf_broadcast(1) [OF run_registry_wf]] ts.broadcast_lookup(1)
    by (simp add: test_vtable_def)
  then show ?thesis using any by (cases "reg_lookup (run_registry xs) name") auto
qed

end
