(* ===== verification/Sync_Logic.thy ===== *)
theory Sync_Logic
  imports Types
begin

text \<open>
  \<open>dstate/src/core/sync_logic.rs\<close>: which outbound action a mutation causes, from its urgency and the
  configured strategy; and \<open>dstate/src/core/delta_accumulator.rs\<close>: the buffer of suppressed deltas.
\<close>

datatype sync_action =
    BroadcastSnapshot
  | BroadcastDelta
  | NotifyChangeFeed
  | ScheduleDelayedAction duration
  | SuppressAction

record sync_logic =
  sl_state_name :: string
  sl_strategy :: sync_strategy
  sl_supports_delta :: bool

definition sync_logic_new :: "string \<Rightarrow> sync_strategy \<Rightarrow> bool \<Rightarrow> sync_logic" where
  "sync_logic_new name strategy supports_delta =
     \<lparr>sl_state_name = name, sl_strategy = strategy, sl_supports_delta = supports_delta\<rparr>"

definition broadcast_action :: "sync_logic \<Rightarrow> sync_action" where
  "broadcast_action sl = (if sl_supports_delta sl then BroadcastDelta else BroadcastSnapshot)"

fun resolve_action :: "sync_logic \<Rightarrow> sync_urgency \<Rightarrow> sync_action" where
  "resolve_action sl Immediate = broadcast_action sl"
| "resolve_action sl (Delayed d) = ScheduleDelayedAction d"
| "resolve_action sl SuppressUrgency = SuppressAction"
| "resolve_action sl DefaultUrgency =
     (case st_push_mode (sl_strategy sl) of
        Some ActivePush \<Rightarrow> broadcast_action sl
      | Some ActiveFeedLazyPull \<Rightarrow> NotifyChangeFeed
      | None \<Rightarrow> SuppressAction)"

definition should_periodic_sync :: "sync_logic \<Rightarrow> bool" where
  "should_periodic_sync sl \<longleftrightarrow> st_periodic_full_sync (sl_strategy sl) \<noteq> None"

definition sl_periodic_interval :: "sync_logic \<Rightarrow> duration option" where
  "sl_periodic_interval sl = st_periodic_full_sync (sl_strategy sl)"

subsection \<open>Delta accumulator\<close>

record 'vd delta_accumulator =
  da_buffer :: "'vd list"

definition da_new :: "'vd delta_accumulator" where
  "da_new = \<lparr>da_buffer = []\<rparr>"

definition da_accumulate :: "'vd \<Rightarrow> 'vd delta_accumulator \<Rightarrow> 'vd delta_accumulator" where
  "da_accumulate delta da = da\<lparr>da_buffer := da_buffer da @ [delta]\<rparr>"

definition da_flush :: "'vd delta_accumulator \<Rightarrow> 'vd delta_accumulator \<times> 'vd list option" where
  "da_flush da = (if da_buffer da = [] then (da, None)
                  else (da\<lparr>da_buffer := []\<rparr>, Some (da_buffer da)))"

definition da_len :: "'vd delta_accumulator \<Rightarrow> nat" where
  "da_len da = length (da_buffer da)"

definition da_is_empty :: "'vd delta_accumulator \<Rightarrow> bool" where
  "da_is_empty da \<longleftrightarrow> da_buffer da = []"

subsection \<open>Properties\<close>

text \<open>The decision table of the documentation, as a function of the push mode.\<close>

definition decision_table :: "push_mode option \<Rightarrow> bool \<Rightarrow> sync_urgency \<Rightarrow> sync_action" where
  "decision_table mode deltas urgency =
     (let broadcast = if deltas then BroadcastDelta else BroadcastSnapshot
      in if urgency = Immediate \<or> urgency = DefaultUrgency \<and> mode = Some ActivePush then broadcast
         else if urgency = DefaultUrgency \<and> mode = Some ActiveFeedLazyPull then NotifyChangeFeed
         else case urgency of Delayed d \<Rightarrow> ScheduleDelayedAction d | _ \<Rightarrow> SuppressAction)"

text \<open>
  the resolved action is the documented decision table: \<open>Immediate\<close> always broadcasts,
  \<open>Delayed\<close> schedules and \<open>Suppress\<close> is silent whatever the strategy, and only \<open>Default\<close> consults
  the push mode.
\<close>

theorem resolve_action_is_table:
  "resolve_action (sync_logic_new name strategy deltas) urgency =
     decision_table (st_push_mode strategy) deltas urgency"
  by (cases urgency) (auto simp: decision_table_def sync_logic_new_def broadcast_action_def Let_def
      split: option.splits push_mode.splits)

lemma da_fold: "da_buffer (fold da_accumulate ds da) = da_buffer da @ ds"
  by (induction ds arbitrary: da) (auto simp: da_accumulate_def)

text \<open>
  no suppressed delta is lost or reordered: a flush returns everything accumulated since the
  last flush, oldest first, and leaves the buffer empty, so a second flush returns nothing.
\<close>

theorem flush_returns_accumulated:
  "da_flush (fold da_accumulate (d # ds) da_new) = (da_new, Some (d # ds)) \<and>
   da_flush (da_new :: 'vd delta_accumulator) = (da_new, None) \<and>
   da_len (fold da_accumulate (d # ds) (da_new :: 'vd delta_accumulator)) = Suc (length ds)"
proof -
  let ?da = "fold da_accumulate (d # ds) da_new"
  have "da_buffer ?da = d # ds"
    by (simp only: da_fold da_new_def) simp
  then show ?thesis
    unfolding da_flush_def da_len_def by (simp add: da_new_def del: fold.simps)
qed

end
