(* ===== verification/Change_Feed.thy ===== *)
theory Change_Feed
  imports Types
begin

text \<open>
  \<open>dstate/src/core/change_feed_logic.rs\<close>: batching and deduplication of change notifications. The
  pending map keeps the highest generation per state name and source node.
\<close>

record change_feed_logic =
  cf_node_id :: node_id
  cf_pending :: "(string \<times> node_id, generation) hmap"

definition cf_new :: "node_id \<Rightarrow> change_feed_logic" where
  "cf_new node = \<lparr>cf_node_id = node, cf_pending = []\<rparr>"

definition notify_change ::
    "string \<Rightarrow> node_id \<Rightarrow> generation \<Rightarrow> change_feed_logic \<Rightarrow> change_feed_logic" where
  "notify_change name source gen cf =
     (case hm_get (cf_pending cf) (name, source) of
        Some existing \<Rightarrow>
          if gen > existing then cf\<lparr>cf_pending := hm_insert (name, source) gen (cf_pending cf)\<rparr>
          else cf
      | None \<Rightarrow> cf\<lparr>cf_pending := hm_insert (name, source) gen (cf_pending cf)\<rparr>)"

definition cf_flush :: "change_feed_logic \<Rightarrow> change_feed_logic \<times> batched_change_feed option" where
  "cf_flush cf =
     (if cf_pending cf = [] then (cf, None)
      else (cf\<lparr>cf_pending := []\<rparr>,
            Some \<lparr>bf_source_node = cf_node_id cf,
                  bf_notifications = map (\<lambda>((name, source), gen).
                    \<lparr>cn_state_name = name, cn_source_node = source, cn_generation = gen\<rparr>)
                    (cf_pending cf)\<rparr>))"

definition cf_pending_count :: "change_feed_logic \<Rightarrow> nat" where
  "cf_pending_count cf = length (cf_pending cf)"

definition route_inbound_batch ::
    "batched_change_feed \<Rightarrow> node_id \<Rightarrow> (string \<times> node_id \<times> generation) list" where
  "route_inbound_batch batch self_node_id =
     (if bf_source_node batch = self_node_id then []
      else map (\<lambda>n. (cn_state_name n, cn_source_node n, cn_generation n)) (bf_notifications batch))"

subsection \<open>Properties\<close>

definition cf_wf :: "change_feed_logic \<Rightarrow> bool" where
  "cf_wf cf \<longleftrightarrow> hm_wf (cf_pending cf)"

lemma cf_wf_new [wf_intros]: "cf_wf (cf_new n)"
  by (simp add: cf_wf_def cf_new_def)

lemma cf_wf_notify [wf_intros]: "cf_wf cf \<Longrightarrow> cf_wf (notify_change name source gen cf)"
  by (auto simp: cf_wf_def notify_change_def wf_intros split: option.splits)

lemma cf_wf_flush [wf_intros]: "cf_wf cf \<Longrightarrow> cf_wf (fst (cf_flush cf))"
  by (auto simp: cf_wf_def cf_flush_def)

lemma notify_change_frame [frame_simps]: "cf_node_id (notify_change name source gen cf) = cf_node_id cf"
  by (auto simp: notify_change_def split: option.splits)

lemma cf_flush_frame [frame_simps]: "cf_node_id (fst (cf_flush cf)) = cf_node_id cf"
  by (simp add: cf_flush_def)

text \<open>One notification as a value: the pending map is a register of maxima.\<close>

definition cf_notify :: "(string \<times> node_id) \<times> generation \<Rightarrow> change_feed_logic \<Rightarrow> change_feed_logic" where
  "cf_notify w cf = notify_change (fst (fst w)) (snd (fst w)) (snd w) cf"

definition cf_highest :: "change_feed_logic \<Rightarrow> string \<times> node_id \<Rightarrow> generation option" where
  "cf_highest cf k = hm_get (cf_pending cf) k"

interpretation feed: max_register fst snd cf_highest cf_notify cf_wf
proof unfold_locales
  fix cf :: change_feed_logic and w :: "(string \<times> node_id) \<times> generation"
  assume wf: "cf_wf cf"
  then show "cf_wf (cf_notify w cf)" by (simp add: cf_notify_def wf_intros)
  from wf show "cf_highest (cf_notify w cf) = (cf_highest cf)(fst w \<mapsto>
      (case cf_highest cf (fst w) of None \<Rightarrow> snd w | Some v \<Rightarrow> max v (snd w)))"
    by (auto simp: cf_highest_def [abs_def] cf_notify_def notify_change_def cf_wf_def lookup_simps
        fun_eq_iff max_def split: option.splits)
qed

lemma cf_notify_run_node: "cf_node_id (fold cf_notify ws cf) = cf_node_id cf"
  by (induction ws arbitrary: cf) (auto simp: cf_notify_def frame_simps)

lemma flush_route:
  assumes "cf_wf cf" and "cf_flush cf = (cf', Some batch)" and "self \<noteq> cf_node_id cf"
  shows "set (route_inbound_batch batch self) = {(n, s, g). cf_highest cf (n, s) = Some g}"
proof -
  have "hm_get (cf_pending cf) k = Some g \<longleftrightarrow> (k, g) \<in> set (cf_pending cf)" for k g
    using assms(1) by (simp add: cf_wf_def hm_get_in_set)
  then show ?thesis
    using assms(2,3) by (force simp: cf_flush_def route_inbound_batch_def cf_highest_def
        split: if_splits)
qed

text \<open>
  C30: the change feed deduplicates to the newest. After any non-empty sequence of notifications, the
  flushed batch, routed on another node, announces for every notified state and source exactly the
  highest generation notified, whatever the order; the node that sent the batch ignores it, and
  nothing is left pending.
\<close>

theorem change_feed_announces_maxima:
  assumes "ws \<noteq> []" and "self \<noteq> n"
  shows "\<exists>cf' batch. cf_flush (fold cf_notify ws (cf_new n)) = (cf', Some batch) \<and>
    cf_pending_count cf' = 0 \<and> route_inbound_batch batch n = [] \<and>
    set (route_inbound_batch batch self) =
      {(name, src, Max {g. ((name, src), g) \<in> set ws}) |name src. (name, src) \<in> fst ` set ws}"
proof -
  let ?cf = "fold cf_notify ws (cf_new n)"
  have wf: "cf_wf ?cf" by (rule feed.invar_run) (rule cf_wf_new)
  have written: "feed.written ws k = {g. (k, g) \<in> set ws}" for k
    unfolding feed.written_def by (rule set_eqI) (simp, metis fst_conv snd_conv prod.collapse)
  have empty: "{g. (k, g) \<in> set ws} = {} \<longleftrightarrow> k \<notin> fst ` set ws" for k
    by force
  have "cf_highest ?cf k = (if {g. (k, g) \<in> set ws} = {} then None else Some (Max {g. (k, g) \<in> set ws}))" for k
    using feed.run_max [OF cf_wf_new, of ws n k]
    by (simp only: written Let_def) (simp add: cf_highest_def cf_new_def)
  then have hi: "cf_highest ?cf k =
      (if k \<in> fst ` set ws then Some (Max {g. (k, g) \<in> set ws}) else None)" for k
    by (simp only: empty if_not_P if_P not_not split: if_splits) simp
  obtain w where "w \<in> set ws" using assms(1) by (cases ws) auto
  then have "cf_pending ?cf \<noteq> []"
    using hi [of "fst w"] by (auto simp: cf_highest_def)
  then obtain batch where flush: "cf_flush ?cf = (?cf\<lparr>cf_pending := []\<rparr>, Some batch)"
    and src: "bf_source_node batch = n"
    by (simp add: cf_flush_def cf_notify_run_node cf_new_def)
  have "set (route_inbound_batch batch self) = {(name, src, g). cf_highest ?cf (name, src) = Some g}"
    by (rule flush_route [OF wf flush]) (simp add: cf_notify_run_node cf_new_def assms(2))
  also have "\<dots> = {(name, src, Max {g. ((name, src), g) \<in> set ws}) |name src. (name, src) \<in> fst ` set ws}"
    by (auto simp: hi simp del: fst_conv split: if_splits)
  finally show ?thesis
    using flush src by (simp add: cf_pending_count_def route_inbound_batch_def)
qed

theorem change_feed_announces_maxima_witness:
  "\<exists>cf' batch. cf_flush (fold cf_notify [((''s'', ''a''), Generation 1 5), ((''s'', ''a''), Generation 1 3)]
       (cf_new ''a'')) = (cf', Some batch) \<and>
     cf_pending_count cf' = 0 \<and> route_inbound_batch batch ''a'' = [] \<and>
     set (route_inbound_batch batch ''b'') =
       {(name, src, Max {g. ((name, src), g) \<in>
           set [((''s'', ''a''), Generation 1 5), ((''s'', ''a''), Generation 1 3)]}) |name src.
         (name, src) \<in> fst ` set [((''s'', ''a''), Generation 1 5), ((''s'', ''a''), Generation 1 3)]}"
  by (rule change_feed_announces_maxima) simp_all

end
