(* ===== verification/Versioning.thy ===== *)
theory Versioning
  imports Types
begin

text \<open>
  \<open>dstate/src/core/versioning_logic.rs\<close>: what happens to an inbound message that cannot be
  deserialized, and how persisted data of another storage version is migrated. The deserializer and
  the migration are the functions the user of the crate supplies.
\<close>

datatype version_mismatch_action = KeepStale u32 string | DropView u32 string

datatype 'v inbound_version_result =
    InboundOk 'v
  | VersionMismatch version_mismatch_action
  | MalformedData string

record versioning_logic =
  vl_state_name :: string
  vl_policy :: version_mismatch_policy
  vl_current_wire_version :: u32
  vl_current_storage_version :: u32

definition versioning_new :: "string \<Rightarrow> version_mismatch_policy \<Rightarrow> u32 \<Rightarrow> u32 \<Rightarrow> versioning_logic" where
  "versioning_new name policy wire storage = \<lparr>vl_state_name = name, vl_policy = policy,
     vl_current_wire_version = wire, vl_current_storage_version = storage\<rparr>"

definition on_deserialize_error :: "versioning_logic \<Rightarrow> u32 \<Rightarrow> version_mismatch_action" where
  "on_deserialize_error vl wire_version =
     (let reason = ''state '' @ [CHR 0x27] @ vl_state_name vl @ [CHR 0x27] @
            '': received wire_version='' @ show_u32 wire_version @
            '', local outbound wire_version is '' @ show_u32 (vl_current_wire_version vl)
      in case vl_policy vl of
           KeepStalePolicy \<Rightarrow> KeepStale wire_version reason
         | DropAndWait \<Rightarrow> DropView wire_version reason)"

definition on_inbound ::
    "versioning_logic \<Rightarrow> bytes \<Rightarrow> u32 \<Rightarrow> (bytes \<Rightarrow> u32 \<Rightarrow> deserialize_error + 'v) \<Rightarrow>
     'v inbound_version_result" where
  "on_inbound vl data wire_version deserialize_fn =
     (case deserialize_fn data wire_version of
        Inr v \<Rightarrow> InboundOk v
      | Inl e \<Rightarrow>
          (case e of
             UnknownVersion v \<Rightarrow> VersionMismatch (on_deserialize_error vl v)
           | Malformed msg \<Rightarrow> MalformedData msg))"

definition try_load_with_migration ::
    "versioning_logic \<Rightarrow> bytes \<Rightarrow> u32 \<Rightarrow> (bytes \<Rightarrow> u32 \<Rightarrow> deserialize_error + 's) \<Rightarrow>
     (bytes \<Rightarrow> u32 \<Rightarrow> deserialize_error + 's) \<Rightarrow> deserialize_error + 's" where
  "try_load_with_migration vl data stored_version deserialize_fn migrate_fn =
     (if stored_version = vl_current_storage_version vl then deserialize_fn data stored_version
      else migrate_fn data stored_version)"

subsection \<open>Facts\<close>

lemma on_deserialize_error_policy:
  "(\<exists>r. on_deserialize_error vl v = KeepStale v r) \<longleftrightarrow> vl_policy vl = KeepStalePolicy"
  "(\<exists>r. on_deserialize_error vl v = DropView v r) \<longleftrightarrow> vl_policy vl = DropAndWait"
  by (cases "vl_policy vl"; simp add: on_deserialize_error_def Let_def)+

lemma on_inbound_ok: "on_inbound vl d v f = InboundOk x \<longleftrightarrow> f d v = Inr x"
  by (auto simp: on_inbound_def split: sum.splits deserialize_error.splits)

lemma on_inbound_error:
  "f d v = Inl (UnknownVersion w) \<Longrightarrow> on_inbound vl d v f = VersionMismatch (on_deserialize_error vl w)"
  "f d v = Inl (Malformed m) \<Longrightarrow> on_inbound vl d v f = MalformedData m"
  by (simp_all add: on_inbound_def)

end
