(* ===== verification/Lifecycle.thy ===== *)
theory Lifecycle
  imports Shard_Core
begin

text \<open>
  \<open>dstate/src/core/lifecycle_logic.rs\<close>: joins, departures and the set of departed nodes that keeps
  late messages from re-creating a removed view.
\<close>

datatype join_action = SendSnapshotToPeer node_id

datatype leave_action = PeerRemoved node_id

record lifecycle_logic =
  ll_departed_nodes :: "node_id set"

definition lifecycle_new :: lifecycle_logic where
  "lifecycle_new = \<lparr>ll_departed_nodes = {}\<rparr>"

definition ll_on_node_joined ::
    "clock_reading \<Rightarrow> node_id \<Rightarrow> 'v \<Rightarrow> lifecycle_logic \<times> ('s, 'v) shard_core \<Rightarrow>
     (lifecycle_logic \<times> ('s, 'v) shard_core) \<times> join_action list" where
  "ll_on_node_joined clock node default_view s =
     (case s of (ll, sh) \<Rightarrow>
       ((ll\<lparr>ll_departed_nodes := ll_departed_nodes ll - {node}\<rparr>,
         shard_on_node_joined clock node default_view sh), [SendSnapshotToPeer node]))"

definition ll_on_node_left ::
    "node_id \<Rightarrow> lifecycle_logic \<times> ('s, 'v) shard_core \<Rightarrow>
     (lifecycle_logic \<times> ('s, 'v) shard_core) \<times> leave_action" where
  "ll_on_node_left node s =
     (case s of (ll, sh) \<Rightarrow>
       ((ll\<lparr>ll_departed_nodes := insert node (ll_departed_nodes ll)\<rparr>, shard_on_node_left node sh),
        PeerRemoved node))"

definition ll_should_accept_from :: "lifecycle_logic \<Rightarrow> node_id \<Rightarrow> bool" where
  "ll_should_accept_from ll node \<longleftrightarrow> node \<notin> ll_departed_nodes ll"

definition is_departed :: "lifecycle_logic \<Rightarrow> node_id \<Rightarrow> bool" where
  "is_departed ll node \<longleftrightarrow> node \<in> ll_departed_nodes ll"

definition departed_count :: "lifecycle_logic \<Rightarrow> nat" where
  "departed_count ll = card (ll_departed_nodes ll)"

text \<open>A departed node other than the local one has no entry in the view map.\<close>

definition no_ghosts :: "lifecycle_logic \<Rightarrow> ('s, 'v) shard_core \<Rightarrow> bool" where
  "no_ghosts ll sh \<longleftrightarrow>
     (\<forall>n \<in> ll_departed_nodes ll. n \<noteq> sh_node_id sh \<longrightarrow> get_view sh n = None)"

lemma no_ghosts_joined:
  assumes "shard_wf sh" and "no_ghosts ll sh"
  shows "no_ghosts (fst (fst (ll_on_node_joined c n dv (ll, sh))))
    (snd (fst (ll_on_node_joined c n dv (ll, sh))))"
  using assms by (auto simp: no_ghosts_def ll_on_node_joined_def lookup_simps frame_simps)

lemma no_ghosts_left:
  assumes "shard_wf sh" and "no_ghosts ll sh"
  shows "no_ghosts (fst (fst (ll_on_node_left n (ll, sh)))) (snd (fst (ll_on_node_left n (ll, sh))))"
  using assms by (auto simp: no_ghosts_def ll_on_node_left_def lookup_simps frame_simps)

end
