(* ===== verification/Diagnostics.thy ===== *)
theory Diagnostics
  imports Shard_Core
begin

text \<open>
  \<open>dstate/src/core/diagnostics.rs\<close>: counters, per-peer diagnostics and the health classification.
  The \<open>tracing\<close> calls have no effect on the state and are left out.
\<close>

record peer_sync_status =
  ps_node_id :: node_id
  ps_local_age :: u64
  ps_remote_age :: "u64 option"
  ps_gap_count :: u64
  ps_consecutive_failures :: u32
  ps_last_sync_time :: "i64 option"
  ps_last_attempt_time :: "i64 option"
  ps_last_error :: "string option"
  ps_last_sync_latency_ms :: "u64 option"

record state_sync_metrics =
  m_total_mutations :: u64
  m_deltas_sent :: u64
  m_deltas_received :: u64
  m_snapshots_sent :: u64
  m_snapshots_received :: u64
  m_deltas_suppressed :: u64
  m_deltas_immediate :: u64
  m_sync_failures :: u64
  m_age_gaps_detected :: u64
  m_stale_deltas_discarded :: u64

definition metrics_default :: state_sync_metrics where
  "metrics_default = \<lparr>m_total_mutations = 0, m_deltas_sent = 0, m_deltas_received = 0,
     m_snapshots_sent = 0, m_snapshots_received = 0, m_deltas_suppressed = 0,
     m_deltas_immediate = 0, m_sync_failures = 0, m_age_gaps_detected = 0,
     m_stale_deltas_discarded = 0\<rparr>"

datatype health_status = Healthy | Degraded | Unhealthy

record state_health =
  h_state_name :: string
  h_healthy_peers :: u32
  h_stale_peers :: u32
  h_failing_peers :: u32
  h_status :: health_status

record peer_diagnostics =
  pd_consecutive_failures :: u32
  pd_gap_count :: u64
  pd_last_sync_time :: "i64 option"
  pd_last_attempt_time :: "i64 option"
  pd_last_error :: "string option"
  pd_last_sync_latency_ms :: "u64 option"

definition peer_diagnostics_default :: peer_diagnostics where
  "peer_diagnostics_default = \<lparr>pd_consecutive_failures = 0, pd_gap_count = 0,
     pd_last_sync_time = None, pd_last_attempt_time = None, pd_last_error = None,
     pd_last_sync_latency_ms = None\<rparr>"

record diagnostics_logic =
  d_state_name :: string
  d_metrics :: state_sync_metrics
  d_peers :: "(node_id, peer_diagnostics) hmap"

definition diagnostics_new :: "string \<Rightarrow> diagnostics_logic" where
  "diagnostics_new name = \<lparr>d_state_name = name, d_metrics = metrics_default, d_peers = []\<rparr>"

subsection \<open>Recording\<close>

text \<open>\<open>self.peers.entry(peer).or_default()\<close> followed by an in-place change.\<close>

definition modify_peer ::
    "node_id \<Rightarrow> (peer_diagnostics \<Rightarrow> peer_diagnostics) \<Rightarrow> diagnostics_logic \<Rightarrow> diagnostics_logic" where
  "modify_peer peer f d =
     (let diag = (case hm_get (d_peers d) peer of Some x \<Rightarrow> x | None \<Rightarrow> peer_diagnostics_default)
      in d\<lparr>d_peers := hm_insert peer (f diag) (d_peers d)\<rparr>)"

definition record_sync_success ::
    "node_id \<Rightarrow> u64 \<Rightarrow> clock_reading \<Rightarrow> diagnostics_logic \<Rightarrow> diagnostics_logic" where
  "record_sync_success peer latency_ms clock d =
     modify_peer peer (\<lambda>diag. diag\<lparr>pd_consecutive_failures := 0,
       pd_last_sync_time := Some (clk_unix_ms clock), pd_last_attempt_time := Some (clk_unix_ms clock),
       pd_last_error := None, pd_last_sync_latency_ms := Some latency_ms\<rparr>) d"

definition record_sync_failure ::
    "node_id \<Rightarrow> string \<Rightarrow> clock_reading \<Rightarrow> diagnostics_logic \<Rightarrow> diagnostics_logic" where
  "record_sync_failure peer error clock d =
     (let d = modify_peer peer (\<lambda>diag. diag\<lparr>
            pd_consecutive_failures := pd_consecutive_failures diag + 1,
            pd_last_attempt_time := Some (clk_unix_ms clock), pd_last_error := Some error\<rparr>) d
      in d\<lparr>d_metrics := (d_metrics d)\<lparr>m_sync_failures := m_sync_failures (d_metrics d) + 1\<rparr>\<rparr>)"

definition record_gap_detected :: "node_id \<Rightarrow> diagnostics_logic \<Rightarrow> diagnostics_logic" where
  "record_gap_detected peer d =
     (let d = modify_peer peer (\<lambda>diag. diag\<lparr>pd_gap_count := pd_gap_count diag + 1\<rparr>) d
      in d\<lparr>d_metrics := (d_metrics d)\<lparr>m_age_gaps_detected := m_age_gaps_detected (d_metrics d) + 1\<rparr>\<rparr>)"

definition record_mutation :: "diagnostics_logic \<Rightarrow> diagnostics_logic" where
  "record_mutation d =
     d\<lparr>d_metrics := (d_metrics d)\<lparr>m_total_mutations := m_total_mutations (d_metrics d) + 1\<rparr>\<rparr>"

definition record_delta_sent :: "diagnostics_logic \<Rightarrow> diagnostics_logic" where
  "record_delta_sent d =
     d\<lparr>d_metrics := (d_metrics d)\<lparr>m_deltas_sent := m_deltas_sent (d_metrics d) + 1\<rparr>\<rparr>"

definition record_delta_received ::
    "node_id \<Rightarrow> u64 \<Rightarrow> clock_reading \<Rightarrow> diagnostics_logic \<Rightarrow> diagnostics_logic" where
  "record_delta_received peer latency_ms clock d =
     record_sync_success peer latency_ms clock
       (d\<lparr>d_metrics := (d_metrics d)\<lparr>m_deltas_received := m_deltas_received (d_metrics d) + 1\<rparr>\<rparr>)"

definition record_snapshot_sent :: "diagnostics_logic \<Rightarrow> diagnostics_logic" where
  "record_snapshot_sent d =
     d\<lparr>d_metrics := (d_metrics d)\<lparr>m_snapshots_sent := m_snapshots_sent (d_metrics d) + 1\<rparr>\<rparr>"

definition record_snapshot_received ::
    "node_id \<Rightarrow> u64 \<Rightarrow> clock_reading \<Rightarrow> diagnostics_logic \<Rightarrow> diagnostics_logic" where
  "record_snapshot_received peer latency_ms clock d =
     record_sync_success peer latency_ms clock
       (d\<lparr>d_metrics := (d_metrics d)\<lparr>m_snapshots_received := m_snapshots_received (d_metrics d) + 1\<rparr>\<rparr>)"

definition record_delta_suppressed :: "diagnostics_logic \<Rightarrow> diagnostics_logic" where
  "record_delta_suppressed d =
     d\<lparr>d_metrics := (d_metrics d)\<lparr>m_deltas_suppressed := m_deltas_suppressed (d_metrics d) + 1\<rparr>\<rparr>"

definition record_delta_immediate :: "diagnostics_logic \<Rightarrow> diagnostics_logic" where
  "record_delta_immediate d =
     d\<lparr>d_metrics := (d_metrics d)\<lparr>m_deltas_immediate := m_deltas_immediate (d_metrics d) + 1\<rparr>\<rparr>"

definition record_stale_delta_discarded :: "diagnostics_logic \<Rightarrow> diagnostics_logic" where
  "record_stale_delta_discarded d =
     d\<lparr>d_metrics := (d_metrics d)\<lparr>m_stale_deltas_discarded := m_stale_deltas_discarded (d_metrics d) + 1\<rparr>\<rparr>"

definition diag_remove_peer :: "node_id \<Rightarrow> diagnostics_logic \<Rightarrow> diagnostics_logic" where
  "diag_remove_peer peer d = d\<lparr>d_peers := hm_remove peer (d_peers d)\<rparr>"

subsection \<open>Status and health\<close>

definition sync_status :: "('s, 'v) shard_core \<Rightarrow> diagnostics_logic \<Rightarrow> peer_sync_status list" where
  "sync_status sh d = map (\<lambda>(node, view).
     (let diag = hm_get (d_peers d) node
      in \<lparr>ps_node_id = node, ps_local_age = age (sv_generation view),
          ps_remote_age = map_option age (sv_pending_remote_generation view),
          ps_gap_count = (case diag of None \<Rightarrow> 0 | Some x \<Rightarrow> pd_gap_count x),
          ps_consecutive_failures = (case diag of None \<Rightarrow> 0 | Some x \<Rightarrow> pd_consecutive_failures x),
          ps_last_sync_time = Option.bind diag pd_last_sync_time,
          ps_last_attempt_time = Option.bind diag pd_last_attempt_time,
          ps_last_error = Option.bind diag pd_last_error,
          ps_last_sync_latency_ms = Option.bind diag pd_last_sync_latency_ms\<rparr>)) (shard_snapshot sh)"

text \<open>The counters of the loop of \<open>health_status\<close>: healthy, stale, failing, total.\<close>

type_synonym health_counts = "u32 \<times> u32 \<times> u32 \<times> u32"

definition peer_is_stale :: "instant \<Rightarrow> duration \<Rightarrow> 'v state_view_object \<Rightarrow> bool" where
  "peer_is_stale now max_staleness view \<longleftrightarrow>
     sv_pending_remote_generation view \<noteq> None \<or>
     (case checked_duration_since now (sv_synced_at view) of
        None \<Rightarrow> False | Some d \<Rightarrow> d > max_staleness)"

definition peer_is_failing :: "diagnostics_logic \<Rightarrow> node_id \<Rightarrow> bool" where
  "peer_is_failing d node \<longleftrightarrow>
     (case hm_get (d_peers d) node of None \<Rightarrow> False | Some x \<Rightarrow> pd_consecutive_failures x > 0)"

fun count_health ::
    "diagnostics_logic \<Rightarrow> node_id \<Rightarrow> instant \<Rightarrow> duration \<Rightarrow> (node_id, 'v state_view_object) hmap \<Rightarrow>
     health_counts \<Rightarrow> health_counts" where
  "count_health d local_id now max_staleness [] acc = acc"
| "count_health d local_id now max_staleness ((node, view) # rest) (healthy, stale, failing, total_peers) =
     count_health d local_id now max_staleness rest
       (if node = local_id then (healthy, stale, failing, total_peers)
        else
          let total_peers = total_peers + 1;
              is_stale = peer_is_stale now max_staleness view;
              is_failing = peer_is_failing d node
          in if is_stale \<or> is_failing
             then (healthy, if is_stale then stale + 1 else stale,
                   if is_failing then failing + 1 else failing, total_peers)
             else (healthy + 1, stale, failing, total_peers))"

definition diag_health_status ::
    "('s, 'v) shard_core \<Rightarrow> duration \<Rightarrow> clock_reading \<Rightarrow> diagnostics_logic \<Rightarrow> state_health" where
  "diag_health_status sh max_staleness clock d =
     (case count_health d (sh_node_id sh) (clk_now clock) max_staleness (shard_snapshot sh) (0, 0, 0, 0) of
        (healthy, stale, failing, total_peers) \<Rightarrow>
          \<lparr>h_state_name = d_state_name d, h_healthy_peers = healthy, h_stale_peers = stale,
           h_failing_peers = failing,
           h_status = (if stale = 0 \<and> failing = 0 then Healthy
                       else if total_peers > 0 \<and> healthy > total_peers div 2 then Degraded
                       else Unhealthy)\<rparr>)"

subsection \<open>Health\<close>

text \<open>The peers of a shard, and those with a failure streak.\<close>

definition peers_of :: "('s, 'v) shard_core \<Rightarrow> node_id set" where
  "peers_of sh = {n. n \<noteq> sh_node_id sh \<and> get_view sh n \<noteq> None}"

definition failing_peers :: "diagnostics_logic \<Rightarrow> ('s, 'v) shard_core \<Rightarrow> node_id set" where
  "failing_peers d sh = {n \<in> peers_of sh. peer_is_failing d n}"

lemma peer_is_stale_eq: "peer_is_stale now m v = view_is_stale now m v"
  by (auto simp: peer_is_stale_def view_is_stale_def checked_duration_since_def duration_since_def
      split: option.splits if_splits)

lemma count_health_eq:
  "count_health d own now m xs (h, s, f, t) =
     (let ps = filter (\<lambda>(n, v). n \<noteq> own) xs
      in (h + of_nat (length (filter (\<lambda>(n, v). \<not> peer_is_stale now m v \<and> \<not> peer_is_failing d n) ps)),
          s + of_nat (length (filter (\<lambda>(n, v). peer_is_stale now m v) ps)),
          f + of_nat (length (filter (\<lambda>(n, v). peer_is_failing d n) ps)),
          t + of_nat (length ps)))"
proof (induction xs arbitrary: h s f t)
  case (Cons p xs)
  obtain n v where p: "p = (n, v)" by (cases p)
  show ?case
    by (cases "n = own"; cases "peer_is_stale now m v"; cases "peer_is_failing d n")
      (simp_all add: p Cons.IH Let_def)
qed (simp add: Let_def)

lemma length_filter_snapshot:
  assumes "shard_wf sh"
  shows "length (filter (\<lambda>(n, v). Q n v) (filter (\<lambda>(n, v). n \<noteq> sh_node_id sh) (shard_snapshot sh))) =
    card {n. n \<noteq> sh_node_id sh \<and> (\<exists>v. get_view sh n = Some v \<and> Q n v)}"
proof -
  let ?xs = "filter (\<lambda>(n, v). Q n v) (filter (\<lambda>(n, v). n \<noteq> sh_node_id sh) (shard_snapshot sh))"
  have wf: "vm_wf (sh_views sh)" using assms by simp
  have "distinct (map fst ?xs)"
    using hm_wf_snapshot [OF wf] by (simp add: shard_snapshot_def hm_wf_def distinct_map_filter)
  moreover have "fst ` set ?xs = {n. n \<noteq> sh_node_id sh \<and> (\<exists>v. get_view sh n = Some v \<and> Q n v)}"
    by (force simp: get_view_def shard_snapshot_def set_snapshot_iff [OF wf])
  ultimately show ?thesis using distinct_card [of "map fst ?xs"] by simp
qed

definition healthy_peers :: "diagnostics_logic \<Rightarrow> ('s, 'v) shard_core \<Rightarrow> duration \<Rightarrow> clock_reading \<Rightarrow> node_id set" where
  "healthy_peers d sh m c = peers_of sh - stale_nodes sh m c - failing_peers d sh"

lemma peer_set_eqs:
  "{n. n \<noteq> sh_node_id sh \<and> (\<exists>v. get_view sh n = Some v \<and> True)} = peers_of sh"
  "{n. n \<noteq> sh_node_id sh \<and> (\<exists>v. get_view sh n = Some v \<and> peer_is_stale (clk_now c) m v)} = stale_nodes sh m c"
  "{n. n \<noteq> sh_node_id sh \<and> (\<exists>v. get_view sh n = Some v \<and> peer_is_failing d n)} = failing_peers d sh"
  "{n. n \<noteq> sh_node_id sh \<and> (\<exists>v. get_view sh n = Some v \<and> \<not> peer_is_stale (clk_now c) m v \<and>
     \<not> peer_is_failing d n)} = healthy_peers d sh m c"
  by (auto simp: peers_of_def stale_nodes_def failing_peers_def healthy_peers_def peer_is_stale_eq
      view_is_stale_def duration_since_def)

lemma health_counts:
  assumes "shard_wf sh"
  shows "count_health d (sh_node_id sh) (clk_now c) m (shard_snapshot sh) (0, 0, 0, 0) =
    (of_nat (card (healthy_peers d sh m c)), of_nat (card (stale_nodes sh m c)),
     of_nat (card (failing_peers d sh)), of_nat (card (peers_of sh)))"
proof -
  let ?ps = "filter (\<lambda>(n, v). n \<noteq> sh_node_id sh) (shard_snapshot sh)"
  note len = length_filter_snapshot [OF assms]
  have "length ?ps = card (peers_of sh)"
    using len [of "\<lambda>n v. True"] by (simp add: case_prod_unfold peers_of_def)
  moreover have "length (filter (\<lambda>(n, v). peer_is_stale (clk_now c) m v) ?ps) = card (stale_nodes sh m c)"
    using len [of "\<lambda>n v. peer_is_stale (clk_now c) m v"] by (simp only: peer_set_eqs)
  moreover have "length (filter (\<lambda>(n, v). peer_is_failing d n) ?ps) = card (failing_peers d sh)"
    using len [of "\<lambda>n v. peer_is_failing d n"] by (simp only: peer_set_eqs)
  moreover have "length (filter (\<lambda>(n, v). \<not> peer_is_stale (clk_now c) m v \<and> \<not> peer_is_failing d n) ?ps) =
      card (healthy_peers d sh m c)"
    using len [of "\<lambda>n v. \<not> peer_is_stale (clk_now c) m v \<and> \<not> peer_is_failing d n"] by (simp only: peer_set_eqs)
  ultimately show ?thesis by (simp only: count_health_eq Let_def add_0)
qed

lemma finite_peers: "shard_wf sh \<Longrightarrow> finite (peers_of sh)"
  using hm.finite_dom_lookup [OF hm_wf_snapshot, of "sh_views sh"]
  by (rule finite_subset [rotated]) (auto simp: peers_of_def get_view_def lookup_simps dom_def)

lemma card_peers_le: "shard_wf sh \<Longrightarrow> card (peers_of sh) \<le> view_count sh"
  unfolding view_count_def vm_len_card [OF shard_wf_vm]
  by (rule card_mono) (auto simp: peers_of_def get_view_def vm_len_card
      intro: finite_subset [OF _ hm.finite_dom_lookup [OF hm_wf_snapshot, of "sh_views sh"]] simp: lookup_simps)

lemma half_iff: "t < (2::nat) ^ 32 \<Longrightarrow> h \<le> t \<Longrightarrow>
  (of_nat t :: u32) > 0 \<and> (of_nat h :: u32) > of_nat t div 2 \<longleftrightarrow> t < 2 * h"
  by (auto simp: word_less_nat_alt unat_div unat_of_nat)

text \<open>
  C31: the health classification is a strict majority vote, on the staleness the queries use. The
  reported counts are the numbers of stale peers (as a query at the same bound reports them), of peers
  with a failure streak, and of peers with neither; the status is \<open>Healthy\<close> when the first two are
  empty, otherwise \<open>Degraded\<close> when the healthy peers are more than half of all peers, and \<open>Unhealthy\<close>
  else. The counters are 32 bits wide, so fewer than \<open>2 ^ 32\<close> entries are assumed.
\<close>

theorem health_is_strict_majority:
  assumes "shard_wf sh" and "view_count sh < 2 ^ 32"
  shows "unat (h_stale_peers (diag_health_status sh m c d)) = card (stale_nodes sh m c) \<and>
    unat (h_failing_peers (diag_health_status sh m c d)) = card (failing_peers d sh) \<and>
    unat (h_healthy_peers (diag_health_status sh m c d)) = card (healthy_peers d sh m c) \<and>
    h_status (diag_health_status sh m c d) =
      (if stale_nodes sh m c = {} \<and> failing_peers d sh = {} then Healthy
       else if card (peers_of sh) < 2 * card (healthy_peers d sh m c) then Degraded else Unhealthy)"
proof -
  have sub: "stale_nodes sh m c \<subseteq> peers_of sh" "failing_peers d sh \<subseteq> peers_of sh"
    "healthy_peers d sh m c \<subseteq> peers_of sh"
    by (auto simp: stale_nodes_def failing_peers_def healthy_peers_def peers_of_def)
  note fin = finite_peers [OF assms(1)]
  have T: "card (peers_of sh) < 2 ^ 32" using card_peers_le [OF assms(1)] assms(2) by simp
  have un: "unat (of_nat (card X) :: u32) = card X" if "X \<subseteq> peers_of sh" for X
    using card_mono [OF fin that] T by (simp add: unat_of_nat)
  have zero: "(of_nat (card X) :: u32) = 0 \<longleftrightarrow> X = {}" if "X \<subseteq> peers_of sh" for X
    using un [OF that] card_0_eq [OF finite_subset [OF that fin]] by (simp only: unat_0_iff [symmetric])
  show ?thesis
    using un [OF sub(1)] un [OF sub(2)] un [OF sub(3)] half_iff [OF T card_mono [OF fin sub(3)]]
    by (simp add: diag_health_status_def health_counts [OF assms(1)] zero [OF sub(1)] zero [OF sub(2)])
qed

theorem health_is_strict_majority_witness:
  "h_status (diag_health_status (shard_on_node_joined demo_clock ''b'' 0 demo_shard) 5 demo_clock
     (diagnostics_new ''s'')) = Unhealthy"
proof -
  let ?sh = "shard_on_node_joined demo_clock ''b'' 0 demo_shard"
  have wf: "shard_wf ?sh" by (simp add: demo_shard_wf wf_intros)
  have count: "view_count ?sh < 2 ^ 32"
  proof -
    have "view_count ?sh = 2" by code_simp
    then show ?thesis by simp
  qed
  have view: "get_view demo_shard ''b'' = None" "sh_node_id demo_shard = ''a''"
    by (simp_all add: demo_shard_def lookup_simps) (simp add: shard_new_def Let_def)
  have "get_view ?sh n \<noteq> None \<longleftrightarrow> n = ''a'' \<or> n = ''b''" for n
    using view demo_shard_wf by (simp add: lookup_simps) (simp add: demo_shard_def lookup_simps)
  then have p: "peers_of ?sh = {''b''}"
    using view by (auto simp: peers_of_def frame_simps)
  moreover have "''b'' \<in> stale_nodes ?sh 5 demo_clock"
    using view demo_shard_wf by (simp add: stale_nodes_def lookup_simps frame_simps)
  ultimately have "stale_nodes ?sh 5 demo_clock \<noteq> {}" "healthy_peers (diagnostics_new ''s'') ?sh 5 demo_clock = {}"
    by (auto simp: healthy_peers_def)
  then show ?thesis
    using health_is_strict_majority [OF wf count, of 5 demo_clock "diagnostics_new ''s''"] p by simp
qed

end
