(* ===== verification/Engine.thy ===== *)
theory Engine
  imports Sync_Logic Change_Feed Versioning Lifecycle Diagnostics
begin

text \<open>
  \<open>dstate/src/engine.rs\<close>: \<open>DistributedStateEngine\<close>, which composes the shard, the sync logic, the
  change feed, versioning, lifecycle and diagnostics. An operation takes the engine and the clock
  reading it sees, and returns the new engine with its result; outbound effects are the returned
  actions. The view codec and the delta applier are the function fields of the struct. The only
  panic of the file is the \<open>expect\<close> of \<open>own_view_value\<close>: operations that reach it return a sum.
\<close>

subsection \<open>Public types\<close>

datatype wire_message = Sync sync_message | Feed batched_change_feed

datatype engine_action =
    BroadcastSync sync_message
  | SendSync node_id sync_message
  | ScheduleDelayed duration sync_message

record 'v mutate_result =
  mr_generation :: generation
  mr_view :: 'v
  mr_actions :: "engine_action list"

record ('v, 'vd) delta_mutate_result =
  dmr_generation :: generation
  dmr_view :: 'v
  dmr_view_delta :: 'vd
  dmr_actions :: "engine_action list"

datatype 'r engine_query_result = EngineFresh 'r | EngineStale 'r "node_id list"

datatype engine_health_status = EngineHealthy | EngineDegraded | EngineUnhealthy

record sync_metrics =
  em_total_mutations :: u64
  em_deltas_sent :: u64
  em_deltas_received :: u64
  em_snapshots_sent :: u64
  em_snapshots_received :: u64
  em_deltas_suppressed :: u64
  em_deltas_immediate :: u64
  em_sync_failures :: u64
  em_age_gaps_detected :: u64
  em_stale_deltas_discarded :: u64

record engine_health =
  eh_state_name :: string
  eh_healthy_peers :: u32
  eh_stale_peers :: u32
  eh_failing_peers :: u32
  eh_status :: engine_health_status

datatype engine_panic = OwnViewMissing

type_synonym 'v inbound_delta_applier = "bytes \<Rightarrow> u32 \<Rightarrow> 'v \<Rightarrow> deserialize_error + 'v"

record ('s, 'v) engine =
  eng_state_name :: string
  eng_wire_version :: u32
  eng_shard :: "('s, 'v) shard_core"
  eng_sync_logic :: sync_logic
  eng_change_feed :: change_feed_logic
  eng_versioning :: versioning_logic
  eng_lifecycle :: lifecycle_logic
  eng_diagnostics :: diagnostics_logic
  eng_serialize_view :: "'v \<Rightarrow> bytes"
  eng_deserialize_view :: "bytes \<Rightarrow> u32 \<Rightarrow> deserialize_error + 'v"
  eng_inbound_delta_applier :: "'v inbound_delta_applier option"

subsection \<open>Construction\<close>

definition engine_new ::
    "string \<Rightarrow> node_id \<Rightarrow> 's \<Rightarrow> ('s \<Rightarrow> 'v) \<Rightarrow> state_config \<Rightarrow> u32 \<Rightarrow> clock_reading \<Rightarrow> ('v \<Rightarrow> bytes) \<Rightarrow>
     (bytes \<Rightarrow> u32 \<Rightarrow> deserialize_error + 'v) \<Rightarrow> 'v inbound_delta_applier option \<Rightarrow>
     ('s, 'v) engine" where
  "engine_new name node initial_value project_initial config wire clock serialize_view
     deserialize_view applier =
     (let supports_delta = applier \<noteq> None;
          state = new_state_object initial_value (clk_unix_ms clock) clock;
          initial_view = project_initial (so_value state)
      in \<lparr>eng_state_name = name, eng_wire_version = wire,
          eng_shard = shard_new node state initial_view clock,
          eng_sync_logic = sync_logic_new name (sc_sync_strategy config) supports_delta,
          eng_change_feed = cf_new node,
          eng_versioning = versioning_new name (sc_version_mismatch_policy config) wire 1,
          eng_lifecycle = lifecycle_new,
          eng_diagnostics = diagnostics_new name,
          eng_serialize_view = serialize_view, eng_deserialize_view = deserialize_view,
          eng_inbound_delta_applier = applier\<rparr>)"

subsection \<open>Internal helpers\<close>

abbreviation eng_node_id :: "('s, 'v) engine \<Rightarrow> node_id" where
  "eng_node_id e \<equiv> sh_node_id (eng_shard e)"

definition with_diagnostics ::
    "(diagnostics_logic \<Rightarrow> diagnostics_logic) \<Rightarrow> ('s, 'v) engine \<Rightarrow> ('s, 'v) engine" where
  "with_diagnostics f e = e\<lparr>eng_diagnostics := f (eng_diagnostics e)\<rparr>"

definition own_view_value :: "('s, 'v) engine \<Rightarrow> engine_panic + 'v" where
  "own_view_value e =
     (case get_view (eng_shard e) (eng_node_id e) of
        Some vo \<Rightarrow> Inr (sv_value vo)
      | None \<Rightarrow> Inl OwnViewMissing)"

definition make_snapshot_request :: "('s, 'v) engine \<Rightarrow> node_id \<Rightarrow> engine_action" where
  "make_snapshot_request e target =
     SendSync target (RequestSnapshot (eng_state_name e) (eng_node_id e))"

text \<open>The \<open>FullSnapshot\<close> and \<open>DeltaUpdate\<close> messages every sending path of the engine builds.\<close>

definition own_full_snapshot :: "('s, 'v) engine \<Rightarrow> bytes \<Rightarrow> sync_message" where
  "own_full_snapshot e data = FullSnapshot (eng_state_name e) (eng_node_id e)
     (so_generation (sh_state (eng_shard e))) (eng_wire_version e) data"

definition own_delta_update :: "('s, 'v) engine \<Rightarrow> bytes \<Rightarrow> sync_message" where
  "own_delta_update e data = DeltaUpdate (eng_state_name e) (eng_node_id e)
     (so_generation (sh_state (eng_shard e))) (eng_wire_version e) data"

definition notify_own_change :: "('s, 'v) engine \<Rightarrow> ('s, 'v) engine" where
  "notify_own_change e = e\<lparr>eng_change_feed := notify_change (eng_state_name e) (eng_node_id e)
     (so_generation (sh_state (eng_shard e))) (eng_change_feed e)\<rparr>"

fun sync_action_to_engine_actions_snapshot ::
    "sync_action \<Rightarrow> 'v \<Rightarrow> ('s, 'v) engine \<Rightarrow> ('s, 'v) engine \<times> engine_action list" where
  "sync_action_to_engine_actions_snapshot BroadcastSnapshot view e =
     (let data = eng_serialize_view e view
      in (with_diagnostics record_snapshot_sent e, [BroadcastSync (own_full_snapshot e data)]))"
| "sync_action_to_engine_actions_snapshot BroadcastDelta view e =
     (let data = eng_serialize_view e view
      in (with_diagnostics record_snapshot_sent e, [BroadcastSync (own_full_snapshot e data)]))"
| "sync_action_to_engine_actions_snapshot NotifyChangeFeed view e = (notify_own_change e, [])"
| "sync_action_to_engine_actions_snapshot (ScheduleDelayedAction delay) view e =
     (let data = eng_serialize_view e view
      in (with_diagnostics record_snapshot_sent e,
          [ScheduleDelayed delay (own_full_snapshot e data)]))"
| "sync_action_to_engine_actions_snapshot SuppressAction view e =
     (with_diagnostics record_delta_suppressed e, [])"

fun sync_action_to_engine_actions_delta ::
    "sync_action \<Rightarrow> 'v \<Rightarrow> 'vd \<Rightarrow> ('vd \<Rightarrow> bytes) \<Rightarrow> ('s, 'v) engine \<Rightarrow>
     ('s, 'v) engine \<times> engine_action list" where
  "sync_action_to_engine_actions_delta BroadcastDelta view view_delta serialize_delta e =
     (let data = serialize_delta view_delta
      in (with_diagnostics (record_delta_immediate \<circ> record_delta_sent) e,
          [BroadcastSync (own_delta_update e data)]))"
| "sync_action_to_engine_actions_delta BroadcastSnapshot view view_delta serialize_delta e =
     (let data = eng_serialize_view e view
      in (with_diagnostics record_snapshot_sent e, [BroadcastSync (own_full_snapshot e data)]))"
| "sync_action_to_engine_actions_delta NotifyChangeFeed view view_delta serialize_delta e =
     (notify_own_change e, [])"
| "sync_action_to_engine_actions_delta (ScheduleDelayedAction delay) view view_delta serialize_delta e =
     (let data = serialize_delta view_delta
      in (with_diagnostics record_delta_sent e,
          [ScheduleDelayed delay (own_delta_update e data)]))"
| "sync_action_to_engine_actions_delta SuppressAction view view_delta serialize_delta e =
     (with_diagnostics record_delta_suppressed e, [])"

subsection \<open>Mutation\<close>

definition mutate ::
    "clock_reading \<Rightarrow> ('s \<Rightarrow> 's) \<Rightarrow> ('s \<Rightarrow> 'v) \<Rightarrow> sync_urgency \<Rightarrow> ('s, 'v) engine \<Rightarrow>
     ('s, 'v) engine \<times> 'v mutate_result" where
  "mutate clock mutate_fn project_fn urgency e =
     (let (sh, outcome) = apply_mutation clock mutate_fn project_fn (eng_shard e);
          e = with_diagnostics record_mutation (e\<lparr>eng_shard := sh\<rparr>);
          sync_action = resolve_action (eng_sync_logic e) urgency;
          (e, actions) = sync_action_to_engine_actions_snapshot sync_action (mo_view outcome) e
      in (e, \<lparr>mr_generation = mo_generation outcome, mr_view = mo_view outcome,
              mr_actions = actions\<rparr>))"

definition mutate_with_delta ::
    "clock_reading \<Rightarrow> ('s \<Rightarrow> 's \<times> 'dc) \<Rightarrow> ('s \<Rightarrow> 'v) \<Rightarrow> ('dc \<Rightarrow> 'vd) \<Rightarrow> sync_urgency \<Rightarrow>
     ('vd \<Rightarrow> bytes) \<Rightarrow> ('s, 'v) engine \<Rightarrow> ('s, 'v) engine \<times> ('v, 'vd) delta_mutate_result" where
  "mutate_with_delta clock mutate_fn project_view_fn project_delta_fn urgency serialize_delta e =
     (let (sh, outcome) =
            apply_mutation_with_delta clock mutate_fn project_view_fn project_delta_fn (eng_shard e);
          e = with_diagnostics record_mutation (e\<lparr>eng_shard := sh\<rparr>);
          sync_action = resolve_action (eng_sync_logic e) urgency;
          (e, actions) = sync_action_to_engine_actions_delta sync_action (dmo_view outcome)
             (dmo_view_delta outcome) serialize_delta e
      in (e, \<lparr>dmr_generation = dmo_generation outcome, dmr_view = dmo_view outcome,
              dmr_view_delta = dmo_view_delta outcome, dmr_actions = actions\<rparr>))"

subsection \<open>Inbound handling\<close>

definition handle_full_snapshot ::
    "clock_reading \<Rightarrow> string \<Rightarrow> node_id \<Rightarrow> generation \<Rightarrow> u32 \<Rightarrow> bytes \<Rightarrow> ('s, 'v) engine \<Rightarrow>
     ('s, 'v) engine \<times> engine_action list" where
  "handle_full_snapshot clock name source gen wire data e =
     (if name \<noteq> eng_state_name e then (e, [])
      else if \<not> ll_should_accept_from (eng_lifecycle e) source then (e, [])
      else
        (case on_inbound (eng_versioning e) data wire (eng_deserialize_view e) of
           VersionMismatch (DropView _ reason) \<Rightarrow>
             (let e = with_diagnostics (record_sync_failure source reason clock) e
              in (e\<lparr>eng_shard := shard_on_node_left source (eng_shard e)\<rparr>, []))
         | VersionMismatch (KeepStale _ reason) \<Rightarrow>
             (with_diagnostics (record_sync_failure source reason clock) e, [])
         | MalformedData msg \<Rightarrow>
             (with_diagnostics (record_sync_failure source (''malformed: '' @ msg) clock) e, [])
         | InboundOk view \<Rightarrow>
             (let now_ms = clk_unix_ms clock;
                  snap = \<lparr>is_source = source, is_generation = gen, is_wire_version = wire,
                          is_view = view, is_created_time = now_ms, is_modified_time = now_ms\<rparr>;
                  (sh, result) = accept_inbound_snapshot clock snap (eng_shard e);
                  e = e\<lparr>eng_shard := sh\<rparr>
              in case result of
                   Accepted \<Rightarrow> (with_diagnostics (record_snapshot_received source 0 clock) e, [])
                 | Discarded \<Rightarrow> (with_diagnostics record_stale_delta_discarded e, []))))"

definition delta_error_reason :: "deserialize_error \<Rightarrow> string" where
  "delta_error_reason err =
     (case err of
        UnknownVersion v \<Rightarrow> ''delta version mismatch: '' @ show_u32 v
      | Malformed msg \<Rightarrow> ''delta malformed: '' @ msg)"

definition handle_delta_update ::
    "clock_reading \<Rightarrow> string \<Rightarrow> node_id \<Rightarrow> generation \<Rightarrow> u32 \<Rightarrow> bytes \<Rightarrow> ('s, 'v) engine \<Rightarrow>
     ('s, 'v) engine \<times> engine_action list" where
  "handle_delta_update clock name source gen wire data e =
     (if name \<noteq> eng_state_name e then (e, [])
      else if \<not> ll_should_accept_from (eng_lifecycle e) source then (e, [])
      else if wire \<noteq> eng_wire_version e then
        (let action = on_deserialize_error (eng_versioning e) wire;
             (e, reason) = (case action of
                DropView _ reason \<Rightarrow>
                  (e\<lparr>eng_shard := shard_on_node_left source (eng_shard e)\<rparr>, reason)
              | KeepStale _ reason \<Rightarrow> (e, reason))
         in (with_diagnostics (record_sync_failure source reason clock) e, []))
      else
        (case eng_inbound_delta_applier e of
           None \<Rightarrow> (e, [make_snapshot_request e source])
         | Some delta_applier \<Rightarrow>
        (case get_view (eng_shard e) source of
           None \<Rightarrow> (e, [make_snapshot_request e source])
         | Some current_view \<Rightarrow>
        if incarnation gen \<noteq> incarnation (sv_generation current_view) \<or>
           age gen \<noteq> age (sv_generation current_view) + 1
        then (if gen \<le> sv_generation current_view
              then (with_diagnostics record_stale_delta_discarded e, [])
              else (with_diagnostics (record_gap_detected source) e, [make_snapshot_request e source]))
        else
        (case delta_applier data wire (sv_value current_view) of
           Inl err \<Rightarrow>
             (with_diagnostics (record_sync_failure source (delta_error_reason err) clock) e,
              [make_snapshot_request e source])
         | Inr new_view \<Rightarrow>
             (let (sh, result) =
                    accept_inbound_delta clock source gen wire (\<lambda>_. new_view) (eng_shard e);
                  e = e\<lparr>eng_shard := sh\<rparr>
              in case result of
                   Applied \<Rightarrow> (with_diagnostics (record_delta_received source 0 clock) e, [])
                 | GapDetected _ _ \<Rightarrow>
                     (with_diagnostics (record_gap_detected source) e, [make_snapshot_request e source])
                 | DeltaDiscarded \<Rightarrow> (with_diagnostics record_stale_delta_discarded e, [])
                 | UnknownPeer \<Rightarrow> (e, [make_snapshot_request e source]))))))"

definition handle_request_snapshot ::
    "string \<Rightarrow> node_id \<Rightarrow> ('s, 'v) engine \<Rightarrow> engine_panic + ('s, 'v) engine \<times> engine_action list" where
  "handle_request_snapshot name requester e =
     (if name \<noteq> eng_state_name e then Inr (e, [])
      else if \<not> ll_should_accept_from (eng_lifecycle e) requester then Inr (e, [])
      else
        (case own_view_value e of
           Inl p \<Rightarrow> Inl p
         | Inr view \<Rightarrow>
             (let data = eng_serialize_view e view
              in Inr (with_diagnostics record_snapshot_sent e,
                      [SendSync requester (own_full_snapshot e data)]))))"

fun handle_inbound_sync ::
    "clock_reading \<Rightarrow> sync_message \<Rightarrow> ('s, 'v) engine \<Rightarrow>
     engine_panic + ('s, 'v) engine \<times> engine_action list" where
  "handle_inbound_sync clock (FullSnapshot name source gen wire data) e =
     Inr (handle_full_snapshot clock name source gen wire data e)"
| "handle_inbound_sync clock (DeltaUpdate name source gen wire data) e =
     Inr (handle_delta_update clock name source gen wire data e)"
| "handle_inbound_sync clock (RequestSnapshot name requester) e =
     handle_request_snapshot name requester e"

text \<open>One iteration of the loop of \<open>handle_inbound_change_feed\<close>.\<close>

definition apply_feed_entry ::
    "string \<times> node_id \<times> generation \<Rightarrow> ('s, 'v) engine \<Rightarrow> ('s, 'v) engine" where
  "apply_feed_entry entry e =
     (case entry of (name, source, gen) \<Rightarrow>
        if name \<noteq> eng_state_name e then e
        else if \<not> ll_should_accept_from (eng_lifecycle e) source then e
        else e\<lparr>eng_shard := mark_stale source (incarnation gen) (age gen) (eng_shard e)\<rparr>)"

definition handle_inbound_change_feed ::
    "batched_change_feed \<Rightarrow> ('s, 'v) engine \<Rightarrow> ('s, 'v) engine" where
  "handle_inbound_change_feed feed e =
     fold apply_feed_entry (route_inbound_batch feed (eng_node_id e)) e"

fun handle_inbound ::
    "clock_reading \<Rightarrow> wire_message \<Rightarrow> ('s, 'v) engine \<Rightarrow>
     engine_panic + ('s, 'v) engine \<times> engine_action list" where
  "handle_inbound clock (Sync sync_msg) e = handle_inbound_sync clock sync_msg e"
| "handle_inbound clock (Feed feed) e = Inr (handle_inbound_change_feed feed e, [])"

subsection \<open>Change feed, lifecycle, query, periodic sync\<close>

definition flush_change_feed ::
    "('s, 'v) engine \<Rightarrow> ('s, 'v) engine \<times> batched_change_feed option" where
  "flush_change_feed e =
     (let (cf, batch) = cf_flush (eng_change_feed e) in (e\<lparr>eng_change_feed := cf\<rparr>, batch))"

definition pending_change_feed_count :: "('s, 'v) engine \<Rightarrow> nat" where
  "pending_change_feed_count e = cf_pending_count (eng_change_feed e)"

text \<open>The loop over the join actions; \<open>own_view_value\<close> may panic in it.\<close>

fun run_join_actions ::
    "join_action list \<Rightarrow> ('s, 'v) engine \<Rightarrow> engine_panic + ('s, 'v) engine \<times> engine_action list" where
  "run_join_actions [] e = Inr (e, [])"
| "run_join_actions (SendSnapshotToPeer target # jas) e =
     (case own_view_value e of
        Inl p \<Rightarrow> Inl p
      | Inr view \<Rightarrow>
          (let data = eng_serialize_view e view;
               act = SendSync target (own_full_snapshot e data)
           in case run_join_actions jas (with_diagnostics record_snapshot_sent e) of
                Inl p \<Rightarrow> Inl p
              | Inr (e, actions) \<Rightarrow> Inr (e, act # actions)))"

definition on_node_joined ::
    "clock_reading \<Rightarrow> node_id \<Rightarrow> 'v \<Rightarrow> ('s, 'v) engine \<Rightarrow>
     engine_panic + ('s, 'v) engine \<times> engine_action list" where
  "on_node_joined clock node default_view e =
     (let ((ll, sh), join_actions) =
            ll_on_node_joined clock node default_view (eng_lifecycle e, eng_shard e)
      in run_join_actions join_actions (e\<lparr>eng_lifecycle := ll, eng_shard := sh\<rparr>))"

definition on_node_left :: "node_id \<Rightarrow> ('s, 'v) engine \<Rightarrow> ('s, 'v) engine" where
  "on_node_left node e =
     (let ((ll, sh), _) = ll_on_node_left node (eng_lifecycle e, eng_shard e)
      in with_diagnostics (diag_remove_peer node) (e\<lparr>eng_lifecycle := ll, eng_shard := sh\<rparr>))"

definition eng_should_accept_from :: "('s, 'v) engine \<Rightarrow> node_id \<Rightarrow> bool" where
  "eng_should_accept_from e node = ll_should_accept_from (eng_lifecycle e) node"

definition query ::
    "clock_reading \<Rightarrow> duration \<Rightarrow> ((node_id, 'v state_view_object) hmap \<Rightarrow> 'r) \<Rightarrow> ('s, 'v) engine \<Rightarrow>
     'r engine_query_result \<times> engine_action list" where
  "query clock max_staleness project e =
     (case query_local (eng_shard e) max_staleness clock project of
        Fresh r \<Rightarrow> (EngineFresh r, [])
      | StalePeersDetected stale_peers result \<Rightarrow>
          (let actions =
                 (if st_pull_on_query (sl_strategy (eng_sync_logic e))
                  then map (\<lambda>peer. SendSync peer (RequestSnapshot (eng_state_name e) (eng_node_id e)))
                         (filter (ll_should_accept_from (eng_lifecycle e)) stale_peers)
                  else [])
           in (EngineStale result stale_peers, actions)))"

definition periodic_sync ::
    "('s, 'v) engine \<Rightarrow> engine_panic + ('s, 'v) engine \<times> engine_action list" where
  "periodic_sync e =
     (if \<not> should_periodic_sync (eng_sync_logic e) then Inr (e, [])
      else
        (case own_view_value e of
           Inl p \<Rightarrow> Inl p
         | Inr view \<Rightarrow>
             (let data = eng_serialize_view e view
              in Inr (with_diagnostics record_snapshot_sent e,
                      [BroadcastSync (own_full_snapshot e data)]))))"

definition periodic_interval :: "('s, 'v) engine \<Rightarrow> duration option" where
  "periodic_interval e = sl_periodic_interval (eng_sync_logic e)"

subsection \<open>Accessors\<close>

definition eng_state :: "('s, 'v) engine \<Rightarrow> 's state_object" where
  "eng_state e = sh_state (eng_shard e)"

definition eng_get_view :: "('s, 'v) engine \<Rightarrow> node_id \<Rightarrow> 'v state_view_object option" where
  "eng_get_view e node = get_view (eng_shard e) node"

definition eng_view_count :: "('s, 'v) engine \<Rightarrow> nat" where
  "eng_view_count e = view_count (eng_shard e)"

definition eng_snapshot :: "('s, 'v) engine \<Rightarrow> (node_id, 'v state_view_object) hmap" where
  "eng_snapshot e = shard_snapshot (eng_shard e)"

definition metrics :: "('s, 'v) engine \<Rightarrow> sync_metrics" where
  "metrics e =
     (let m = d_metrics (eng_diagnostics e)
      in \<lparr>em_total_mutations = m_total_mutations m, em_deltas_sent = m_deltas_sent m,
          em_deltas_received = m_deltas_received m, em_snapshots_sent = m_snapshots_sent m,
          em_snapshots_received = m_snapshots_received m,
          em_deltas_suppressed = m_deltas_suppressed m,
          em_deltas_immediate = m_deltas_immediate m, em_sync_failures = m_sync_failures m,
          em_age_gaps_detected = m_age_gaps_detected m,
          em_stale_deltas_discarded = m_stale_deltas_discarded m\<rparr>)"

definition health :: "clock_reading \<Rightarrow> duration \<Rightarrow> ('s, 'v) engine \<Rightarrow> engine_health" where
  "health clock max_staleness e =
     (let h = diag_health_status (eng_shard e) max_staleness clock (eng_diagnostics e)
      in \<lparr>eh_state_name = h_state_name h, eh_healthy_peers = h_healthy_peers h,
          eh_stale_peers = h_stale_peers h, eh_failing_peers = h_failing_peers h,
          eh_status = (case h_status h of
             Healthy \<Rightarrow> EngineHealthy | Degraded \<Rightarrow> EngineDegraded | Unhealthy \<Rightarrow> EngineUnhealthy)\<rparr>)"

definition eng_sync_strategy :: "('s, 'v) engine \<Rightarrow> sync_strategy" where
  "eng_sync_strategy e = sl_strategy (eng_sync_logic e)"

subsection \<open>Events and runs\<close>

text \<open>
  Everything a host can ask of an engine, as one event type, so that runs and reachable states can be
  stated. The delta projection and serializer of the state type are fixed for a run.
\<close>

datatype ('s, 'v, 'dc) engine_event =
    EvMutate clock_reading "'s \<Rightarrow> 's" "'s \<Rightarrow> 'v" sync_urgency
  | EvMutateDelta clock_reading "'s \<Rightarrow> 's \<times> 'dc" "'s \<Rightarrow> 'v" sync_urgency
  | EvInbound clock_reading wire_message
  | EvFlush
  | EvJoined clock_reading node_id 'v
  | EvLeft node_id
  | EvQuery clock_reading duration
  | EvPeriodic

fun engine_apply ::
    "('dc \<Rightarrow> 'vd) \<Rightarrow> ('vd \<Rightarrow> bytes) \<Rightarrow> ('s, 'v, 'dc) engine_event \<Rightarrow> ('s, 'v) engine \<Rightarrow>
     engine_panic + ('s, 'v) engine \<times> engine_action list" where
  "engine_apply pd sd (EvMutate c f p u) e =
     Inr (fst (mutate c f p u e), mr_actions (snd (mutate c f p u e)))"
| "engine_apply pd sd (EvMutateDelta c g p u) e =
     Inr (fst (mutate_with_delta c g p pd u sd e), dmr_actions (snd (mutate_with_delta c g p pd u sd e)))"
| "engine_apply pd sd (EvInbound c msg) e = handle_inbound c msg e"
| "engine_apply pd sd EvFlush e = Inr (fst (flush_change_feed e), [])"
| "engine_apply pd sd (EvJoined c n dv) e = on_node_joined c n dv e"
| "engine_apply pd sd (EvLeft n) e = Inr (on_node_left n e, [])"
| "engine_apply pd sd (EvQuery c d) e = Inr (e, snd (query c d length e))"
| "engine_apply pd sd EvPeriodic e = periodic_sync e"

fun engine_run ::
    "('dc \<Rightarrow> 'vd) \<Rightarrow> ('vd \<Rightarrow> bytes) \<Rightarrow> ('s, 'v, 'dc) engine_event list \<Rightarrow> ('s, 'v) engine \<Rightarrow>
     engine_panic + ('s, 'v) engine \<times> engine_action list" where
  "engine_run pd sd [] e = Inr (e, [])"
| "engine_run pd sd (ev # evs) e =
     (case engine_apply pd sd ev e of
        Inl p \<Rightarrow> Inl p
      | Inr (e, actions) \<Rightarrow>
          (case engine_run pd sd evs e of
             Inl p \<Rightarrow> Inl p
           | Inr (e, rest) \<Rightarrow> Inr (e, actions @ rest)))"

subsection \<open>Invariant\<close>

definition diag_wf :: "diagnostics_logic \<Rightarrow> bool" where
  "diag_wf d \<longleftrightarrow> hm_wf (d_peers d)"

definition engine_wf :: "('s, 'v) engine \<Rightarrow> bool" where
  "engine_wf e \<longleftrightarrow> shard_wf (eng_shard e) \<and> cf_wf (eng_change_feed e) \<and>
     cf_node_id (eng_change_feed e) = eng_node_id e \<and> diag_wf (eng_diagnostics e) \<and>
     no_ghosts (eng_lifecycle e) (eng_shard e)"

text \<open>What no operation changes.\<close>

definition engine_params where
  "engine_params e = (eng_state_name e, eng_wire_version e, eng_node_id e, eng_sync_logic e,
     eng_versioning e, eng_serialize_view e, eng_deserialize_view e, eng_inbound_delta_applier e)"

lemma with_diagnostics_sel [simp]:
  "eng_state_name (with_diagnostics f e) = eng_state_name e"
  "eng_wire_version (with_diagnostics f e) = eng_wire_version e"
  "eng_shard (with_diagnostics f e) = eng_shard e"
  "eng_sync_logic (with_diagnostics f e) = eng_sync_logic e"
  "eng_change_feed (with_diagnostics f e) = eng_change_feed e"
  "eng_versioning (with_diagnostics f e) = eng_versioning e"
  "eng_lifecycle (with_diagnostics f e) = eng_lifecycle e"
  "eng_diagnostics (with_diagnostics f e) = f (eng_diagnostics e)"
  "eng_serialize_view (with_diagnostics f e) = eng_serialize_view e"
  "eng_deserialize_view (with_diagnostics f e) = eng_deserialize_view e"
  "eng_inbound_delta_applier (with_diagnostics f e) = eng_inbound_delta_applier e"
  by (simp_all add: with_diagnostics_def)

lemma notify_own_change_sel [simp]:
  "eng_shard (notify_own_change e) = eng_shard e"
  "eng_lifecycle (notify_own_change e) = eng_lifecycle e"
  "eng_diagnostics (notify_own_change e) = eng_diagnostics e"
  "engine_params (notify_own_change e) = engine_params e"
  by (simp_all add: notify_own_change_def engine_params_def)

lemma engine_params_diag [simp]: "engine_params (with_diagnostics f e) = engine_params e"
  by (simp add: engine_params_def)

lemma engine_params_shard [simp]:
  "sh_node_id sh = eng_node_id e \<Longrightarrow> engine_params (e\<lparr>eng_shard := sh\<rparr>) = engine_params e"
  by (simp add: engine_params_def)

lemma diag_wf_ops [wf_intros]:
  "diag_wf d \<Longrightarrow> diag_wf (modify_peer n f d)"
  "diag_wf d \<Longrightarrow> diag_wf (record_sync_success n l c d)"
  "diag_wf d \<Longrightarrow> diag_wf (record_sync_failure n r c d)"
  "diag_wf d \<Longrightarrow> diag_wf (record_gap_detected n d)"
  "diag_wf d \<Longrightarrow> diag_wf (record_mutation d)"
  "diag_wf d \<Longrightarrow> diag_wf (record_delta_sent d)"
  "diag_wf d \<Longrightarrow> diag_wf (record_delta_immediate d)"
  "diag_wf d \<Longrightarrow> diag_wf (record_snapshot_sent d)"
  "diag_wf d \<Longrightarrow> diag_wf (record_delta_suppressed d)"
  "diag_wf d \<Longrightarrow> diag_wf (record_stale_delta_discarded d)"
  "diag_wf d \<Longrightarrow> diag_wf (record_delta_received n l c d)"
  "diag_wf d \<Longrightarrow> diag_wf (record_snapshot_received n l c d)"
  "diag_wf d \<Longrightarrow> diag_wf (diag_remove_peer n d)"
  "diag_wf (diagnostics_new name)"
  by (simp_all add: diag_wf_def modify_peer_def record_sync_success_def record_sync_failure_def
      record_gap_detected_def record_mutation_def record_delta_sent_def record_delta_immediate_def
      record_snapshot_sent_def record_delta_suppressed_def record_stale_delta_discarded_def
      record_delta_received_def record_snapshot_received_def diag_remove_peer_def diagnostics_new_def
      Let_def wf_intros)

lemma engine_wf_shard: "engine_wf e \<Longrightarrow> shard_wf (eng_shard e)"
  by (simp add: engine_wf_def)

lemma engine_wf_diag [wf_intros]:
  "engine_wf e \<Longrightarrow> diag_wf (f (eng_diagnostics e)) \<Longrightarrow> engine_wf (with_diagnostics f e)"
  by (simp add: engine_wf_def)

lemma engine_wf_diagnostics: "engine_wf e \<Longrightarrow> diag_wf (eng_diagnostics e)"
  by (simp add: engine_wf_def)

lemma engine_wf_no_ghosts: "engine_wf e \<Longrightarrow> no_ghosts (eng_lifecycle e) (eng_shard e)"
  by (simp add: engine_wf_def)

lemmas engine_wfD = engine_wf_shard engine_wf_diagnostics engine_wf_no_ghosts

lemma engine_wf_set_shard:
  "engine_wf e \<Longrightarrow> shard_wf sh \<Longrightarrow> sh_node_id sh = eng_node_id e \<Longrightarrow>
   no_ghosts (eng_lifecycle e) sh \<Longrightarrow> engine_wf (e\<lparr>eng_shard := sh\<rparr>)"
  by (simp add: engine_wf_def)

lemma engine_wf_notify [wf_intros]: "engine_wf e \<Longrightarrow> engine_wf (notify_own_change e)"
  by (simp add: engine_wf_def notify_own_change_def wf_intros frame_simps)

lemma engine_new_wf [wf_intros]: "engine_wf (engine_new name n v p cfg w c ser des ap)"
  by (simp add: engine_wf_def engine_new_def Let_def wf_intros no_ghosts_def lifecycle_new_def)
    (simp add: cf_new_def shard_new_def Let_def)

subsection \<open>Mutations\<close>

lemma to_actions_frame [frame_simps]:
  "eng_shard (fst (sync_action_to_engine_actions_snapshot a v e)) = eng_shard e"
  "eng_lifecycle (fst (sync_action_to_engine_actions_snapshot a v e)) = eng_lifecycle e"
  "engine_params (fst (sync_action_to_engine_actions_snapshot a v e)) = engine_params e"
  "eng_shard (fst (sync_action_to_engine_actions_delta a v d s e)) = eng_shard e"
  "eng_lifecycle (fst (sync_action_to_engine_actions_delta a v d s e)) = eng_lifecycle e"
  "engine_params (fst (sync_action_to_engine_actions_delta a v d s e)) = engine_params e"
  by (cases a; simp add: Let_def)+

lemma to_actions_wf [wf_intros]:
  "engine_wf e \<Longrightarrow> engine_wf (fst (sync_action_to_engine_actions_snapshot a v e))"
  "engine_wf e \<Longrightarrow> engine_wf (fst (sync_action_to_engine_actions_delta a v d s e))"
  by (cases a; simp add: Let_def wf_intros engine_wfD)+

lemma mutate_eq:
  "mutate c f p u e =
     (let r = apply_mutation c f p (eng_shard e);
          e1 = with_diagnostics record_mutation (e\<lparr>eng_shard := fst r\<rparr>);
          t = sync_action_to_engine_actions_snapshot (resolve_action (eng_sync_logic e) u)
                (mo_view (snd r)) e1
      in (fst t, \<lparr>mr_generation = mo_generation (snd r), mr_view = mo_view (snd r),
                  mr_actions = snd t\<rparr>))"
  by (simp add: mutate_def Let_def case_prod_unfold)

lemma mutate_with_delta_eq:
  "mutate_with_delta c g p pd u sd e =
     (let r = apply_mutation_with_delta c g p pd (eng_shard e);
          e1 = with_diagnostics record_mutation (e\<lparr>eng_shard := fst r\<rparr>);
          t = sync_action_to_engine_actions_delta (resolve_action (eng_sync_logic e) u)
                (dmo_view (snd r)) (dmo_view_delta (snd r)) sd e1
      in (fst t, \<lparr>dmr_generation = dmo_generation (snd r), dmr_view = dmo_view (snd r),
                  dmr_view_delta = dmo_view_delta (snd r), dmr_actions = snd t\<rparr>))"
  by (simp add: mutate_with_delta_def Let_def case_prod_unfold)

lemma mutate_frame [frame_simps]:
  "eng_shard (fst (mutate c f p u e)) = fst (apply_mutation c f p (eng_shard e))"
  "eng_lifecycle (fst (mutate c f p u e)) = eng_lifecycle e"
  "engine_params (fst (mutate c f p u e)) = engine_params e"
  "eng_shard (fst (mutate_with_delta c g p pd u sd e)) =
     fst (apply_mutation_with_delta c g p pd (eng_shard e))"
  "eng_lifecycle (fst (mutate_with_delta c g p pd u sd e)) = eng_lifecycle e"
  "engine_params (fst (mutate_with_delta c g p pd u sd e)) = engine_params e"
  by (simp_all add: mutate_eq mutate_with_delta_eq Let_def frame_simps)

lemma no_ghosts_cong:
  "no_ghosts ll sh \<Longrightarrow> sh_node_id sh' = sh_node_id sh \<Longrightarrow>
   (\<And>n. n \<noteq> sh_node_id sh \<Longrightarrow> n \<in> ll_departed_nodes ll \<Longrightarrow> get_view sh n = None \<Longrightarrow> get_view sh' n = None) \<Longrightarrow>
   no_ghosts ll sh'"
  by (auto simp: no_ghosts_def)

lemma get_view_apply_mutation [lookup_simps]:
  assumes "shard_wf sh" and "n \<noteq> sh_node_id sh"
  shows "get_view (fst (apply_mutation c f p sh)) n = get_view sh n"
    and "get_view (fst (apply_mutation_with_delta c g pv pd sh)) n = get_view sh n"
  using assms
  by (simp_all add: apply_mutation_eq apply_mutation_with_delta_eq Let_def lookup_simps shard_wf_own_vm)

lemma mutate_wf [wf_intros]:
  "engine_wf e \<Longrightarrow> engine_wf (fst (mutate c f p u e))"
  "engine_wf e \<Longrightarrow> engine_wf (fst (mutate_with_delta c g p pd u sd e))"
  by (auto simp: mutate_eq mutate_with_delta_eq Let_def frame_simps lookup_simps engine_wfD
      intro!: wf_intros engine_wf_set_shard no_ghosts_cong [OF engine_wf_no_ghosts])

subsection \<open>Inbound messages\<close>

lemma full_snapshot_shard:
  "eng_shard (fst (handle_full_snapshot c name src gen wire data e)) =
     (if name = eng_state_name e \<and> ll_should_accept_from (eng_lifecycle e) src
      then (case on_inbound (eng_versioning e) data wire (eng_deserialize_view e) of
              InboundOk v \<Rightarrow> fst (accept_inbound_snapshot c \<lparr>is_source = src, is_generation = gen,
                is_wire_version = wire, is_view = v, is_created_time = clk_unix_ms c,
                is_modified_time = clk_unix_ms c\<rparr> (eng_shard e))
            | VersionMismatch (DropView _ _) \<Rightarrow> shard_on_node_left src (eng_shard e)
            | _ \<Rightarrow> eng_shard e)
      else eng_shard e)"
  by (auto simp: handle_full_snapshot_def Let_def case_prod_unfold
      split: inbound_version_result.splits version_mismatch_action.splits accept_result.splits)

lemma full_snapshot_frame [frame_simps]:
  "snd (handle_full_snapshot c name src gen wire data e) = []"
  "eng_lifecycle (fst (handle_full_snapshot c name src gen wire data e)) = eng_lifecycle e"
  "eng_change_feed (fst (handle_full_snapshot c name src gen wire data e)) = eng_change_feed e"
  "engine_params (fst (handle_full_snapshot c name src gen wire data e)) = engine_params e"
  by (auto simp: handle_full_snapshot_def Let_def case_prod_unfold frame_simps
      split: inbound_version_result.splits version_mismatch_action.splits accept_result.splits)

lemma full_snapshot_diag_wf:
  "diag_wf (eng_diagnostics e) \<Longrightarrow>
   diag_wf (eng_diagnostics (fst (handle_full_snapshot c name src gen wire data e)))"
  by (auto simp: handle_full_snapshot_def Let_def case_prod_unfold wf_intros
      split: inbound_version_result.splits version_mismatch_action.splits accept_result.splits)

text \<open>Whether an inbound delta reaches \<open>accept_inbound_delta\<close>, and with which new view.\<close>

definition delta_passes :: "('s, 'v) engine \<Rightarrow> string \<Rightarrow> node_id \<Rightarrow> generation \<Rightarrow> u32 \<Rightarrow> bytes \<Rightarrow> 'v option" where
  "delta_passes e name src gen wire data =
     (if name = eng_state_name e \<and> ll_should_accept_from (eng_lifecycle e) src \<and>
         wire = eng_wire_version e
      then (case (eng_inbound_delta_applier e, get_view (eng_shard e) src) of
              (Some ap, Some cv) \<Rightarrow>
                if gen = age_inc (sv_generation cv)
                then (case ap data wire (sv_value cv) of Inr v \<Rightarrow> Some v | Inl _ \<Rightarrow> None)
                else None
            | _ \<Rightarrow> None)
      else None)"

lemma age_inc_iff: "gen = age_inc g \<longleftrightarrow> incarnation gen = incarnation g \<and> age gen = age g + 1"
  by (cases gen) (auto simp: age_inc_def)

lemma delta_update_shard:
  "eng_shard (fst (handle_delta_update c name src gen wire data e)) =
     (case delta_passes e name src gen wire data of
        Some v \<Rightarrow> fst (accept_inbound_delta c src gen wire (\<lambda>_. v) (eng_shard e))
      | None \<Rightarrow>
          if name = eng_state_name e \<and> ll_should_accept_from (eng_lifecycle e) src \<and>
             wire \<noteq> eng_wire_version e \<and> vl_policy (eng_versioning e) = DropAndWait
          then shard_on_node_left src (eng_shard e) else eng_shard e)"
  by (auto simp: handle_delta_update_def delta_passes_def Let_def case_prod_unfold age_inc_iff
      on_deserialize_error_def
      split: option.splits sum.splits delta_accept_result.splits version_mismatch_policy.splits)

lemma delta_update_frame [frame_simps]:
  "eng_lifecycle (fst (handle_delta_update c name src gen wire data e)) = eng_lifecycle e"
  "eng_change_feed (fst (handle_delta_update c name src gen wire data e)) = eng_change_feed e"
  "engine_params (fst (handle_delta_update c name src gen wire data e)) = engine_params e"
  by (auto simp: handle_delta_update_def Let_def case_prod_unfold frame_simps on_deserialize_error_def
      split: option.splits sum.splits delta_accept_result.splits version_mismatch_policy.splits)

lemma delta_update_diag_wf:
  "diag_wf (eng_diagnostics e) \<Longrightarrow>
   diag_wf (eng_diagnostics (fst (handle_delta_update c name src gen wire data e)))"
  by (auto simp: handle_delta_update_def Let_def case_prod_unfold wf_intros on_deserialize_error_def
      split: option.splits sum.splits delta_accept_result.splits version_mismatch_policy.splits)

lemma no_ghosts_accept:
  assumes "shard_wf sh" "no_ghosts ll sh" and "ll_should_accept_from ll src"
  shows "is_source snap = src \<Longrightarrow> no_ghosts ll (fst (accept_inbound_snapshot c snap sh))"
    and "no_ghosts ll (fst (accept_inbound_delta c src gen wv f sh))"
    and "no_ghosts ll (mark_stale src i a sh)"
proof -
  show "is_source snap = src \<Longrightarrow> no_ghosts ll (fst (accept_inbound_snapshot c snap sh))"
    using assms
    by (auto simp: no_ghosts_def ll_should_accept_from_def lookup_simps frame_simps split: option.splits)
  show "no_ghosts ll (mark_stale src i a sh)"
    using assms by (auto simp: no_ghosts_def ll_should_accept_from_def lookup_simps frame_simps split: option.splits)
  show "no_ghosts ll (fst (accept_inbound_delta c src gen wv f sh))"
  proof (cases rule: accept_delta_cases [of sh src gen c wv f])
    case (applied e)
    then show ?thesis
      using assms by (auto simp: no_ghosts_def ll_should_accept_from_def get_view_accept_delta_applied
          frame_simps)
  qed (use assms in simp)
qed

lemma no_ghosts_shard_left:
  "shard_wf sh \<Longrightarrow> no_ghosts ll sh \<Longrightarrow> no_ghosts ll (shard_on_node_left n sh)"
  by (auto simp: no_ghosts_def lookup_simps frame_simps)

lemma engine_wfI:
  assumes "engine_wf e" and "engine_params e' = engine_params e"
    and "eng_change_feed e' = eng_change_feed e" and "eng_lifecycle e' = eng_lifecycle e"
    and "shard_wf (eng_shard e')" and "no_ghosts (eng_lifecycle e) (eng_shard e')"
    and "diag_wf (eng_diagnostics e')"
  shows "engine_wf e'"
  using assms by (simp add: engine_wf_def engine_params_def)

lemma full_snapshot_wf [wf_intros]:
  assumes "engine_wf e" shows "engine_wf (fst (handle_full_snapshot c name src gen wire data e))"
proof (rule engine_wfI [OF assms])
  show "shard_wf (eng_shard (fst (handle_full_snapshot c name src gen wire data e)))"
    using assms by (auto simp: full_snapshot_shard engine_wfD wf_intros
        split: inbound_version_result.splits version_mismatch_action.splits)
  show "no_ghosts (eng_lifecycle e) (eng_shard (fst (handle_full_snapshot c name src gen wire data e)))"
    using assms by (auto simp: full_snapshot_shard engine_wfD no_ghosts_accept no_ghosts_shard_left
        split: inbound_version_result.splits version_mismatch_action.splits)
qed (simp_all add: frame_simps full_snapshot_diag_wf engine_wfD assms)

lemma delta_passes_accepts:
  "delta_passes e name src gen wire data = Some v \<Longrightarrow> ll_should_accept_from (eng_lifecycle e) src"
  by (simp add: delta_passes_def split: if_splits)

lemma delta_update_wf [wf_intros]:
  assumes "engine_wf e" shows "engine_wf (fst (handle_delta_update c name src gen wire data e))"
proof (rule engine_wfI [OF assms])
  show "shard_wf (eng_shard (fst (handle_delta_update c name src gen wire data e)))"
    using assms by (simp add: delta_update_shard engine_wfD wf_intros split: option.splits)
  show "no_ghosts (eng_lifecycle e) (eng_shard (fst (handle_delta_update c name src gen wire data e)))"
    using assms by (auto simp: delta_update_shard engine_wfD no_ghosts_accept no_ghosts_shard_left
        dest: delta_passes_accepts split: option.splits)
qed (simp_all add: frame_simps delta_update_diag_wf engine_wfD assms)

lemma own_view_value_ok: "engine_wf e \<Longrightarrow> \<exists>v. own_view_value e = Inr v"
  using shard_wf_own [OF engine_wf_shard, of e] by (auto simp: own_view_value_def)

lemma request_snapshot_ok:
  "engine_wf e \<Longrightarrow> \<exists>e' acts. handle_request_snapshot name r e = Inr (e', acts) \<and> engine_wf e' \<and>
     engine_params e' = engine_params e \<and> eng_shard e' = eng_shard e \<and> eng_lifecycle e' = eng_lifecycle e"
  using own_view_value_ok [of e]
  by (auto simp: handle_request_snapshot_def Let_def wf_intros engine_wfD)

lemma feed_entry_frame [frame_simps]:
  "eng_lifecycle (apply_feed_entry x e) = eng_lifecycle e"
  "engine_params (apply_feed_entry x e) = engine_params e"
  "eng_change_feed (apply_feed_entry x e) = eng_change_feed e"
  "eng_diagnostics (apply_feed_entry x e) = eng_diagnostics e"
  by (simp_all add: apply_feed_entry_def frame_simps split: prod.splits)

lemma feed_entry_wf [wf_intros]: "engine_wf e \<Longrightarrow> engine_wf (apply_feed_entry x e)"
  by (auto simp: apply_feed_entry_def engine_wfD wf_intros frame_simps no_ghosts_accept
      intro!: engine_wf_set_shard split: prod.splits)

lemma feed_fold_frame [frame_simps]:
  "eng_lifecycle (fold apply_feed_entry xs e) = eng_lifecycle e"
  "engine_params (fold apply_feed_entry xs e) = engine_params e"
  "eng_diagnostics (fold apply_feed_entry xs e) = eng_diagnostics e"
  by (induction xs arbitrary: e) (simp_all add: frame_simps)

lemma feed_fold_wf [wf_intros]: "engine_wf e \<Longrightarrow> engine_wf (fold apply_feed_entry xs e)"
  by (induction xs arbitrary: e) (simp_all add: wf_intros)

lemma inbound_ok:
  assumes "engine_wf e"
  shows "\<exists>e' acts. handle_inbound c msg e = Inr (e', acts) \<and> engine_wf e' \<and>
    engine_params e' = engine_params e \<and> eng_lifecycle e' = eng_lifecycle e"
proof (cases msg)
  case (Sync m)
  show ?thesis
  proof (cases m)
    case (FullSnapshot name src gen wire data)
    then show ?thesis
      using assms full_snapshot_frame [of c name src gen wire data e]
        full_snapshot_wf [of e c name src gen wire data]
      by (cases "handle_full_snapshot c name src gen wire data e") (auto simp: Sync)
  next
    case (DeltaUpdate name src gen wire data)
    then show ?thesis
      using assms delta_update_frame [of c name src gen wire data e]
        delta_update_wf [of e c name src gen wire data]
      by (cases "handle_delta_update c name src gen wire data e") (auto simp: Sync)
  next
    case (RequestSnapshot name r)
    then show ?thesis using request_snapshot_ok [OF assms, of name r] by (auto simp: Sync)
  qed
next
  case (Feed feed)
  then show ?thesis using assms by (simp add: handle_inbound_change_feed_def frame_simps wf_intros)
qed

lemma flush_ok [wf_intros]: "engine_wf e \<Longrightarrow> engine_wf (fst (flush_change_feed e))"
  by (auto simp: flush_change_feed_def case_prod_unfold Let_def engine_wf_def wf_intros frame_simps)

lemma flush_frame [frame_simps]:
  "eng_lifecycle (fst (flush_change_feed e)) = eng_lifecycle e"
  "eng_shard (fst (flush_change_feed e)) = eng_shard e"
  "engine_params (fst (flush_change_feed e)) = engine_params e"
  by (simp_all add: flush_change_feed_def case_prod_unfold Let_def engine_params_def)

lemma left_ok [wf_intros]: "engine_wf e \<Longrightarrow> engine_wf (on_node_left n e)"
  using no_ghosts_left [of "eng_shard e" "eng_lifecycle e" n]
  by (simp add: on_node_left_def ll_on_node_left_def engine_wf_def wf_intros frame_simps)

lemma left_shard [frame_simps]:
  "eng_shard (on_node_left n e) = shard_on_node_left n (eng_shard e)"
  "ll_departed_nodes (eng_lifecycle (on_node_left n e)) = insert n (ll_departed_nodes (eng_lifecycle e))"
  "engine_params (on_node_left n e) = engine_params e"
  by (simp_all add: on_node_left_def ll_on_node_left_def engine_params_def frame_simps)

text \<open>What a join does, with the panic branch discharged.\<close>

definition joined_engine :: "clock_reading \<Rightarrow> node_id \<Rightarrow> 'v \<Rightarrow> ('s, 'v) engine \<Rightarrow> ('s, 'v) engine" where
  "joined_engine c n dv e = e\<lparr>eng_lifecycle := (eng_lifecycle e)\<lparr>ll_departed_nodes :=
      ll_departed_nodes (eng_lifecycle e) - {n}\<rparr>, eng_shard := shard_on_node_joined c n dv (eng_shard e)\<rparr>"

lemma joined_engine_wf [wf_intros]: "engine_wf e \<Longrightarrow> engine_wf (joined_engine c n dv e)"
  using no_ghosts_joined [of "eng_shard e" "eng_lifecycle e" c n dv]
  by (simp add: joined_engine_def ll_on_node_joined_def engine_wf_def wf_intros frame_simps)

lemma joined_engine_frame [frame_simps]:
  "eng_shard (joined_engine c n dv e) = shard_on_node_joined c n dv (eng_shard e)"
  "ll_departed_nodes (eng_lifecycle (joined_engine c n dv e)) = ll_departed_nodes (eng_lifecycle e) - {n}"
  "engine_params (joined_engine c n dv e) = engine_params e"
  by (simp_all add: joined_engine_def engine_params_def frame_simps)

lemma on_node_joined_eq:
  assumes "own_view_value (joined_engine c n dv e) = Inr v"
  shows "on_node_joined c n dv e = Inr (with_diagnostics record_snapshot_sent (joined_engine c n dv e),
    [SendSync n (own_full_snapshot (joined_engine c n dv e) (eng_serialize_view e v))])"
  using assms by (simp add: on_node_joined_def ll_on_node_joined_def joined_engine_def Let_def)

lemma joined_ok:
  assumes "engine_wf e"
  shows "\<exists>e' v. on_node_joined c n dv e =
      Inr (e', [SendSync n (own_full_snapshot (joined_engine c n dv e) (eng_serialize_view e v))]) \<and>
    engine_wf e' \<and> eng_shard e' = shard_on_node_joined c n dv (eng_shard e) \<and>
    ll_departed_nodes (eng_lifecycle e') = ll_departed_nodes (eng_lifecycle e) - {n} \<and>
    engine_params e' = engine_params e"
proof -
  have wf: "engine_wf (joined_engine c n dv e)" using assms by (rule wf_intros)
  then obtain v where "own_view_value (joined_engine c n dv e) = Inr v"
    using own_view_value_ok by blast
  from on_node_joined_eq [OF this] wf show ?thesis
    by (auto simp: wf_intros frame_simps engine_wfD)
qed

lemma periodic_ok:
  "engine_wf e \<Longrightarrow> \<exists>e' acts. periodic_sync e = Inr (e', acts) \<and> engine_wf e' \<and>
     engine_params e' = engine_params e \<and> eng_shard e' = eng_shard e \<and> eng_lifecycle e' = eng_lifecycle e"
  using own_view_value_ok [of e] by (auto simp: periodic_sync_def Let_def wf_intros engine_wfD)

lemma engine_apply_ok:
  assumes "engine_wf e"
  shows "\<exists>e' acts. engine_apply pd sd ev e = Inr (e', acts) \<and> engine_wf e' \<and>
    engine_params e' = engine_params e"
proof (cases ev)
  case (EvInbound c msg)
  then show ?thesis using inbound_ok [OF assms, of c msg] by auto
next
  case (EvJoined c n dv)
  then show ?thesis using joined_ok [OF assms, of c n dv] by auto
next
  case EvPeriodic
  then show ?thesis using periodic_ok [OF assms] by auto
qed (use assms in \<open>simp_all add: wf_intros frame_simps\<close>)

subsection \<open>Safety: no reachable engine panics\<close>

definition engine_init :: "('s, 'v) engine \<Rightarrow> bool" where
  "engine_init e \<longleftrightarrow> (\<exists>name n v p cfg w c ser des ap. e = engine_new name n v p cfg w c ser des ap)"

inductive engine_step ::
    "('dc \<Rightarrow> 'vd) \<Rightarrow> ('vd \<Rightarrow> bytes) \<Rightarrow> ('s, 'v) engine \<Rightarrow> ('s, 'v) engine \<Rightarrow> bool" for pd sd where
  engine_step: "engine_apply pd sd ev e = Inr (e', acts) \<Longrightarrow> engine_step pd sd e e'"

inductive_cases engine_stepE: "engine_step pd sd e e'"

interpretation em: invariant_machine engine_init "engine_step pd sd" engine_wf for pd sd
proof unfold_locales
  fix e :: "('s, 'v) engine"
  show "engine_init e \<Longrightarrow> engine_wf e" by (auto simp: engine_init_def wf_intros)
next
  fix e e' :: "('s, 'v) engine"
  assume "engine_wf e" "engine_step pd sd e e'"
  then show "engine_wf e'"
    by (elim engine_stepE) (metis engine_apply_ok prod.inject sum.inject(2))
qed

text \<open>
  C3: the engine never panics. In every state that a new engine can reach through any interleaving of
  mutations, inbound messages of any content, joins, departures (also of the local node), queries,
  feed flushes and periodic syncs, every further operation returns: the \<open>expect\<close> on the local view
  cannot fail, and the structural invariant holds.
\<close>

theorem engine_never_panics:
  assumes "reachable engine_init (engine_step pd sd) e"
  shows "engine_wf e \<and> (\<exists>e' acts. engine_apply pd sd ev e = Inr (e', acts))"
  using em.reachable_inv [OF assms] engine_apply_ok [of e pd sd ev] by blast

definition demo_config :: state_config where
  "demo_config = state_config_default\<lparr>sc_sync_strategy := feed_lazy_pull\<rparr>"

definition demo_encode :: "nat \<Rightarrow> bytes" where
  "demo_encode n = [of_nat n]"

definition demo_decode :: "bytes \<Rightarrow> u32 \<Rightarrow> deserialize_error + nat" where
  "demo_decode bs v = (if v \<noteq> 1 then Inl (UnknownVersion v)
     else case bs of [b] \<Rightarrow> Inr (unat b) | _ \<Rightarrow> Inl (Malformed ''length''))"

definition demo_applier :: "nat inbound_delta_applier" where
  "demo_applier bs v cur = (case demo_decode bs v of Inl err \<Rightarrow> Inl err | Inr d \<Rightarrow> Inr (cur + d))"

definition demo_engine :: "node_id \<Rightarrow> state_config \<Rightarrow> (nat, nat) engine" where
  "demo_engine n cfg = engine_new ''s'' n 0 id cfg 1 demo_clock demo_encode demo_decode (Some demo_applier)"

lemma demo_engine_sel [simp]:
  "eng_state_name (demo_engine n cfg) = ''s''" "eng_node_id (demo_engine n cfg) = n"
  "eng_wire_version (demo_engine n cfg) = 1" "eng_deserialize_view (demo_engine n cfg) = demo_decode"
  "eng_serialize_view (demo_engine n cfg) = demo_encode"
  "eng_inbound_delta_applier (demo_engine n cfg) = Some demo_applier"
  "vl_policy (eng_versioning (demo_engine n cfg)) = sc_version_mismatch_policy cfg"
  "ll_departed_nodes (eng_lifecycle (demo_engine n cfg)) = {}"
  "sl_strategy (eng_sync_logic (demo_engine n cfg)) = sc_sync_strategy cfg"
  "so_value (sh_state (eng_shard (demo_engine n cfg))) = 0"
  "so_generation (sh_state (eng_shard (demo_engine n cfg))) = Generation 1000 0"
  by (simp_all add: demo_engine_def engine_new_def shard_new_def versioning_new_def lifecycle_new_def
      sync_logic_new_def new_state_object_def generation_new_def demo_clock_def Let_def)

lemma demo_engine_wf: "engine_wf (demo_engine n cfg)"
  by (simp add: demo_engine_def wf_intros)

lemma demo_engine_init: "engine_init (demo_engine n cfg)"
  unfolding engine_init_def demo_engine_def by blast

theorem engine_never_panics_witness:
  "\<exists>e' acts. engine_apply id demo_encode (EvInbound demo_clock (Sync (RequestSnapshot ''s'' ''b'')))
     (on_node_left ''a'' (demo_engine ''a'' demo_config)) = Inr (e', acts)"
proof -
  have "reachable engine_init (engine_step id demo_encode) (on_node_left ''a'' (demo_engine ''a'' demo_config))"
    by (rule reachable_step, rule reachable_init, rule demo_engine_init)
      (rule engine_step [where ev = "EvLeft ''a''"], simp)
  from engine_never_panics [OF this] show ?thesis by blast
qed

subsection \<open>Departed peers\<close>

lemma engine_params_accept:
  "engine_params e = engine_params e' \<Longrightarrow> eng_node_id e = eng_node_id e'"
  by (simp add: engine_params_def)

lemma full_snapshot_departed:
  "\<not> ll_should_accept_from (eng_lifecycle e) n \<Longrightarrow> handle_full_snapshot c name n gen wire data e = (e, [])"
  by (simp add: handle_full_snapshot_def)

lemma delta_update_departed:
  "\<not> ll_should_accept_from (eng_lifecycle e) n \<Longrightarrow> handle_delta_update c name n gen wire data e = (e, [])"
  by (simp add: handle_delta_update_def)

lemma request_departed:
  "\<not> ll_should_accept_from (eng_lifecycle e) n \<Longrightarrow> handle_request_snapshot name n e = Inr (e, [])"
  by (simp add: handle_request_snapshot_def)

lemma feed_fold_departed:
  "\<not> ll_should_accept_from (eng_lifecycle e) n \<Longrightarrow>
   fold apply_feed_entry xs e = fold apply_feed_entry (filter (\<lambda>x. fst (snd x) \<noteq> n) xs) e"
proof (induction xs arbitrary: e)
  case (Cons x xs)
  then have "fst (snd x) = n \<Longrightarrow> apply_feed_entry x e = e"
    by (auto simp: apply_feed_entry_def split: prod.splits)
  with Cons show ?case by (auto simp: frame_simps)
qed simp

text \<open>
  a departed node has no voice. Snapshots, deltas and snapshot requests that name a departed node
  leave the engine unchanged and cause no action, whatever they carry; a change-feed batch has the
  effect of the batch without that node's notifications.
\<close>

theorem departed_is_silent:
  assumes "\<not> eng_should_accept_from e n"
  shows "handle_inbound c (Sync (FullSnapshot name n gen wire data)) e = Inr (e, []) \<and>
    handle_inbound c (Sync (DeltaUpdate name n gen wire data)) e = Inr (e, []) \<and>
    handle_inbound c (Sync (RequestSnapshot name n)) e = Inr (e, []) \<and>
    handle_inbound c (Feed feed) e = handle_inbound c (Feed (feed\<lparr>bf_notifications :=
      filter (\<lambda>x. cn_source_node x \<noteq> n) (bf_notifications feed)\<rparr>)) e"
  using assms feed_fold_departed [of e n "route_inbound_batch feed (eng_node_id e)"]
  by (simp add: eng_should_accept_from_def full_snapshot_departed delta_update_departed
      request_departed handle_inbound_change_feed_def route_inbound_batch_def filter_map comp_def)

theorem departed_is_silent_witness:
  "handle_inbound demo_clock (Sync (FullSnapshot ''s'' ''b'' (Generation 9 9) 1 [7]))
     (on_node_left ''b'' (demo_engine ''a'' demo_config)) =
   Inr (on_node_left ''b'' (demo_engine ''a'' demo_config), [])"
  using departed_is_silent [of "on_node_left ''b'' (demo_engine ''a'' demo_config)" "''b''" demo_clock "''s''"
      "Generation 9 9" 1 "[7]"]
  by (simp add: eng_should_accept_from_def ll_should_accept_from_def frame_simps)

text \<open>The messages of an action list that go to one node only.\<close>

definition sends_to :: "node_id \<Rightarrow> engine_action list \<Rightarrow> bool" where
  "sends_to n acts \<longleftrightarrow> (\<exists>m. SendSync n m \<in> set acts)"

lemma sends_to_simps [simp]:
  "\<not> sends_to n []"
  "sends_to n (a # acts) \<longleftrightarrow> (\<exists>m. a = SendSync n m) \<or> sends_to n acts"
  "sends_to n (acts @ acts') \<longleftrightarrow> sends_to n acts \<or> sends_to n acts'"
  by (auto simp: sends_to_def)

lemma snapshot_actions_no_send [simp]:
  "\<not> sends_to n (snd (sync_action_to_engine_actions_snapshot a v e))"
  "\<not> sends_to n (snd (sync_action_to_engine_actions_delta a v d s e))"
  by (cases a; simp add: Let_def)+

lemma mutate_no_send [simp]:
  "\<not> sends_to n (mr_actions (snd (mutate c f p u e)))"
  "\<not> sends_to n (dmr_actions (snd (mutate_with_delta c g p pd u sd e)))"
  by (simp_all add: mutate_eq mutate_with_delta_eq Let_def)

lemma delta_update_sends:
  "sends_to n (snd (handle_delta_update c name src gen wire data e)) \<Longrightarrow> n = src"
  by (auto simp: handle_delta_update_def Let_def case_prod_unfold make_snapshot_request_def
      on_deserialize_error_def split: if_splits option.splits sum.splits delta_accept_result.splits
      version_mismatch_policy.splits)

lemma request_sends:
  "handle_request_snapshot name r e = Inr (e', acts) \<Longrightarrow> sends_to n acts \<Longrightarrow> n = r"
  by (auto simp: handle_request_snapshot_def Let_def split: if_splits sum.splits)

lemma inbound_departed_no_send:
  assumes "\<not> ll_should_accept_from (eng_lifecycle e) n" and "handle_inbound c msg e = Inr (e', acts)"
  shows "\<not> sends_to n acts"
proof (cases msg)
  case (Sync m)
  show ?thesis
  proof (cases m)
    case (FullSnapshot name src gen wire data)
    then show ?thesis using assms full_snapshot_frame(1) [of c name src gen wire data e]
      by (auto simp: Sync)
  next
    case (DeltaUpdate name src gen wire data)
    then show ?thesis
      using assms delta_update_sends [of n c name src gen wire data e] delta_update_departed [OF assms(1)]
      by (auto simp: Sync)
  next
    case (RequestSnapshot name r)
    then show ?thesis
      using assms request_sends [of name r e e' acts n] request_departed [OF assms(1)] by (auto simp: Sync)
  qed
qed (use assms in auto)

lemma query_no_send:
  "\<not> ll_should_accept_from (eng_lifecycle e) n \<Longrightarrow> \<not> sends_to n (snd (query c d p e))"
  by (auto simp: query_def sends_to_def Let_def split: query_result.splits)

lemma periodic_no_send: "periodic_sync e = Inr (e', acts) \<Longrightarrow> \<not> sends_to n acts"
  by (auto simp: periodic_sync_def Let_def split: if_splits sum.splits)

lemma engine_apply_departed:
  assumes "engine_wf e" and "n \<in> ll_departed_nodes (eng_lifecycle e)"
    and "\<And>c dv. ev \<noteq> EvJoined c n dv" and "engine_apply pd sd ev e = Inr (e', acts)"
  shows "n \<in> ll_departed_nodes (eng_lifecycle e') \<and> \<not> sends_to n acts"
proof (cases ev)
  case (EvInbound c msg)
  then show ?thesis
    using assms(1,2,4) inbound_ok [OF assms(1), of c msg] inbound_departed_no_send [of e n c msg e' acts]
    by (auto simp: ll_should_accept_from_def)
next
  case (EvJoined c k dv)
  then have kn: "k \<noteq> n" using assms(3) by blast
  from joined_ok [OF assms(1), of c k dv] obtain e1 m where
    "on_node_joined c k dv e = Inr (e1, [SendSync k m])"
    "ll_departed_nodes (eng_lifecycle e1) = ll_departed_nodes (eng_lifecycle e) - {k}" by blast
  moreover from this EvJoined assms(4) have "e' = e1" "acts = [SendSync k m]" by simp_all
  ultimately show ?thesis using kn assms(2) by simp
next
  case EvPeriodic
  then show ?thesis using assms(1,2,4) periodic_ok [OF assms(1)] periodic_no_send [of e e' acts n] by auto
next
  case (EvQuery c d)
  then show ?thesis using assms(1,2,4) query_no_send [of e n c d] by (auto simp: ll_should_accept_from_def)
qed (use assms(1,2,4) in \<open>auto simp: frame_simps\<close>)

lemma engine_run_departed:
  assumes "engine_wf e" and "n \<in> ll_departed_nodes (eng_lifecycle e)"
    and "\<And>c dv. EvJoined c n dv \<notin> set evs" and "engine_run pd sd evs e = Inr (e', acts)"
  shows "n \<in> ll_departed_nodes (eng_lifecycle e') \<and> \<not> sends_to n acts \<and> engine_wf e' \<and>
    engine_params e' = engine_params e"
  using assms
proof (induction evs arbitrary: e acts)
  case (Cons ev evs)
  from Cons.prems(4) obtain e1 a1 a2 where 1: "engine_apply pd sd ev e = Inr (e1, a1)"
    and 2: "engine_run pd sd evs e1 = Inr (e', a2)" and 3: "acts = a1 @ a2"
    by (auto split: sum.splits prod.splits)
  have "n \<in> ll_departed_nodes (eng_lifecycle e1) \<and> \<not> sends_to n a1"
    using Cons.prems by (intro engine_apply_departed [OF _ _ _ 1]) auto
  moreover have "engine_wf e1 \<and> engine_params e1 = engine_params e"
    using engine_apply_ok [OF Cons.prems(1), of pd sd ev] 1 by auto
  ultimately show ?case using Cons.IH [of e1 a2] Cons.prems(3) 2 3 by auto
qed simp

text \<open>
  C8: a departed peer stays gone. After a peer has left, no sequence of operations without a new join
  of that peer can bring its view back, however many late snapshots, deltas or announcements arrive,
  and none of the operations sends that peer a message.
\<close>

theorem departed_stays_gone:
  assumes "engine_wf e" and "n \<noteq> eng_node_id e" and "\<And>c dv. EvJoined c n dv \<notin> set evs"
    and "engine_run pd sd evs (on_node_left n e) = Inr (e', acts)"
  shows "eng_get_view e' n = None \<and> \<not> sends_to n acts"
proof -
  have "n \<in> ll_departed_nodes (eng_lifecycle e') \<and> \<not> sends_to n acts \<and> engine_wf e' \<and>
      engine_params e' = engine_params (on_node_left n e)"
    using assms by (intro engine_run_departed [where evs = evs]) (auto simp: wf_intros frame_simps)
  moreover from this have "eng_node_id e' = eng_node_id e"
    by (auto simp: frame_simps dest: engine_params_accept)
  ultimately show ?thesis
    using assms(2) engine_wf_no_ghosts [of e'] by (auto simp: no_ghosts_def eng_get_view_def)
qed

theorem departed_stays_gone_witness:
  "\<exists>e' acts. engine_run id demo_encode
      [EvInbound demo_clock (Sync (FullSnapshot ''s'' ''b'' (Generation 9 9) 1 [7])), EvQuery demo_clock 0]
      (on_node_left ''b'' (demo_engine ''a'' demo_config)) = Inr (e', acts) \<and>
    eng_get_view e' ''b'' = None \<and> \<not> sends_to ''b'' acts"
proof -
  let ?e = "on_node_left ''b'' (demo_engine ''a'' demo_config)"
  let ?evs = "[EvInbound demo_clock (Sync (FullSnapshot ''s'' ''b'' (Generation 9 9) 1 [7])), EvQuery demo_clock 0]"
  have "handle_full_snapshot demo_clock ''s'' ''b'' (Generation 9 9) 1 [7] ?e = (?e, [])"
    by (rule full_snapshot_departed) (simp add: ll_should_accept_from_def frame_simps)
  then have run: "engine_run id demo_encode ?evs ?e = Inr (?e, snd (query demo_clock 0 length ?e))"
    by simp
  show ?thesis
    using departed_stays_gone [OF demo_engine_wf _ _ run] run by auto
qed

subsection \<open>Version mismatches, queries, outbound actions\<close>

lemma modify_peer_get [lookup_simps]:
  "diag_wf d \<Longrightarrow> hm_get (d_peers (modify_peer n f d)) = (hm_get (d_peers d))(n \<mapsto>
     f (case hm_get (d_peers d) n of Some x \<Rightarrow> x | None \<Rightarrow> peer_diagnostics_default))"
  by (simp add: modify_peer_def diag_wf_def Let_def lookup_simps)

lemma modify_peer_frame [frame_simps]:
  "d_metrics (modify_peer n f d) = d_metrics d" "d_state_name (modify_peer n f d) = d_state_name d"
  by (simp_all add: modify_peer_def Let_def)

definition failures_of :: "('s, 'v) engine \<Rightarrow> node_id \<Rightarrow> u32" where
  "failures_of e n = (case hm_get (d_peers (eng_diagnostics e)) n of
     None \<Rightarrow> 0 | Some x \<Rightarrow> pd_consecutive_failures x)"

lemma failures_of_record_failure:
  "diag_wf (eng_diagnostics e) \<Longrightarrow>
   failures_of (with_diagnostics (record_sync_failure n r c) e) n = failures_of e n + 1"
  by (simp add: failures_of_def record_sync_failure_def Let_def lookup_simps peer_diagnostics_default_def
      split: option.splits)

lemma on_deserialize_error_obtain:
  obtains r where "on_deserialize_error vl v =
    (if vl_policy vl = DropAndWait then DropView v r else KeepStale v r)"
  by (cases "vl_policy vl") (auto simp: on_deserialize_error_def Let_def)

text \<open>
  C23: undecodable snapshots follow the policy. When the deserializer rejects a snapshot of a current
  member with \<open>UnknownVersion\<close>, nothing is sent and the peer's failure counter goes up by one; under
  \<open>DropAndWait\<close> exactly that peer's view disappears, under \<open>KeepStale\<close> no view changes. A malformed
  payload never changes a view. In every case the peer stays a member.
\<close>

theorem undecodable_follows_policy:
  assumes "engine_wf e" and "name = eng_state_name e" and "eng_should_accept_from e src"
    and "eng_deserialize_view e data wire = Inl err" and "src \<noteq> eng_node_id e"
    and "handle_inbound c (Sync (FullSnapshot name src gen wire data)) e = Inr (e', acts)"
  shows "acts = [] \<and> failures_of e' src = failures_of e src + 1 \<and> eng_should_accept_from e' src \<and>
    eng_get_view e' = (if vl_policy (eng_versioning e) = DropAndWait \<and> (\<exists>v. err = UnknownVersion v)
      then (eng_get_view e)(src := None) else eng_get_view e)"
proof -
  have e': "(e', acts) = handle_full_snapshot c name src gen wire data e" using assms(6) by simp
  have inb: "on_inbound (eng_versioning e) data wire (eng_deserialize_view e) =
      (case err of UnknownVersion v \<Rightarrow> VersionMismatch (on_deserialize_error (eng_versioning e) v)
       | Malformed msg \<Rightarrow> MalformedData msg)"
    using assms(4) by (simp add: on_inbound_def)
  have acc: "ll_should_accept_from (eng_lifecycle e) src" using assms(3) by (simp add: eng_should_accept_from_def)
  have views: "eng_get_view ((with_diagnostics f e)\<lparr>eng_shard := shard_on_node_left src (eng_shard e)\<rparr>) =
      (eng_get_view e)(src := None)" for f
    using assms(1,5) by (intro ext) (simp add: eng_get_view_def lookup_simps engine_wfD)
  have fails: "failures_of (x\<lparr>eng_shard := sh\<rparr>) n = failures_of x n" for x :: "('a, 'b) engine" and sh n
    by (simp add: failures_of_def)
  have view_diag: "eng_get_view (with_diagnostics f e) = eng_get_view e" for f
    by (rule ext) (simp add: eng_get_view_def)
  show ?thesis
  proof (cases err)
    case (UnknownVersion v)
    obtain r where "on_deserialize_error (eng_versioning e) v =
        (if vl_policy (eng_versioning e) = DropAndWait then DropView v r else KeepStale v r)"
      by (rule on_deserialize_error_obtain)
    then show ?thesis
      using e' assms(1,2) acc inb UnknownVersion
      by (cases "vl_policy (eng_versioning e)")
        (simp_all add: handle_full_snapshot_def Let_def views fails view_diag
          failures_of_record_failure engine_wfD eng_should_accept_from_def)
  next
    case (Malformed msg)
    then show ?thesis
      using e' assms(1,2) acc inb
      by (simp add: handle_full_snapshot_def view_diag failures_of_record_failure engine_wfD
          eng_should_accept_from_def)
  qed
qed

theorem undecodable_follows_policy_witness:
  "\<exists>e' acts. handle_inbound demo_clock (Sync (FullSnapshot ''s'' ''b'' (Generation 9 9) 2 [7]))
      (joined_engine demo_clock ''b'' 0
        (demo_engine ''a'' (demo_config\<lparr>sc_version_mismatch_policy := DropAndWait\<rparr>))) = Inr (e', acts) \<and>
    eng_get_view e' ''b'' = None \<and> eng_should_accept_from e' ''b''"
proof -
  let ?e = "joined_engine demo_clock ''b'' 0
    (demo_engine ''a'' (demo_config\<lparr>sc_version_mismatch_policy := DropAndWait\<rparr>))"
  have wf: "engine_wf ?e" by (simp add: wf_intros demo_engine_wf)
  from inbound_ok [OF wf] obtain e' acts where
    run: "handle_inbound demo_clock (Sync (FullSnapshot ''s'' ''b'' (Generation 9 9) 2 [7])) ?e = Inr (e', acts)"
    by blast
  have "eng_deserialize_view ?e [7] 2 = Inl (UnknownVersion 2)" "''s'' = eng_state_name ?e"
    "eng_should_accept_from ?e ''b''" "''b'' \<noteq> eng_node_id ?e"
    "vl_policy (eng_versioning ?e) = DropAndWait"
    by (simp_all add: joined_engine_def demo_decode_def eng_should_accept_from_def
        ll_should_accept_from_def frame_simps)
  with undecodable_follows_policy [OF wf _ _ _ _ run, of "UnknownVersion 2"] run show ?thesis by auto
qed

text \<open>
  C22: a query pulls exactly what is stale. The actions of a query are one snapshot request, in the
  order reported, for every peer reported stale that has not departed, provided the strategy pulls on
  query; the reported peers are exactly the stale ones, and a fresh answer sends nothing.
\<close>

theorem query_pulls_exactly_stale:
  assumes "engine_wf e" and "query c d project e = (res, acts)"
  shows "(case res of
      EngineFresh r \<Rightarrow> r = project (eng_snapshot e) \<and> stale_nodes (eng_shard e) d c = {} \<and> acts = []
    | EngineStale r ps \<Rightarrow> r = project (eng_snapshot e) \<and> set ps = stale_nodes (eng_shard e) d c \<and> ps \<noteq> [] \<and>
        acts = (if st_pull_on_query (eng_sync_strategy e)
                then map (make_snapshot_request e) (filter (eng_should_accept_from e) ps) else []))"
proof -
  have "filter (eng_should_accept_from e) ps = filter (ll_should_accept_from (eng_lifecycle e)) ps" for ps
    by (rule filter_cong) (simp_all add: eng_should_accept_from_def)
  then show ?thesis
    using assms(2) query_local_sound [OF engine_wf_shard [OF assms(1)], where d = d and c = c and project = project]
    by (auto simp: query_def eng_snapshot_def eng_sync_strategy_def make_snapshot_request_def Let_def
        split: query_result.splits)
qed

theorem query_pulls_exactly_stale_witness:
  "query demo_clock 5 length (joined_engine demo_clock ''b'' 0 (demo_engine ''a'' demo_config)) =
     (EngineStale 2 [''b''], [SendSync ''b'' (RequestSnapshot ''s'' ''a'')]) \<and>
   stale_nodes (eng_shard (joined_engine demo_clock ''b'' 0 (demo_engine ''a'' demo_config))) 5 demo_clock =
     {''b''}"
proof -
  let ?e = "joined_engine demo_clock ''b'' 0 (demo_engine ''a'' demo_config)"
  have wf: "engine_wf ?e" by (simp add: wf_intros demo_engine_wf)
  have q: "query demo_clock 5 length ?e = (EngineStale 2 [''b''], [SendSync ''b'' (RequestSnapshot ''s'' ''a'')])"
  proof -
    have "eng_shard ?e = shard_on_node_joined demo_clock ''b'' 0
        (shard_new ''a'' (new_state_object 0 1000 demo_clock) 0 demo_clock)"
      by (simp add: joined_engine_def demo_engine_def engine_new_def demo_clock_def Let_def)
        (simp add: new_state_object_def)
    moreover have "query_local (shard_on_node_joined demo_clock ''b'' 0
        (shard_new ''a'' (new_state_object (0::nat) 1000 demo_clock) (0::nat) demo_clock)) 5 demo_clock length =
        StalePeersDetected [''b''] 2"
      by code_simp
    ultimately show ?thesis
      by (simp add: query_def joined_engine_def ll_should_accept_from_def demo_config_def feed_lazy_pull_def
          frame_simps) (simp add: shard_new_def Let_def)
  qed
  from query_pulls_exactly_stale [OF wf q] q show ?thesis by simp
qed

text \<open>The messages of an action list, whoever they go to.\<close>

fun action_message :: "engine_action \<Rightarrow> sync_message" where
  "action_message (BroadcastSync m) = m"
| "action_message (SendSync n m) = m"
| "action_message (ScheduleDelayed d m) = m"

lemma mutate_acts:
  assumes "mutate c f p u e = (e', r)"
  shows "mr_actions r =
      (let m = FullSnapshot (eng_state_name e) (eng_node_id e)
                 (age_inc (so_generation (eng_state e))) (eng_wire_version e)
                 (eng_serialize_view e (p (f (so_value (eng_state e)))))
       in case u of
            Immediate \<Rightarrow> [BroadcastSync m]
          | Delayed d \<Rightarrow> [ScheduleDelayed d m]
          | SuppressUrgency \<Rightarrow> []
          | DefaultUrgency \<Rightarrow>
              if st_push_mode (eng_sync_strategy e) = Some ActivePush then [BroadcastSync m] else []) \<and>
    eng_change_feed e' =
      (if u = DefaultUrgency \<and> st_push_mode (eng_sync_strategy e) = Some ActiveFeedLazyPull
       then notify_change (eng_state_name e) (eng_node_id e) (age_inc (so_generation (eng_state e)))
              (eng_change_feed e)
       else eng_change_feed e)"
proof -
  have r: "mr_actions r = snd (sync_action_to_engine_actions_snapshot (resolve_action (eng_sync_logic e) u)
      (p (f (so_value (eng_state e))))
      (with_diagnostics record_mutation (e\<lparr>eng_shard := fst (apply_mutation c f p (eng_shard e))\<rparr>)))"
    and e': "e' = fst (sync_action_to_engine_actions_snapshot (resolve_action (eng_sync_logic e) u)
      (p (f (so_value (eng_state e))))
      (with_diagnostics record_mutation (e\<lparr>eng_shard := fst (apply_mutation c f p (eng_shard e))\<rparr>)))"
    using assms by (auto simp: mutate_eq Let_def apply_mutation_eq eng_state_def)
  show ?thesis
    unfolding r e'
    by (cases u) (auto simp: Let_def own_full_snapshot_def frame_simps eng_state_def broadcast_action_def
        eng_sync_strategy_def notify_own_change_def split: option.splits push_mode.splits)
qed

lemma flush_announces:
  assumes "engine_wf e" and "hm_get (cf_pending (eng_change_feed e)) k \<noteq> None"
  shows "\<exists>batch. snd (flush_change_feed e) = Some batch \<and> bf_source_node batch = eng_node_id e \<and>
    (\<forall>self. self \<noteq> eng_node_id e \<longrightarrow> set (route_inbound_batch batch self) =
      {(name, src, g). hm_get (cf_pending (eng_change_feed e)) (name, src) = Some g})"
proof -
  have wf: "cf_wf (eng_change_feed e)" "cf_node_id (eng_change_feed e) = eng_node_id e"
    using assms(1) by (simp_all add: engine_wf_def)
  have "cf_pending (eng_change_feed e) \<noteq> []" using assms(2) by (auto simp: hm_get_def)
  then obtain cf batch where fl: "cf_flush (eng_change_feed e) = (cf, Some batch)" "bf_source_node batch = eng_node_id e"
    by (simp add: cf_flush_def wf(2))
  then show ?thesis
    using flush_route [OF wf(1) fl(1)] by (simp add: flush_change_feed_def wf(2) cf_highest_def)
qed

text \<open>
  C21: what a mutation sends. A plain mutation broadcasts the new view as a full snapshot at the new
  generation when the urgency is \<open>Immediate\<close> (also on an engine with delta support) or \<open>Default\<close> with
  active push, schedules that same snapshot when it is \<open>Delayed\<close>, and sends nothing otherwise. In
  the change-feed mode a \<open>Default\<close> mutation leaves pending in the feed, for its own state and node, the newer of its generation and the one pending
  before, and the next flush announces to every other node exactly what is pending, this entry among it; in
  every other case, and for every other state and node, what was pending stays as it was.
\<close>

theorem mutate_actions:
  assumes "engine_wf e" and "mutate c f p u e = (e', r)"
  shows "mr_actions r =
      (let m = FullSnapshot (eng_state_name e) (eng_node_id e)
                 (age_inc (so_generation (eng_state e))) (eng_wire_version e)
                 (eng_serialize_view e (p (f (so_value (eng_state e)))))
       in case u of
            Immediate \<Rightarrow> [BroadcastSync m]
          | Delayed d \<Rightarrow> [ScheduleDelayed d m]
          | SuppressUrgency \<Rightarrow> []
          | DefaultUrgency \<Rightarrow>
              if st_push_mode (eng_sync_strategy e) = Some ActivePush then [BroadcastSync m] else []) \<and>
    (let feed = (u = DefaultUrgency \<and> st_push_mode (eng_sync_strategy e) = Some ActiveFeedLazyPull);
         g = age_inc (so_generation (eng_state e));
         old = hm_get (cf_pending (eng_change_feed e)); new = hm_get (cf_pending (eng_change_feed e'))
     in new = (if feed
          then old((eng_state_name e, eng_node_id e) \<mapsto>
            (case old (eng_state_name e, eng_node_id e) of None \<Rightarrow> g | Some h \<Rightarrow> max h g))
          else old) \<and>
        (feed \<longrightarrow> (\<exists>batch. snd (flush_change_feed e') = Some batch \<and> bf_source_node batch = eng_node_id e \<and>
          (\<forall>self. self \<noteq> eng_node_id e \<longrightarrow>
            set (route_inbound_batch batch self) = {(name, src, h). new (name, src) = Some h}))))"
proof -
  let ?feed = "u = DefaultUrgency \<and> st_push_mode (eng_sync_strategy e) = Some ActiveFeedLazyPull"
  let ?k = "(eng_state_name e, eng_node_id e)" and ?g = "age_inc (so_generation (eng_state e))"
  let ?old = "hm_get (cf_pending (eng_change_feed e))" and ?new = "hm_get (cf_pending (eng_change_feed e'))"
  note m = mutate_acts [OF assms(2)]
  have wf: "engine_wf e'" "eng_node_id e' = eng_node_id e"
    using mutate_wf(1) [OF assms(1), of c f p u] mutate_frame(3) [of c f p u e] assms(2) by (simp_all add: engine_params_def)
  have "?new = (if ?feed then ?old(?k \<mapsto> (case ?old ?k of None \<Rightarrow> ?g | Some h \<Rightarrow> max h ?g)) else ?old)"
    using feed.bump_law [of "eng_change_feed e" "(?k, ?g)"] assms(1) conjunct2 [OF m]
    by (simp add: cf_highest_def [abs_def] cf_notify_def engine_wf_def split: option.split)
  moreover from this have "?feed \<Longrightarrow> ?new ?k \<noteq> None" by simp
  ultimately show ?thesis
    using conjunct1 [OF m] flush_announces [OF wf(1), of ?k] wf(2) unfolding Let_def by auto
qed

theorem mutate_actions_witness:
  "mr_actions (snd (mutate demo_clock Suc id Immediate (demo_engine ''a'' demo_config))) =
     [BroadcastSync (FullSnapshot ''s'' ''a'' (Generation 1000 1) 1 [1])] \<and>
   (\<exists>batch. snd (flush_change_feed (fst (mutate demo_clock Suc id DefaultUrgency (demo_engine ''a'' demo_config)))) = Some batch \<and>
     set (route_inbound_batch batch ''b'') = {(''s'', ''a'', Generation 1000 1)})"
proof -
  let ?e = "demo_engine ''a'' demo_config"
  note t = mutate_actions [OF demo_engine_wf surjective_pairing, of demo_clock Suc id _ "''a''" demo_config]
  have old: "hm_get (cf_pending (eng_change_feed ?e)) = Map.empty" "st_push_mode (eng_sync_strategy ?e) = Some ActiveFeedLazyPull"
    by (simp_all add: demo_engine_def engine_new_def cf_new_def eng_sync_strategy_def demo_config_def feed_lazy_pull_def
        hm_get_def fun_eq_iff sync_logic_new_def Let_def)
  have "\<exists>batch. snd (flush_change_feed (fst (mutate demo_clock Suc id DefaultUrgency ?e))) = Some batch \<and>
      set (route_inbound_batch batch ''b'') = {(name, src, h). [(''s'', ''a'') \<mapsto> Generation 1000 1] (name, src) = Some h}"
    using conjunct2 [OF t [of DefaultUrgency]] by (auto simp: old eng_state_def age_inc_def Let_def)
  moreover have "{(name, src, h). [(''s'', ''a'') \<mapsto> Generation 1000 1] (name, src) = Some h} = {(''s'', ''a'', Generation 1000 1)}"
    by (auto split: if_splits)
  ultimately show ?thesis
    using conjunct1 [OF t [of Immediate]] by (simp add: eng_state_def age_inc_def demo_encode_def)
qed

subsection \<open>Views only move forward\<close>

lemma full_snapshot_le:
  assumes "engine_wf e" and "vl_policy (eng_versioning e) = KeepStalePolicy"
  shows "views_le (eng_get_view e) (eng_get_view (fst (handle_full_snapshot c name src gen wire data e)))"
  using assms accept_snapshot_le [OF engine_wf_shard [OF assms(1)], of c]
  by (auto simp: eng_get_view_def [abs_def] full_snapshot_shard on_inbound_def on_deserialize_error_def Let_def
      split: inbound_version_result.splits version_mismatch_action.splits sum.splits
        deserialize_error.splits)

lemma delta_update_le:
  assumes "engine_wf e" and "vl_policy (eng_versioning e) = KeepStalePolicy"
    and "\<And>v. eng_get_view e src = Some v \<Longrightarrow> age (sv_generation v) \<noteq> - 1"
  shows "views_le (eng_get_view e) (eng_get_view (fst (handle_delta_update c name src gen wire data e)))"
  using assms accept_delta_le [OF engine_wf_shard [OF assms(1)], of src c gen wire]
  by (auto simp: eng_get_view_def [abs_def] delta_update_shard split: option.splits)

lemma feed_entry_le:
  "engine_wf e \<Longrightarrow> views_le (eng_get_view e) (eng_get_view (apply_feed_entry x e))"
  by (auto simp: eng_get_view_def [abs_def] apply_feed_entry_def engine_wfD mark_stale_le split: prod.splits)

lemma feed_fold_le:
  "engine_wf e \<Longrightarrow> views_le (eng_get_view e) (eng_get_view (fold apply_feed_entry xs e))"
proof (induction xs arbitrary: e)
  case (Cons x xs)
  then have "views_le (eng_get_view (apply_feed_entry x e)) (eng_get_view (fold apply_feed_entry (x # xs) e))"
    by (simp add: wf_intros)
  with feed_entry_le [OF Cons.prems, of x] show ?case by (rule views_le_trans)
qed simp

text \<open>
  C9: views only move forward. Under the \<open>KeepStale\<close> policy, handling an inbound message of any kind,
  from any source, with any content, neither removes a view nor lowers its generation, as long as the
  64-bit age counters of the held views are not exhausted.
\<close>

theorem inbound_only_forward:
  assumes "engine_wf e" and "vl_policy (eng_versioning e) = KeepStalePolicy"
    and "\<And>n v. eng_get_view e n = Some v \<Longrightarrow> age (sv_generation v) \<noteq> - 1"
    and "handle_inbound c msg e = Inr (e', acts)"
  shows "views_le (eng_get_view e) (eng_get_view e')"
proof (cases msg)
  case (Sync m)
  show ?thesis
  proof (cases m)
    case (FullSnapshot name src gen wire data)
    then show ?thesis
      using assms full_snapshot_le [OF assms(1,2), of c name src gen wire data] by (auto simp: Sync)
  next
    case (DeltaUpdate name src gen wire data)
    have "age (sv_generation v) \<noteq> - 1" if "eng_get_view e src = Some v" for v
      using assms(3) that by blast
    from delta_update_le [OF assms(1,2) this] DeltaUpdate assms(4) show ?thesis
      by (metis Sync fst_conv handle_inbound.simps(1) handle_inbound_sync.simps(2) sum.inject(2))
  next
    case (RequestSnapshot name r)
    then show ?thesis
      using assms(4) request_snapshot_ok [OF assms(1), of name r]
      by (auto simp: Sync eng_get_view_def [abs_def])
  qed
next
  case (Feed feed)
  then show ?thesis
    using assms(4) feed_fold_le [OF assms(1)] by (auto simp: handle_inbound_change_feed_def)
qed

theorem inbound_only_forward_witness:
  "\<exists>e' acts. handle_inbound demo_clock (Sync (FullSnapshot ''s'' ''b'' (Generation 9 9) 1 [7]))
      (demo_engine ''a'' demo_config) = Inr (e', acts) \<and>
    views_le (eng_get_view (demo_engine ''a'' demo_config)) (eng_get_view e')"
proof -
  let ?e = "demo_engine ''a'' demo_config"
  have "vl_policy (eng_versioning ?e) = KeepStalePolicy"
    by (simp add: demo_config_def state_config_default_def)
  moreover have "age (sv_generation v) \<noteq> - 1" if "eng_get_view ?e n = Some v" for n v
    using that by (auto simp: demo_engine_def engine_new_def eng_get_view_def lookup_simps Let_def
        new_state_object_def generation_new_def split: if_splits)
  ultimately show ?thesis
    using inbound_only_forward [OF demo_engine_wf] inbound_ok [OF demo_engine_wf] by metis
qed

subsection \<open>Counters\<close>

fun is_mutation :: "('s, 'v, 'dc) engine_event \<Rightarrow> bool" where
  "is_mutation (EvMutate _ _ _ _) = True"
| "is_mutation (EvMutateDelta _ _ _ _) = True"
| "is_mutation _ = False"

definition mutation_count :: "('s, 'v) engine \<Rightarrow> u64" where
  "mutation_count e = em_total_mutations (metrics e)"

lemma mutation_count_diag:
  "mutation_count e = m_total_mutations (d_metrics (eng_diagnostics e))"
  by (simp add: mutation_count_def metrics_def Let_def)

lemma record_mutation_metrics [simp]:
  "m_total_mutations (d_metrics (record_mutation d)) = m_total_mutations (d_metrics d) + 1"
  by (simp add: record_mutation_def)

lemma record_total_mutations [simp]:
  "m_total_mutations (d_metrics (record_sync_failure n r c d)) = m_total_mutations (d_metrics d)"
  "m_total_mutations (d_metrics (record_gap_detected n d)) = m_total_mutations (d_metrics d)"
  "m_total_mutations (d_metrics (record_delta_sent d)) = m_total_mutations (d_metrics d)"
  "m_total_mutations (d_metrics (record_delta_immediate d)) = m_total_mutations (d_metrics d)"
  "m_total_mutations (d_metrics (record_snapshot_sent d)) = m_total_mutations (d_metrics d)"
  "m_total_mutations (d_metrics (record_delta_suppressed d)) = m_total_mutations (d_metrics d)"
  "m_total_mutations (d_metrics (record_stale_delta_discarded d)) = m_total_mutations (d_metrics d)"
  "m_total_mutations (d_metrics (record_delta_received n l c d)) = m_total_mutations (d_metrics d)"
  "m_total_mutations (d_metrics (record_snapshot_received n l c d)) = m_total_mutations (d_metrics d)"
  "m_total_mutations (d_metrics (diag_remove_peer n d)) = m_total_mutations (d_metrics d)"
  by (simp_all add: record_sync_failure_def record_gap_detected_def record_delta_sent_def
      record_delta_immediate_def record_snapshot_sent_def record_delta_suppressed_def
      record_stale_delta_discarded_def record_delta_received_def record_snapshot_received_def
      record_sync_success_def diag_remove_peer_def Let_def frame_simps)

lemma to_actions_count [simp]:
  "mutation_count (fst (sync_action_to_engine_actions_snapshot a v e)) = mutation_count e"
  "mutation_count (fst (sync_action_to_engine_actions_delta a v d s e)) = mutation_count e"
  by (cases a; simp add: mutation_count_diag Let_def)+

lemma full_snapshot_count:
  "mutation_count (fst (handle_full_snapshot c name src gen wire data e)) = mutation_count e"
  by (auto simp: handle_full_snapshot_def mutation_count_diag Let_def case_prod_unfold
      split: inbound_version_result.splits version_mismatch_action.splits accept_result.splits)

lemma delta_update_count:
  "mutation_count (fst (handle_delta_update c name src gen wire data e)) = mutation_count e"
  by (auto simp: handle_delta_update_def mutation_count_diag Let_def case_prod_unfold on_deserialize_error_def
      split: option.splits sum.splits delta_accept_result.splits version_mismatch_policy.splits)

lemma request_count:
  "handle_request_snapshot name r e = Inr (e', acts) \<Longrightarrow> mutation_count e' = mutation_count e"
  by (auto simp: handle_request_snapshot_def mutation_count_diag Let_def split: if_splits sum.splits)

lemma inbound_count:
  assumes "handle_inbound c msg e = Inr (e', acts)" shows "mutation_count e' = mutation_count e"
proof (cases msg)
  case (Sync m)
  show ?thesis
  proof (cases m)
    case (FullSnapshot name src gen wire data)
    with assms Sync have "e' = fst (handle_full_snapshot c name src gen wire data e)" by simp
    then show ?thesis by (simp only: full_snapshot_count)
  next
    case (DeltaUpdate name src gen wire data)
    with assms Sync have "e' = fst (handle_delta_update c name src gen wire data e)" by simp
    then show ?thesis by (simp only: delta_update_count)
  qed (use assms Sync request_count in auto)
qed (use assms in \<open>auto simp: handle_inbound_change_feed_def mutation_count_diag frame_simps\<close>)

lemma engine_apply_count:
  assumes "engine_apply pd sd ev e = Inr (e', acts)"
  shows "mutation_count e' = mutation_count e + (if is_mutation ev then 1 else 0)"
proof (cases ev)
  case (EvInbound c msg)
  then show ?thesis using assms inbound_count by auto
next
  case (EvMutate c f p u)
  then have "e' = fst (mutate c f p u e)" using assms by simp
  then show ?thesis using EvMutate by (simp add: mutate_eq Let_def) (simp add: mutation_count_diag)
next
  case (EvMutateDelta c g p u)
  then have "e' = fst (mutate_with_delta c g p pd u sd e)" using assms by simp
  then show ?thesis using EvMutateDelta by (simp add: mutate_with_delta_eq Let_def) (simp add: mutation_count_diag)
next
  case (EvJoined c n dv)
  then show ?thesis
    using assms by (auto simp: on_node_joined_def ll_on_node_joined_def Let_def mutation_count_diag
        split: sum.splits prod.splits)
qed (use assms in \<open>auto simp: mutation_count_diag flush_change_feed_def case_prod_unfold on_node_left_def
      ll_on_node_left_def periodic_sync_def Let_def split: if_splits sum.splits\<close>)

text \<open>
  the mutation counter is exact. Over any run of operations the metric grows by the number of
  mutations in the run, of either kind (modulo the 64-bit counter), and by nothing else.
\<close>

theorem run_counts_mutations:
  assumes "engine_run pd sd evs e = Inr (e', acts)"
  shows "em_total_mutations (metrics e') =
    em_total_mutations (metrics e) + of_nat (length (filter is_mutation evs))"
  unfolding mutation_count_def [symmetric] using assms
proof (induction evs arbitrary: e acts)
  case (Cons ev evs)
  from Cons.prems obtain e1 a1 a2 where "engine_apply pd sd ev e = Inr (e1, a1)"
    and "engine_run pd sd evs e1 = Inr (e', a2)"
    by (auto split: sum.splits prod.splits)
  with Cons.IH [of e1 a2] engine_apply_count [of pd sd ev e e1 a1] show ?case by simp
qed simp

theorem run_counts_mutations_witness:
  "\<exists>e' acts. engine_run id demo_encode
      [EvMutate demo_clock Suc id Immediate, EvFlush, EvMutateDelta demo_clock (\<lambda>n. (n + 2, 2)) id Immediate]
      (demo_engine ''a'' demo_config) = Inr (e', acts) \<and> em_total_mutations (metrics e') = 2"
proof -
  let ?evs = "[EvMutate demo_clock Suc id Immediate, EvFlush,
    EvMutateDelta demo_clock (\<lambda>n. (n + 2, 2)) id Immediate]"
  have "\<exists>e' acts. engine_run id demo_encode ?evs (demo_engine ''a'' demo_config) = Inr (e', acts)" by simp
  moreover have "em_total_mutations (metrics (demo_engine ''a'' demo_config)) = 0"
    by (simp add: metrics_def demo_engine_def engine_new_def diagnostics_new_def metrics_default_def Let_def)
  ultimately show ?thesis
    using run_counts_mutations [of id demo_encode ?evs "demo_engine ''a'' demo_config"] by fastforce
qed

end
