(* ===== verification/State_Actor.thy ===== *)
theory State_Actor
  imports Engine
begin

text \<open>
  \<open>dstate-dactor/src/messages.rs\<close> and \<open>state_actor.rs\<close>: the actor that owns an engine. The actor runtime
  is not part of the repository, so what a send does is an effect on a world \<open>'w\<close> and \<open>ActorRef::tell\<close>
  is a parameter. The peer registry is shared between actors behind a mutex; every handler locks it
  once or twice and never across a send, and the registry is threaded through explicitly. The tasks
  spawned with \<open>tokio::spawn\<close> are kept in a list until their timer fires.
\<close>

section \<open>Messages\<close>

record ('s, 'v) mutate_msg =
  mm_mutate_fn :: "'s \<Rightarrow> 's"
  mm_project_fn :: "'s \<Rightarrow> 'v"
  mm_urgency :: sync_urgency

record inbound_sync = is_message :: sync_message

record inbound_wire = iw_message :: wire_message

record query_views = qv_max_staleness :: duration

definition query_views_new :: "duration \<Rightarrow> query_views" where
  "query_views_new max_staleness = \<lparr>qv_max_staleness = max_staleness\<rparr>"

record 'v query_reply =
  qr_views :: "(node_id, 'v state_view_object) hmap"
  qr_result :: "unit engine_query_result"

datatype 'v cluster_change = NodeJoined node_id 'v | NodeLeft node_id

datatype ('s, 'v) actor_msg =
    MutateMsg "('s, 'v) mutate_msg"
  | InboundSyncMsg inbound_sync
  | InboundWireMsg inbound_wire
  | QueryViewsMsg query_views
  | ClusterChangeMsg "'v cluster_change"
  | PeriodicSyncMsg
  | FlushChangeFeedMsg

section \<open>Peers\<close>

text \<open>The trait \<open>PeerSender\<close>: its two methods, as effects on the world.\<close>

record 'w peer_sender =
  ps_send_sync :: "sync_message \<Rightarrow> 'w \<Rightarrow> 'w"
  ps_send_wire :: "wire_message \<Rightarrow> 'w \<Rightarrow> 'w"

type_synonym 'w peer_registry = "(node_id, 'w peer_sender) hmap"

definition new_peer_registry :: "'w peer_registry" where
  "new_peer_registry = []"

text \<open>\<open>ActorRefPeerSender\<close>: a message is told to the actor; an error of \<open>tell\<close> is only logged.\<close>

definition actor_ref_peer_sender ::
    "('r \<Rightarrow> ('s, 'v) actor_msg \<Rightarrow> 'w \<Rightarrow> string option \<times> 'w) \<Rightarrow> 'r \<Rightarrow> 'w peer_sender" where
  "actor_ref_peer_sender tell actor_ref = \<lparr>
     ps_send_sync = (\<lambda>message w. snd (tell actor_ref (InboundSyncMsg \<lparr>is_message = message\<rparr>) w)),
     ps_send_wire = (\<lambda>message w. snd (tell actor_ref (InboundWireMsg \<lparr>iw_message = message\<rparr>) w))\<rparr>"

section \<open>The actor\<close>

record delayed_task =
  dt_delay :: duration
  dt_message :: sync_message

record ('s, 'v) state_actor =
  act_engine :: "('s, 'v) engine"
  act_cancelled :: bool
  act_tasks :: "delayed_task list"

definition actor_create :: "('s, 'v) engine \<Rightarrow> ('s, 'v) state_actor" where
  "actor_create engine = \<lparr>act_engine = engine, act_cancelled = False, act_tasks = []\<rparr>"

definition actor_on_stop :: "('s, 'v) state_actor \<Rightarrow> ('s, 'v) state_actor" where
  "actor_on_stop a = a\<lparr>act_cancelled := True\<rparr>"

definition senders_except :: "node_id \<Rightarrow> 'w peer_registry \<Rightarrow> 'w peer_registry" where
  "senders_except own_id peers = filter (\<lambda>(k, s). k \<noteq> own_id) peers"

definition send_sync_all :: "'w peer_registry \<Rightarrow> sync_message \<Rightarrow> 'w \<Rightarrow> 'w" where
  "send_sync_all senders msg w = fold (\<lambda>(k, sender) w. ps_send_sync sender msg w) senders w"

fun route_one ::
    "'w peer_registry \<Rightarrow> engine_action \<Rightarrow> ('s, 'v) state_actor \<times> 'w \<Rightarrow> ('s, 'v) state_actor \<times> 'w" where
  "route_one senders (BroadcastSync msg) (a, w) = (a, send_sync_all senders msg w)"
| "route_one senders (SendSync target msg) (a, w) =
     (a, case find (\<lambda>(k, s). k = target) senders of
           None \<Rightarrow> w
         | Some (k, sender) \<Rightarrow> ps_send_sync sender msg w)"
| "route_one senders (ScheduleDelayed delay msg) (a, w) =
     (a\<lparr>act_tasks := act_tasks a @ [\<lparr>dt_delay = delay, dt_message = msg\<rparr>]\<rparr>, w)"

definition actor_route ::
    "'w peer_registry \<Rightarrow> engine_action list \<Rightarrow> ('s, 'v) state_actor \<times> 'w \<Rightarrow> ('s, 'v) state_actor \<times> 'w" where
  "actor_route peers actions aw =
     (let senders = senders_except (eng_node_id (act_engine (fst aw))) peers
      in fold (route_one senders) actions aw)"

text \<open>A spawned task when its sleep ends: the \<open>select!\<close> prefers the cancellation, and the peers are those
  registered at that moment.\<close>

definition task_fires ::
    "nat \<Rightarrow> 'w peer_registry \<Rightarrow> ('s, 'v) state_actor \<times> 'w \<Rightarrow> ('s, 'v) state_actor \<times> 'w" where
  "task_fires i peers aw =
     (case aw of (a, w) \<Rightarrow>
        if i < length (act_tasks a)
        then (a\<lparr>act_tasks := take i (act_tasks a) @ drop (Suc i) (act_tasks a)\<rparr>,
              if act_cancelled a then w
              else send_sync_all (senders_except (eng_node_id (act_engine a)) peers)
                     (dt_message (act_tasks a ! i)) w)
        else (a, w))"

section \<open>Handlers\<close>

definition handle_mutate ::
    "clock_reading \<Rightarrow> ('s, 'v) mutate_msg \<Rightarrow> 'w peer_registry \<Rightarrow> ('s, 'v) state_actor \<times> 'w \<Rightarrow>
     ('s, 'v) state_actor \<times> 'w" where
  "handle_mutate clock msg peers aw =
     (case aw of (a, w) \<Rightarrow>
        (let (e, r) = mutate clock (mm_mutate_fn msg) (mm_project_fn msg) (mm_urgency msg) (act_engine a)
         in actor_route peers (mr_actions r) (a\<lparr>act_engine := e\<rparr>, w)))"

text \<open>The shape shared by the handlers that call a fallible engine operation and route its actions.\<close>

definition run_and_route ::
    "(('s, 'v) engine \<Rightarrow> engine_panic + ('s, 'v) engine \<times> engine_action list) \<Rightarrow> 'w peer_registry \<Rightarrow>
     ('s, 'v) state_actor \<times> 'w \<Rightarrow> engine_panic + ('s, 'v) state_actor \<times> 'w" where
  "run_and_route op peers aw =
     (case aw of (a, w) \<Rightarrow>
        (case op (act_engine a) of
           Inl p \<Rightarrow> Inl p
         | Inr (e, actions) \<Rightarrow> Inr (actor_route peers actions (a\<lparr>act_engine := e\<rparr>, w))))"

definition handle_inbound_sync_msg where
  "handle_inbound_sync_msg clock msg = run_and_route (handle_inbound_sync clock (is_message msg))"

definition handle_inbound_wire_msg where
  "handle_inbound_wire_msg clock msg = run_and_route (handle_inbound clock (iw_message msg))"

definition handle_periodic_sync where
  "handle_periodic_sync = run_and_route periodic_sync"

definition handle_query_views ::
    "clock_reading \<Rightarrow> query_views \<Rightarrow> 'w peer_registry \<Rightarrow> ('s, 'v) state_actor \<times> 'w \<Rightarrow>
     (('s, 'v) state_actor \<times> 'w) \<times> 'v query_reply" where
  "handle_query_views clock msg peers aw =
     (case aw of (a, w) \<Rightarrow>
        (let (result, actions) = query clock (qv_max_staleness msg) (\<lambda>view_map. view_map) (act_engine a);
             aw = actor_route peers actions (a, w);
             (views, result) =
               (case result of
                  EngineFresh views \<Rightarrow> (views, EngineFresh ())
                | EngineStale views stale_peers \<Rightarrow> (views, EngineStale () stale_peers))
         in (aw, \<lparr>qr_views = views, qr_result = result\<rparr>)))"

fun handle_cluster_change ::
    "clock_reading \<Rightarrow> 'v cluster_change \<Rightarrow> 'w peer_registry \<Rightarrow> ('s, 'v) state_actor \<times> 'w \<Rightarrow>
     engine_panic + 'w peer_registry \<times> ('s, 'v) state_actor \<times> 'w" where
  "handle_cluster_change clock (NodeJoined node default_view) peers aw =
     (case run_and_route (on_node_joined clock node default_view) peers aw of
        Inl p \<Rightarrow> Inl p
      | Inr aw \<Rightarrow> Inr (peers, aw))"
| "handle_cluster_change clock (NodeLeft node) peers (a, w) =
     Inr (hm_remove node peers, a\<lparr>act_engine := on_node_left node (act_engine a)\<rparr>, w)"

definition handle_flush_change_feed ::
    "'w peer_registry \<Rightarrow> ('s, 'v) state_actor \<times> 'w \<Rightarrow> ('s, 'v) state_actor \<times> 'w" where
  "handle_flush_change_feed peers aw =
     (case aw of (a, w) \<Rightarrow>
        (let (e, batch) = flush_change_feed (act_engine a);
             a = a\<lparr>act_engine := e\<rparr>
         in case batch of
              None \<Rightarrow> (a, w)
            | Some feed \<Rightarrow>
                (a, fold (\<lambda>(k, sender) w. ps_send_wire sender (Feed feed) w)
                      (senders_except (eng_node_id e) peers) w)))"

text \<open>The dispatch of the runtime: one message at a time, each with the clock its handler reads.\<close>

fun actor_handle ::
    "clock_reading \<Rightarrow> ('s, 'v) actor_msg \<Rightarrow> 'w peer_registry \<times> ('s, 'v) state_actor \<times> 'w \<Rightarrow>
     engine_panic + 'w peer_registry \<times> ('s, 'v) state_actor \<times> 'w" where
  "actor_handle clock (MutateMsg msg) (peers, aw) = Inr (peers, handle_mutate clock msg peers aw)"
| "actor_handle clock (InboundSyncMsg msg) (peers, aw) =
     map_sum id (Pair peers) (handle_inbound_sync_msg clock msg peers aw)"
| "actor_handle clock (InboundWireMsg msg) (peers, aw) =
     map_sum id (Pair peers) (handle_inbound_wire_msg clock msg peers aw)"
| "actor_handle clock (QueryViewsMsg msg) (peers, aw) = Inr (peers, fst (handle_query_views clock msg peers aw))"
| "actor_handle clock (ClusterChangeMsg msg) (peers, aw) = handle_cluster_change clock msg peers aw"
| "actor_handle clock PeriodicSyncMsg (peers, aw) = map_sum id (Pair peers) (handle_periodic_sync peers aw)"
| "actor_handle clock FlushChangeFeedMsg (peers, aw) = Inr (peers, handle_flush_change_feed peers aw)"

section \<open>What a handler sends\<close>

text \<open>The sends of an action, as a list, and the effect of a list of sends.\<close>

fun routed :: "node_id \<Rightarrow> node_id list \<Rightarrow> engine_action \<Rightarrow> (node_id \<times> wire_message) list" where
  "routed own ids (BroadcastSync m) = map (\<lambda>k. (k, Sync m)) (filter (\<lambda>k. k \<noteq> own) ids)"
| "routed own ids (SendSync t m) = (if t \<in> set ids \<and> t \<noteq> own then [(t, Sync m)] else [])"
| "routed own ids (ScheduleDelayed d m) = []"

fun delayed :: "engine_action \<Rightarrow> delayed_task list" where
  "delayed (ScheduleDelayed d m) = [\<lparr>dt_delay = d, dt_message = m\<rparr>]"
| "delayed _ = []"

fun send_one :: "'w peer_registry \<Rightarrow> node_id \<times> wire_message \<Rightarrow> 'w \<Rightarrow> 'w" where
  "send_one peers (k, m) w =
     (case hm_get peers k of
        None \<Rightarrow> w
      | Some s \<Rightarrow> (case m of Sync sm \<Rightarrow> ps_send_sync s sm w | Feed f \<Rightarrow> ps_send_wire s (Feed f) w))"

abbreviation send_each :: "'w peer_registry \<Rightarrow> (node_id \<times> wire_message) list \<Rightarrow> 'w \<Rightarrow> 'w" where
  "send_each peers \<equiv> fold (send_one peers)"

lemma registry_entry: "hm_wf peers \<Longrightarrow> (k, s) \<in> set peers \<Longrightarrow> hm_get peers k = Some s"
  by (simp add: hm_wf_def hm_get_def)

lemma senders_fold:
  assumes "hm_wf peers" and "\<And>k s w. hm_get peers k = Some s \<Longrightarrow> g s w = send_one peers (k, m) w"
  shows "fold (\<lambda>(k, sender) w. g sender w) (senders_except own peers) w =
    send_each peers (map (\<lambda>k. (k, m)) (filter (\<lambda>k. k \<noteq> own) (hm_keys peers))) w"
proof -
  have "fold (\<lambda>(k, sender) w. g sender w) (filter (\<lambda>(k, s). k \<noteq> own) xs) w =
      send_each peers (map (\<lambda>k. (k, m)) (filter (\<lambda>k. k \<noteq> own) (map fst xs))) w"
    if "set xs \<subseteq> set peers" for xs w
    using that by (induction xs arbitrary: w) (auto simp: assms(2) [OF registry_entry [OF assms(1)]])
  from this [of peers] show ?thesis by (simp add: senders_except_def hm_keys_def)
qed

lemma send_sync_all_each:
  assumes "hm_wf peers"
  shows "send_sync_all (senders_except own peers) m w =
    send_each peers (map (\<lambda>k. (k, Sync m)) (filter (\<lambda>k. k \<noteq> own) (hm_keys peers))) w"
  unfolding send_sync_all_def by (rule senders_fold [OF assms]) simp

lemma find_sender:
  assumes "hm_wf peers"
  shows "(case find (\<lambda>(k, s). k = t) (senders_except own peers) of None \<Rightarrow> w | Some (k, s) \<Rightarrow> ps_send_sync s m w) =
    send_each peers (if t \<in> set (hm_keys peers) \<and> t \<noteq> own then [(t, Sync m)] else []) w"
proof (cases "find (\<lambda>(k, s). k = t) (senders_except own peers)")
  case None
  then have "t \<notin> set (hm_keys peers) \<or> t = own"
    by (auto simp: find_None_iff senders_except_def hm_keys_def)
  then show ?thesis using None by auto
next
  case (Some ks)
  then have "ks \<in> set (senders_except own peers)" "fst ks = t"
    by (auto simp: find_Some_iff case_prod_unfold)
  then obtain s where s: "ks = (t, s)" "(t, s) \<in> set peers" "t \<noteq> own"
    by (metis (mono_tags, lifting) case_prodD mem_Collect_eq prod.collapse senders_except_def set_filter)
  then show ?thesis using Some registry_entry [OF assms s(2)] by (force simp: hm_keys_def)
qed

lemma route_one_spec:
  assumes "hm_wf peers"
  shows "route_one (senders_except own peers) act (a, w) =
    (a\<lparr>act_tasks := act_tasks a @ delayed act\<rparr>, send_each peers (routed own (hm_keys peers) act) w)"
  by (cases act) (simp_all add: send_sync_all_each [OF assms] find_sender [OF assms] del: fold_simps)

lemma actor_route_spec:
  assumes "hm_wf peers"
  shows "actor_route peers acts (a, w) =
    (a\<lparr>act_tasks := act_tasks a @ concat (map delayed acts)\<rparr>,
     send_each peers (concat (map (routed (eng_node_id (act_engine a)) (hm_keys peers)) acts)) w)"
proof -
  have "fold (route_one (senders_except own peers)) acts (a, w) =
    (a\<lparr>act_tasks := act_tasks a @ concat (map delayed acts)\<rparr>,
     send_each peers (concat (map (routed own (hm_keys peers)) acts)) w)" for own a w
    by (induction acts arbitrary: a w) (simp_all add: route_one_spec [OF assms])
  then show ?thesis by (simp add: actor_route_def)
qed

section \<open>The actor is its engine\<close>

text \<open>The engine event a message stands for, and what its handler sends besides the actions of that event.\<close>

fun event_of :: "clock_reading \<Rightarrow> ('s, 'v) actor_msg \<Rightarrow> ('s, 'v, unit) engine_event" where
  "event_of c (MutateMsg m) = EvMutate c (mm_mutate_fn m) (mm_project_fn m) (mm_urgency m)"
| "event_of c (InboundSyncMsg m) = EvInbound c (Sync (is_message m))"
| "event_of c (InboundWireMsg m) = EvInbound c (iw_message m)"
| "event_of c (QueryViewsMsg m) = EvQuery c (qv_max_staleness m)"
| "event_of c (ClusterChangeMsg (NodeJoined n dv)) = EvJoined c n dv"
| "event_of c (ClusterChangeMsg (NodeLeft n)) = EvLeft n"
| "event_of c PeriodicSyncMsg = EvPeriodic"
| "event_of c FlushChangeFeedMsg = EvFlush"

abbreviation apply_msg ::
    "clock_reading \<Rightarrow> ('s, 'v) actor_msg \<Rightarrow> ('s, 'v) engine \<Rightarrow>
     engine_panic + ('s, 'v) engine \<times> engine_action list" where
  "apply_msg c msg \<equiv> engine_apply (\<lambda>_ :: unit. ()) (\<lambda>_ :: unit. []) (event_of c msg)"

definition feed_of :: "('s, 'v) actor_msg \<Rightarrow> ('s, 'v) engine \<Rightarrow> wire_message list" where
  "feed_of msg e = (case msg of
     FlushChangeFeedMsg \<Rightarrow> (case snd (flush_change_feed e) of None \<Rightarrow> [] | Some f \<Rightarrow> [Feed f])
   | _ \<Rightarrow> [])"

definition sends_of ::
    "node_id list \<Rightarrow> ('s, 'v) actor_msg \<Rightarrow> ('s, 'v) engine \<Rightarrow> engine_action list \<Rightarrow> (node_id \<times> wire_message) list" where
  "sends_of ids msg e acts =
     concat (map (routed (eng_node_id e) ids) acts) @
     concat (map (\<lambda>m. map (\<lambda>k. (k, m)) (filter (\<lambda>k. k \<noteq> eng_node_id e) ids)) (feed_of msg e))"

fun registry_after :: "('s, 'v) actor_msg \<Rightarrow> 'w peer_registry \<Rightarrow> 'w peer_registry" where
  "registry_after (ClusterChangeMsg (NodeLeft n)) peers = hm_remove n peers"
| "registry_after _ peers = peers"

lemma query_actions_same: "snd (query c d f e) = snd (query c d g e)"
  by (simp add: query_def query_local_def Let_def split: query_result.split)

text \<open>The reply to a query: the captured snapshot, with the verdict of the engine.\<close>

lemma query_reply_spec:
  "snd (handle_query_views c msg peers (a, w)) = \<lparr>qr_views = eng_snapshot (act_engine a),
     qr_result = fst (query c (qv_max_staleness msg) (\<lambda>_. ()) (act_engine a))\<rparr>"
  by (simp add: handle_query_views_def query_def query_local_def eng_snapshot_def shard_snapshot_def Let_def case_prod_unfold
      split: query_result.split)

lemma run_and_route_spec:
  assumes "hm_wf peers" and "op (act_engine a) = Inr (e, acts)" and "eng_node_id e = eng_node_id (act_engine a)"
  shows "run_and_route op peers (a, w) =
    Inr (a\<lparr>act_engine := e, act_tasks := act_tasks a @ concat (map delayed acts)\<rparr>,
      send_each peers (concat (map (routed (eng_node_id (act_engine a)) (hm_keys peers)) acts)) w)"
  using assms by (simp add: run_and_route_def actor_route_spec)

lemma actor_handle_spec:
  assumes "engine_wf (act_engine a)" and "hm_wf peers"
  shows "\<exists>e acts. apply_msg c msg (act_engine a) = Inr (e, acts) \<and> engine_wf e \<and>
    eng_node_id e = eng_node_id (act_engine a) \<and>
    actor_handle c msg (peers, a, w) = Inr (registry_after msg peers,
      a\<lparr>act_engine := e, act_tasks := act_tasks a @ concat (map delayed acts)\<rparr>,
      send_each peers (sends_of (hm_keys peers) msg (act_engine a) acts) w)"
proof -
  obtain e acts where e: "apply_msg c msg (act_engine a) = Inr (e, acts)" "engine_wf e"
    and p: "engine_params e = engine_params (act_engine a)"
    using engine_apply_ok [OF assms(1)] by blast
  have id: "eng_node_id e = eng_node_id (act_engine a)"
    using p by (simp add: engine_params_def)
  note simps = handle_inbound_sync_msg_def handle_inbound_wire_msg_def handle_periodic_sync_def
    sends_of_def feed_of_def
  have "actor_handle c msg (peers, a, w) = Inr (registry_after msg peers,
      a\<lparr>act_engine := e, act_tasks := act_tasks a @ concat (map delayed acts)\<rparr>,
      send_each peers (sends_of (hm_keys peers) msg (act_engine a) acts) w)"
  proof (cases msg)
    case (MutateMsg m)
    then show ?thesis
      using e id assms by (simp add: handle_mutate_def case_prod_unfold Let_def actor_route_spec simps)
  next
    case (QueryViewsMsg m)
    then show ?thesis
      using e assms query_actions_same [of c "qv_max_staleness m" length "act_engine a" "\<lambda>x. x"]
      by (cases a) (auto simp: handle_query_views_def case_prod_unfold Let_def actor_route_spec simps)
  next
    case (ClusterChangeMsg m)
    then show ?thesis
      using e id assms by (cases m) (simp_all add: run_and_route_spec simps)
  next
    case FlushChangeFeedMsg
    then show ?thesis
      using e id assms senders_fold [OF assms(2), of "\<lambda>s. ps_send_wire s (Feed f)" "Feed f" for f]
      by (simp add: handle_flush_change_feed_def case_prod_unfold Let_def simps split: option.split)
  qed (use e id assms in \<open>simp_all add: run_and_route_spec simps\<close>)
  then show ?thesis using e id by blast
qed

subsection \<open>Runs\<close>

text \<open>The life of an actor: messages, timers of its delayed broadcasts, and the stop of the runtime.\<close>

datatype ('s, 'v) actor_input =
    Receive clock_reading "('s, 'v) actor_msg"
  | TimerFires nat
  | Stop

fun actor_input_step ::
    "('s, 'v) actor_input \<Rightarrow> 'w peer_registry \<times> ('s, 'v) state_actor \<times> 'w \<Rightarrow>
     engine_panic + 'w peer_registry \<times> ('s, 'v) state_actor \<times> 'w" where
  "actor_input_step (Receive c msg) st = actor_handle c msg st"
| "actor_input_step (TimerFires i) (peers, aw) = Inr (peers, task_fires i peers aw)"
| "actor_input_step Stop (peers, a, w) = Inr (peers, actor_on_stop a, w)"

definition actor_run ::
    "('s, 'v) actor_input list \<Rightarrow> 'w peer_registry \<times> ('s, 'v) state_actor \<times> 'w \<Rightarrow>
     engine_panic + 'w peer_registry \<times> ('s, 'v) state_actor \<times> 'w" where
  "actor_run = fold_result actor_input_step"

fun input_events :: "('s, 'v) actor_input \<Rightarrow> ('s, 'v, unit) engine_event list" where
  "input_events (Receive c msg) = [event_of c msg]"
| "input_events _ = []"

abbreviation run_events ::
    "('s, 'v, unit) engine_event list \<Rightarrow> ('s, 'v) engine \<Rightarrow> engine_panic + ('s, 'v) engine \<times> engine_action list" where
  "run_events \<equiv> engine_run (\<lambda>_ :: unit. ()) (\<lambda>_ :: unit. [])"

lemma task_fires_frame:
  "act_engine (fst (task_fires i peers (a, w))) = act_engine a"
  "act_cancelled (fst (task_fires i peers (a, w))) = act_cancelled a"
  by (simp_all add: task_fires_def)

lemma registry_after_wf: "hm_wf peers \<Longrightarrow> hm_wf (registry_after msg peers)"
  by (induction msg peers rule: registry_after.induct) (simp_all add: wf_intros)

lemma input_step_ok:
  assumes "engine_wf (act_engine a)" and "hm_wf peers"
  shows "\<exists>peers' a' w' acts. actor_input_step i (peers, a, w) = Inr (peers', a', w') \<and> hm_wf peers' \<and>
    engine_wf (act_engine a') \<and> run_events (input_events i) (act_engine a) = Inr (act_engine a', acts)"
proof (cases i)
  case (Receive c msg)
  then show ?thesis using actor_handle_spec [OF assms, of c msg w] registry_after_wf [OF assms(2)] by auto
qed (use assms in \<open>auto simp: actor_on_stop_def task_fires_def\<close>)

lemma engine_run_append:
  assumes "engine_run pd sd xs e = Inr (e1, a1)"
  shows "engine_run pd sd (xs @ ys) e =
    (case engine_run pd sd ys e1 of Inl p \<Rightarrow> Inl p | Inr (e2, a2) \<Rightarrow> Inr (e2, a1 @ a2))"
  using assms
proof (induction xs arbitrary: e a1)
  case (Cons x xs)
  then obtain e' a' a'' where "engine_apply pd sd x e = Inr (e', a')" "engine_run pd sd xs e' = Inr (e1, a'')"
    "a1 = a' @ a''" by (auto split: sum.splits prod.splits)
  then show ?case using Cons.IH by (auto split: sum.splits)
qed (auto split: sum.splits)

lemma actor_run_ok:
  assumes "engine_wf (act_engine a)" and "hm_wf peers"
  shows "\<exists>peers' a' w' acts. actor_run ins (peers, a, w) = Inr (peers', a', w') \<and> hm_wf peers' \<and>
    engine_wf (act_engine a') \<and> run_events (concat (map input_events ins)) (act_engine a) = Inr (act_engine a', acts)"
  using assms
proof (induction ins arbitrary: peers a w)
  case (Cons i ins)
  obtain peers1 a1 w1 acts1 where 1: "actor_input_step i (peers, a, w) = Inr (peers1, a1, w1)" "hm_wf peers1"
    "engine_wf (act_engine a1)" "run_events (input_events i) (act_engine a) = Inr (act_engine a1, acts1)"
    using input_step_ok [OF Cons.prems] by metis
  from Cons.IH [OF 1(3,2), of w1] obtain peers2 a2 w2 acts2 where
    "actor_run ins (peers1, a1, w1) = Inr (peers2, a2, w2)" "hm_wf peers2" "engine_wf (act_engine a2)"
    "run_events (concat (map input_events ins)) (act_engine a1) = Inr (act_engine a2, acts2)" by metis
  then show ?case using 1 by (simp add: actor_run_def engine_run_append)
qed (simp add: actor_run_def)

text \<open>
  C18: the actor adds nothing to its engine and loses nothing of it. Whatever the peer senders do to
  the world, an actor created on a well-formed engine handles every sequence of messages, timer
  firings and stops without a panic, and its engine is then the one that ran the same events by itself.
  In that state each further message has the effect of its engine event: the actions are sent in order,
  a broadcast once to each registered peer but the node itself, a directed message to its target if that
  is a registered peer, a delayed one to nobody but kept as a task; a flushed feed goes to each peer; and only
  the departure of a node touches the registry. A query is answered with the captured snapshot and the
  engine's verdict on its freshness.
\<close>

theorem actor_simulates_engine:
  assumes "engine_wf e" and "hm_wf (peers :: 'w peer_registry)"
  shows "\<exists>peers' a' w' acts. actor_run ins (peers, actor_create e, w) = Inr (peers', a', w') \<and>
    run_events (concat (map input_events ins)) e = Inr (act_engine a', acts) \<and>
    (\<forall>c msg. \<exists>e2 acts2. apply_msg c msg (act_engine a') = Inr (e2, acts2) \<and>
      actor_handle c msg (peers', a', w') = Inr (registry_after msg peers',
        a'\<lparr>act_engine := e2, act_tasks := act_tasks a' @ concat (map delayed acts2)\<rparr>,
        send_each peers' (sends_of (hm_keys peers') msg (act_engine a') acts2) w')) \<and>
    (\<forall>c q. snd (handle_query_views c q peers' (a', w')) = \<lparr>qr_views = eng_snapshot (act_engine a'),
        qr_result = fst (query c (qv_max_staleness q) (\<lambda>_. ()) (act_engine a'))\<rparr>)"
proof -
  have wf: "engine_wf (act_engine (actor_create e))" using assms(1) by (simp add: actor_create_def)
  from actor_run_ok [OF wf assms(2), of ins w] obtain peers' a' w' acts where
    "actor_run ins (peers, actor_create e, w) = Inr (peers', a', w')"
    and ok: "hm_wf peers'" "engine_wf (act_engine a')"
    and "run_events (concat (map input_events ins)) e = Inr (act_engine a', acts)"
    by (auto simp: actor_create_def)
  moreover have "\<exists>e2 acts2. apply_msg c msg (act_engine a') = Inr (e2, acts2) \<and>
      actor_handle c msg (peers', a', w') = Inr (registry_after msg peers',
        a'\<lparr>act_engine := e2, act_tasks := act_tasks a' @ concat (map delayed acts2)\<rparr>,
        send_each peers' (sends_of (hm_keys peers') msg (act_engine a') acts2) w')" for c msg
    using actor_handle_spec [OF ok(2,1)] by blast
  ultimately show ?thesis
    by (intro exI [of _ peers'] exI [of _ a'] exI [of _ w'] exI [of _ acts]) (simp add: query_reply_spec)
qed

subsection \<open>Who hears from the actor\<close>

lemma routed_targets: "(k, m) \<in> set (routed own ids act) \<Longrightarrow> k \<in> set ids \<and> k \<noteq> own"
  by (cases act) (auto split: if_splits)

lemma sends_of_targets: "(k, m) \<in> set (sends_of ids msg e acts) \<Longrightarrow> k \<in> set ids \<and> k \<noteq> eng_node_id e"
  by (auto simp: sends_of_def dest: routed_targets)

text \<open>One step sends to registered peers other than the node itself; the registry only shrinks.\<close>

lemma input_step_sends:
  assumes "engine_wf (act_engine a)" and "hm_wf peers"
    and "actor_input_step i (peers, a, w) = Inr (peers', a', w')"
  shows "\<exists>ds. w' = send_each peers ds w \<and>
    (\<forall>(k, m) \<in> set ds. k \<in> set (hm_keys peers) \<and> k \<noteq> eng_node_id (act_engine a))"
    and "peers' = peers \<or> (\<exists>n. peers' = hm_remove n peers)"
    and "eng_node_id (act_engine a') = eng_node_id (act_engine a)"
proof -
  have "(\<exists>ds. w' = send_each peers ds w \<and>
      (\<forall>(k, m) \<in> set ds. k \<in> set (hm_keys peers) \<and> k \<noteq> eng_node_id (act_engine a))) \<and>
    (peers' = peers \<or> (\<exists>n. peers' = hm_remove n peers)) \<and> eng_node_id (act_engine a') = eng_node_id (act_engine a)"
  proof (cases i)
    case (Receive c msg)
    have "registry_after msg peers = peers \<or> (\<exists>n. registry_after msg peers = hm_remove n peers)"
      by (induction msg peers rule: registry_after.induct) auto
    moreover obtain e acts where "eng_node_id e = eng_node_id (act_engine a)"
      "Inr (peers', a', w') = (Inr (registry_after msg peers,
        a\<lparr>act_engine := e, act_tasks := act_tasks a @ concat (map delayed acts)\<rparr>,
        send_each peers (sends_of (hm_keys peers) msg (act_engine a) acts) w) :: engine_panic + _)"
      using actor_handle_spec [OF assms(1,2), of c msg w] assms(3) Receive by (metis actor_input_step.simps(1))
    moreover have "\<forall>(k, m) \<in> set (sends_of (hm_keys peers) msg (act_engine a) acts).
        k \<in> set (hm_keys peers) \<and> k \<noteq> eng_node_id (act_engine a)"
      using sends_of_targets by fast
    ultimately show ?thesis by (intro conjI exI [of _ "sends_of (hm_keys peers) msg (act_engine a) acts"]) auto
  next
    case (TimerFires j)
    let ?ds = "if j < length (act_tasks a) \<and> \<not> act_cancelled a
      then map (\<lambda>k. (k, Sync (dt_message (act_tasks a ! j))))
        (filter (\<lambda>k. k \<noteq> eng_node_id (act_engine a)) (hm_keys peers)) else []"
    have "w' = send_each peers ?ds w" "peers' = peers" "act_engine a' = act_engine a"
      using assms(3) TimerFires by (auto simp: task_fires_def send_sync_all_each [OF assms(2)] split: if_splits)
    then show ?thesis by (intro conjI exI [of _ ?ds]) auto
  next
    case Stop
    then show ?thesis using assms(3) by (intro conjI exI [of _ "[]"]) (auto simp: actor_on_stop_def)
  qed
  then show "\<exists>ds. w' = send_each peers ds w \<and>
      (\<forall>(k, m) \<in> set ds. k \<in> set (hm_keys peers) \<and> k \<noteq> eng_node_id (act_engine a))"
    and "peers' = peers \<or> (\<exists>n. peers' = hm_remove n peers)"
    and "eng_node_id (act_engine a') = eng_node_id (act_engine a)" by blast+
qed

text \<open>What the development uses of \<open>ActorRef::tell\<close>: it touches the mailbox of the addressed actor at most.\<close>

definition tell_frame :: "('r \<Rightarrow> 'm \<Rightarrow> 'w \<Rightarrow> string option \<times> 'w) \<Rightarrow> ('w \<Rightarrow> 'r \<Rightarrow> 'm list) \<Rightarrow> bool" where
  "tell_frame tell mailbox \<longleftrightarrow> (\<forall>r m w q. q \<noteq> r \<longrightarrow> mailbox (snd (tell r m w)) q = mailbox w q)"

definition sends_via :: "('r \<Rightarrow> ('s, 'v) actor_msg \<Rightarrow> 'w \<Rightarrow> string option \<times> 'w) \<Rightarrow> (node_id \<Rightarrow> 'r) \<Rightarrow> 'w peer_registry \<Rightarrow> bool" where
  "sends_via tell ref peers \<longleftrightarrow> list_all (\<lambda>(k, s). s = actor_ref_peer_sender tell (ref k)) peers"

lemma sends_via_get: "sends_via tell ref peers \<Longrightarrow> hm_get peers k = Some s \<Longrightarrow> s = actor_ref_peer_sender tell (ref k)"
  by (induction peers) (auto simp: sends_via_def hm_get_def split: if_splits)

lemma sends_via_remove: "sends_via tell ref peers \<Longrightarrow> sends_via tell ref (hm_remove k peers)"
  by (simp add: sends_via_def hm_remove_def AList.delete_eq list_all_iff)

lemma send_each_mailbox:
  assumes "tell_frame tell mailbox"
    and "sends_via tell ref peers" and "\<forall>(k, m) \<in> set ds. ref k \<noteq> q"
  shows "mailbox (send_each peers ds w) q = mailbox w q"
  using assms(3)
proof (induction ds arbitrary: w)
  case (Cons d ds)
  obtain k m where d: "d = (k, m)" and k: "ref k \<noteq> q" using Cons.prems by (cases d) auto
  have "mailbox (send_one peers d w) q = mailbox w q"
  proof (cases "hm_get peers k")
    case (Some s)
    from sends_via_get [OF assms(2) this] show ?thesis
      using Some k assms(1) by (cases m) (simp_all add: d actor_ref_peer_sender_def tell_frame_def)
  qed (simp add: d)
  then show ?case using Cons by simp
qed simp

lemma actor_run_mailbox:
  assumes tell: "tell_frame tell mailbox" and "inj ref"
    and "engine_wf (act_engine a)" and "hm_wf peers" and "sends_via tell ref peers"
    and "n = eng_node_id (act_engine a) \<or> n \<notin> set (hm_keys peers)"
    and "actor_run ins (peers, a, w) = Inr (peers', a', w')"
  shows "mailbox w' (ref n) = mailbox w (ref n)"
  using assms(3-)
proof (induction ins arbitrary: peers a w)
  case (Cons i ins)
  from Cons.prems(5) obtain peers1 a1 w1 where 1: "actor_input_step i (peers, a, w) = Inr (peers1, a1, w1)"
    and 2: "actor_run ins (peers1, a1, w1) = Inr (peers', a', w')"
    by (auto simp: actor_run_def result_bind_def split: sum.splits prod.splits)
  note step = input_step_sends [OF Cons.prems(1,2) 1]
  have ok: "engine_wf (act_engine a1)" "hm_wf peers1"
    using input_step_ok [OF Cons.prems(1,2), of i w] 1 by auto
  from step(1) obtain ds where ds: "w1 = send_each peers ds w"
    "\<forall>(k, m) \<in> set ds. k \<in> set (hm_keys peers) \<and> k \<noteq> eng_node_id (act_engine a)" by blast
  then have "\<forall>(k, m) \<in> set ds. ref k \<noteq> ref n"
    using Cons.prems(4) assms(2) by (auto simp: inj_eq)
  then have "mailbox w1 (ref n) = mailbox w (ref n)"
    unfolding ds(1) by (rule send_each_mailbox [OF tell Cons.prems(3)])
  moreover have "mailbox w' (ref n) = mailbox w1 (ref n)"
  proof (rule Cons.IH [OF ok _ _ 2])
    show "sends_via tell ref peers1" using step(2) Cons.prems(3) sends_via_remove by blast
    show "n = eng_node_id (act_engine a1) \<or> n \<notin> set (hm_keys peers1)"
      using step(2,3) Cons.prems(2,4) by (auto simp: hm.keys_drop)
  qed
  ultimately show ?case by simp
qed (simp add: actor_run_def)

text \<open>
  C33: who hears from an actor. Assume a \<open>tell\<close> touches no mailbox but that of the actor it is addressed
  to, whether it succeeds or not. From the moment an actor handles the departure of \<open>n\<close>, no message, delayed broadcast or
  feed of it reaches \<open>n\<close> any more, as long as nobody registers \<open>n\<close> again; and none ever reaches the actor itself.
  After the actor is stopped, the delayed broadcasts still pending reach nobody.
\<close>

theorem departed_peer_hears_nothing:
  assumes "tell_frame tell mailbox" and "inj ref"
    and "engine_wf (act_engine a)" and "hm_wf peers" and "sends_via tell ref peers"
    and "actor_run (Receive c (ClusterChangeMsg (NodeLeft n)) # ins) (peers, a, w) = Inr (peers', a', w')"
  shows "mailbox w' (ref n) = mailbox w (ref n) \<and>
    mailbox w' (ref (eng_node_id (act_engine a))) = mailbox w (ref (eng_node_id (act_engine a))) \<and>
    snd (task_fires i peers' (actor_on_stop a', w')) = w'"
proof (intro conjI)
  let ?a = "a\<lparr>act_engine := on_node_left n (act_engine a)\<rparr>"
  have run: "actor_run ins (hm_remove n peers, ?a, w) = Inr (peers', a', w')"
    using assms(6) by (simp add: actor_run_def)
  have 1: "engine_wf (act_engine ?a)" "hm_wf (hm_remove n peers)" "sends_via tell ref (hm_remove n peers)"
    "n \<notin> set (hm_keys (hm_remove n peers))" "eng_node_id (act_engine ?a) = eng_node_id (act_engine a)"
    using assms(3-5) by (simp_all add: wf_intros sends_via_remove hm.keys_drop frame_simps)
  show "mailbox w' (ref n) = mailbox w (ref n)"
    by (rule actor_run_mailbox [OF assms(1,2) 1(1-3) disjI2 [OF 1(4)] run])
  show "mailbox w' (ref (eng_node_id (act_engine a))) = mailbox w (ref (eng_node_id (act_engine a)))"
    by (rule actor_run_mailbox [OF assms(1,2) 1(1-3) disjI1 [OF 1(5) [symmetric]] run])
  show "snd (task_fires i peers' (actor_on_stop a', w')) = w'"
    by (simp add: task_fires_def actor_on_stop_def)
qed

text \<open>Mailboxes as lists, one per node; a \<open>tell\<close> appends.\<close>

definition mailbox_tell ::
    "node_id \<Rightarrow> 'm \<Rightarrow> (node_id \<Rightarrow> 'm list) \<Rightarrow> string option \<times> (node_id \<Rightarrow> 'm list)" where
  "mailbox_tell r m w = (None, w(r := w r @ [m]))"

definition demo_peers :: "(node_id \<Rightarrow> (nat, nat) actor_msg list) peer_registry" where
  "demo_peers = map (\<lambda>k. (k, actor_ref_peer_sender mailbox_tell k)) [''a'', ''b'', ''c'']"

lemma demo_peers_wf: "hm_wf demo_peers" "sends_via mailbox_tell id demo_peers" "hm_keys demo_peers = [''a'', ''b'', ''c'']"
  by (simp_all add: demo_peers_def hm_wf_def sends_via_def hm_keys_def)

definition demo_mutation :: "(nat, nat) actor_input" where
  "demo_mutation = Receive demo_clock
     (MutateMsg \<lparr>mm_mutate_fn = Suc, mm_project_fn = id, mm_urgency = Immediate\<rparr>)"

theorem actor_simulates_engine_witness:
  "\<exists>peers' a' w' acts. actor_run [demo_mutation] (demo_peers, actor_create (demo_engine ''a'' demo_config), \<lambda>_. []) =
       Inr (peers', a', w') \<and>
     run_events (input_events demo_mutation) (demo_engine ''a'' demo_config) = Inr (act_engine a', acts)"
  using actor_simulates_engine [OF demo_engine_wf demo_peers_wf(1), of "[demo_mutation]" "''a''" demo_config "\<lambda>_. []"]
  by auto

theorem departed_peer_hears_nothing_witness:
  "\<exists>peers' a' w'. actor_run [Receive demo_clock (ClusterChangeMsg (NodeLeft ''b'')), demo_mutation]
       (demo_peers, actor_create (demo_engine ''a'' demo_config), \<lambda>_. []) = Inr (peers', a', w') \<and>
     w' ''b'' = [] \<and> w' ''a'' = []"
proof -
  let ?a = "actor_create (demo_engine ''a'' demo_config)"
  let ?ins = "[Receive demo_clock (ClusterChangeMsg (NodeLeft ''b'')), demo_mutation]"
  have wf: "engine_wf (act_engine ?a)" by (simp add: actor_create_def demo_engine_wf)
  from actor_run_ok [OF this demo_peers_wf(1), of ?ins "\<lambda>_. []"] obtain peers' a' w' where
    run: "actor_run ?ins (demo_peers, ?a, \<lambda>_. []) = Inr (peers', a', w')" by blast
  have "tell_frame mailbox_tell (\<lambda>w. w)" by (simp add: tell_frame_def mailbox_tell_def)
  from departed_peer_hears_nothing [OF this inj_on_id wf demo_peers_wf(1,2) run] run
  show ?thesis by (simp add: actor_create_def)
qed

end
