(* ===== verification/Replication.thy ===== *)
theory Replication
  imports Engine
begin

text \<open>
  The replication protocol of a whole cluster: engines on any number of nodes that start, crash,
  restart, mutate, join, leave and exchange wire messages over a network that loses, duplicates and
  reorders. The network is the set of all messages ever sent, and a delivery picks any of them at any
  time. A ghost log records what each node published at each generation. The engine operations are
  those of \<open>Engine\<close>; this theory adds no behaviour of its own, only the schedule.
\<close>

subsection \<open>One replicated state type\<close>

text \<open>What the users of the crate supply for a state type (the arguments of
  \<open>DistributedStateEngine::new\<close> and of the mutation calls).\<close>

record ('s, 'v, 'dc, 'vd) replica_spec =
  rs_name :: string
  rs_wire :: u32
  rs_config :: state_config
  rs_project :: "'s \<Rightarrow> 'v"
  rs_serialize :: "'v \<Rightarrow> bytes"
  rs_deserialize :: "bytes \<Rightarrow> u32 \<Rightarrow> deserialize_error + 'v"
  rs_applier :: "'v inbound_delta_applier option"
  rs_project_delta :: "'dc \<Rightarrow> 'vd"
  rs_serialize_delta :: "'vd \<Rightarrow> bytes"

definition codec_ok :: "('s, 'v, 'dc, 'vd) replica_spec \<Rightarrow> bool" where
  "codec_ok sp \<longleftrightarrow> (\<forall>v. rs_deserialize sp (rs_serialize sp v) (rs_wire sp) = Inr v)"

text \<open>A delta mutation whose delta, applied to the old view, gives the new view.\<close>

definition honest_delta :: "('s, 'v, 'dc, 'vd) replica_spec \<Rightarrow> ('s \<Rightarrow> 's \<times> 'dc) \<Rightarrow> bool" where
  "honest_delta sp g \<longleftrightarrow> (\<forall>ap s. rs_applier sp = Some ap \<longrightarrow>
     ap (rs_serialize_delta sp (rs_project_delta sp (snd (g s)))) (rs_wire sp) (rs_project sp s) =
       Inr (rs_project sp (fst (g s))))"

definition start_engine ::
    "('s, 'v, 'dc, 'vd) replica_spec \<Rightarrow> node_id \<Rightarrow> 's \<Rightarrow> clock_reading \<Rightarrow> ('s, 'v) engine" where
  "start_engine sp n v c = engine_new (rs_name sp) n v (rs_project sp) (rs_config sp) (rs_wire sp) c
     (rs_serialize sp) (rs_deserialize sp) (rs_applier sp)"

subsection \<open>The cluster as a transition system\<close>

type_synonym 'v publish_log = "node_id \<Rightarrow> generation \<rightharpoonup> 'v"

record ('s, 'v) system =
  sys_engines :: "node_id \<rightharpoonup> ('s, 'v) engine"
  sys_net :: "wire_message set"
  sys_log :: "'v publish_log"

definition sys_init :: "('s, 'v) system \<Rightarrow> bool" where
  "sys_init s \<longleftrightarrow> s = \<lparr>sys_engines = Map.empty, sys_net = {}, sys_log = (\<lambda>n. Map.empty)\<rparr>"

definition publish :: "node_id \<Rightarrow> generation \<Rightarrow> 'v \<Rightarrow> 'v publish_log \<Rightarrow> 'v publish_log" where
  "publish n g v log = log(n := (log n)(g \<mapsto> v))"

definition sent :: "engine_action list \<Rightarrow> wire_message set" where
  "sent acts = Sync ` action_message ` set acts"

definition put_engine :: "node_id \<Rightarrow> ('s, 'v) engine \<Rightarrow> wire_message set \<Rightarrow> ('s, 'v) system \<Rightarrow> ('s, 'v) system" where
  "put_engine n e ms s = s\<lparr>sys_engines := (sys_engines s)(n \<mapsto> e), sys_net := sys_net s \<union> ms\<rparr>"

inductive sys_step ::
    "('s, 'v, 'dc, 'vd) replica_spec \<Rightarrow> ('s, 'v) system \<Rightarrow> ('s, 'v) system \<Rightarrow> bool" for sp where
  sys_start: "sys_engines s n = None \<Longrightarrow> clk_unix_ms c \<noteq> 0 \<Longrightarrow>
    (\<And>g. g \<in> dom (sys_log s n) \<Longrightarrow> incarnation g < clk_unix_ms c) \<Longrightarrow>
    sys_step sp s ((put_engine n (start_engine sp n v c) {} s)
      \<lparr>sys_log := publish n (Generation (clk_unix_ms c) 0) (rs_project sp v) (sys_log s)\<rparr>)"
| sys_crash: "sys_step sp s (s\<lparr>sys_engines := (sys_engines s)(n := None)\<rparr>)"
| sys_mutate: "sys_engines s n = Some e \<Longrightarrow> age (so_generation (eng_state e)) \<noteq> - 1 \<Longrightarrow>
    mutate c f (rs_project sp) u e = (e', r) \<Longrightarrow>
    sys_step sp s ((put_engine n e' (sent (mr_actions r)) s)
      \<lparr>sys_log := publish n (mr_generation r) (mr_view r) (sys_log s)\<rparr>)"
| sys_mutate_delta: "sys_engines s n = Some e \<Longrightarrow> age (so_generation (eng_state e)) \<noteq> - 1 \<Longrightarrow>
    honest_delta sp g \<Longrightarrow>
    mutate_with_delta c g (rs_project sp) (rs_project_delta sp) u (rs_serialize_delta sp) e = (e', r) \<Longrightarrow>
    sys_step sp s ((put_engine n e' (sent (dmr_actions r)) s)
      \<lparr>sys_log := publish n (dmr_generation r) (dmr_view r) (sys_log s)\<rparr>)"
| sys_deliver: "sys_engines s n = Some e \<Longrightarrow> msg \<in> sys_net s \<Longrightarrow>
    handle_inbound c msg e = Inr (e', acts) \<Longrightarrow> sys_step sp s (put_engine n e' (sent acts) s)"
| sys_flush: "sys_engines s n = Some e \<Longrightarrow> flush_change_feed e = (e', batch) \<Longrightarrow>
    sys_step sp s (put_engine n e' (Feed ` set_option batch) s)"
| sys_join: "sys_engines s n = Some e \<Longrightarrow> on_node_joined c k dv e = Inr (e', acts) \<Longrightarrow>
    sys_step sp s (put_engine n e' (sent acts) s)"
| sys_leave: "sys_engines s n = Some e \<Longrightarrow> sys_step sp s (put_engine n (on_node_left k e) {} s)"
| sys_query: "sys_engines s n = Some e \<Longrightarrow>
    sys_step sp s (put_engine n e (sent (snd (query c d length e))) s)"
| sys_periodic: "sys_engines s n = Some e \<Longrightarrow> periodic_sync e = Inr (e', acts) \<Longrightarrow>
    sys_step sp s (put_engine n e' (sent acts) s)"

subsection \<open>The invariant\<close>

definition view_published :: "'v publish_log \<Rightarrow> node_id \<Rightarrow> 'v state_view_object \<Rightarrow> bool" where
  "view_published log n v \<longleftrightarrow> sv_generation v = generation_zero \<or>
     log n (sv_generation v) = Some (sv_value v)"

fun sync_ok :: "('s, 'v, 'dc, 'vd) replica_spec \<Rightarrow> 'v publish_log \<Rightarrow> sync_message \<Rightarrow> bool" where
  "sync_ok sp log (FullSnapshot name src g w data) \<longleftrightarrow>
     (\<exists>v. log src g = Some v \<and> data = rs_serialize sp v \<and> w = rs_wire sp)"
| "sync_ok sp log (DeltaUpdate name src g w data) \<longleftrightarrow>
     w = rs_wire sp \<and> (\<exists>g0 v v'. g = age_inc g0 \<and> age g0 \<noteq> - 1 \<and> log src g0 = Some v \<and> log src g = Some v' \<and>
        (\<forall>ap. rs_applier sp = Some ap \<longrightarrow> ap data w v = Inr v'))"
| "sync_ok sp log (RequestSnapshot name r) \<longleftrightarrow> True"

fun msg_ok :: "('s, 'v, 'dc, 'vd) replica_spec \<Rightarrow> 'v publish_log \<Rightarrow> wire_message \<Rightarrow> bool" where
  "msg_ok sp log (Sync m) = sync_ok sp log m"
| "msg_ok sp log (Feed f) = True"

definition owner_ok ::
    "('s, 'v, 'dc, 'vd) replica_spec \<Rightarrow> 'v publish_log \<Rightarrow> node_id \<Rightarrow> ('s, 'v) shard_core \<Rightarrow> bool" where
  "owner_ok sp log n sh \<longleftrightarrow> sh_node_id sh = n \<and> own_mirrors (rs_project sp) sh \<and>
     log n (so_generation (sh_state sh)) = Some (rs_project sp (so_value (sh_state sh))) \<and>
     (\<forall>g \<in> dom (log n). g \<le> so_generation (sh_state sh))"

definition views_published :: "'v publish_log \<Rightarrow> ('s, 'v) shard_core \<Rightarrow> bool" where
  "views_published log sh \<longleftrightarrow> (\<forall>k v. get_view sh k = Some v \<longrightarrow> view_published log k v)"

definition spec_params where
  "spec_params sp n = (rs_name sp, rs_wire sp, n,
     sync_logic_new (rs_name sp) (sc_sync_strategy (rs_config sp)) (rs_applier sp \<noteq> None),
     versioning_new (rs_name sp) (sc_version_mismatch_policy (rs_config sp)) (rs_wire sp) 1,
     rs_serialize sp, rs_deserialize sp, rs_applier sp)"

definition node_ok ::
    "('s, 'v, 'dc, 'vd) replica_spec \<Rightarrow> 'v publish_log \<Rightarrow> node_id \<Rightarrow> ('s, 'v) engine \<Rightarrow> bool" where
  "node_ok sp log n e \<longleftrightarrow> engine_wf e \<and> engine_params e = spec_params sp n \<and>
     owner_ok sp log n (eng_shard e) \<and> views_published log (eng_shard e)"

definition log_ok :: "'v publish_log \<Rightarrow> bool" where
  "log_ok log \<longleftrightarrow> (\<forall>n. \<forall>g \<in> dom (log n). incarnation g \<noteq> 0)"

definition sys_inv :: "('s, 'v, 'dc, 'vd) replica_spec \<Rightarrow> ('s, 'v) system \<Rightarrow> bool" where
  "sys_inv sp s \<longleftrightarrow> log_ok (sys_log s) \<and> (\<forall>m \<in> sys_net s. msg_ok sp (sys_log s) m) \<and>
     (\<forall>n e. sys_engines s n = Some e \<longrightarrow> node_ok sp (sys_log s) n e)"

subsection \<open>The log only grows\<close>

definition log_le :: "'v publish_log \<Rightarrow> 'v publish_log \<Rightarrow> bool" where
  "log_le l l' \<longleftrightarrow> (\<forall>n. l n \<subseteq>\<^sub>m l' n)"

lemma log_leD: "log_le l l' \<Longrightarrow> l n g = Some v \<Longrightarrow> l' n g = Some v"
  by (auto simp: log_le_def map_le_def dom_def)

lemma log_le_publish: "g \<notin> dom (log n) \<Longrightarrow> log_le log (publish n g v log)"
  by (auto simp: log_le_def publish_def map_le_def)

lemma sync_ok_mono: "log_le l l' \<Longrightarrow> sync_ok sp l m \<Longrightarrow> sync_ok sp l' m"
  by (cases m) (fastforce dest: log_leD)+

lemma msg_ok_mono: "log_le l l' \<Longrightarrow> msg_ok sp l m \<Longrightarrow> msg_ok sp l' m"
  by (cases m) (auto dest: sync_ok_mono)

lemma views_published_mono: "log_le l l' \<Longrightarrow> views_published l sh \<Longrightarrow> views_published l' sh"
  by (auto simp: views_published_def view_published_def dest: log_leD)

lemma publish_other: "k \<noteq> n \<Longrightarrow> publish n g v log k = log k"
  by (simp add: publish_def)

lemma owner_ok_other: "k \<noteq> n \<Longrightarrow> owner_ok sp log k sh \<Longrightarrow> owner_ok sp (publish n g v log) k sh"
  by (simp add: owner_ok_def publish_other)

lemma node_ok_other:
  "k \<noteq> n \<Longrightarrow> g \<notin> dom (log n) \<Longrightarrow> node_ok sp log k e \<Longrightarrow> node_ok sp (publish n g v log) k e"
  by (auto simp: node_ok_def owner_ok_other intro: views_published_mono log_le_publish)

lemma log_ok_publish: "log_ok log \<Longrightarrow> incarnation g \<noteq> 0 \<Longrightarrow> log_ok (publish n g v log)"
  by (auto simp: log_ok_def publish_def)

lemma sys_inv_put:
  assumes "sys_inv sp s" and "node_ok sp (sys_log s) n e" and "\<And>m. m \<in> ms \<Longrightarrow> msg_ok sp (sys_log s) m"
  shows "sys_inv sp (put_engine n e ms s)"
  using assms by (auto simp: sys_inv_def put_engine_def)

lemma sys_inv_publish:
  assumes "sys_inv sp s" and "g \<notin> dom (sys_log s n)" and "incarnation g \<noteq> 0"
    and "node_ok sp (publish n g v (sys_log s)) n e"
    and "\<And>m. m \<in> ms \<Longrightarrow> msg_ok sp (publish n g v (sys_log s)) m"
  shows "sys_inv sp ((put_engine n e ms s)\<lparr>sys_log := publish n g v (sys_log s)\<rparr>)"
  using assms
  by (auto simp: sys_inv_def put_engine_def log_ok_publish node_ok_other
      intro: msg_ok_mono [OF log_le_publish])

subsection \<open>Each operation keeps a node consistent\<close>

lemma node_params:
  assumes "engine_params e = spec_params sp n"
  shows "eng_state_name e = rs_name sp" "eng_wire_version e = rs_wire sp" "eng_node_id e = n"
    "eng_serialize_view e = rs_serialize sp" "eng_deserialize_view e = rs_deserialize sp"
    "eng_inbound_delta_applier e = rs_applier sp"
    "eng_sync_logic e = sync_logic_new (rs_name sp) (sc_sync_strategy (rs_config sp)) (rs_applier sp \<noteq> None)"
  using assms by (simp_all add: engine_params_def spec_params_def)

lemma node_okD:
  assumes "node_ok sp log n e"
  shows "engine_wf e" "engine_params e = spec_params sp n" "owner_ok sp log n (eng_shard e)"
    "views_published log (eng_shard e)" "shard_wf (eng_shard e)" "sh_node_id (eng_shard e) = n"
  using assms by (auto simp: node_ok_def engine_wfD owner_ok_def)

text \<open>The part of the views the log speaks about.\<close>

definition content_of :: "('s, 'v) shard_core \<Rightarrow> node_id \<Rightarrow> (generation \<times> 'v) option" where
  "content_of sh k = map_option (\<lambda>v. (sv_generation v, sv_value v)) (get_view sh k)"

lemma content_of_SomeD:
  "content_of sh k = Some (g, x) \<Longrightarrow> \<exists>v. get_view sh k = Some v \<and> sv_generation v = g \<and> sv_value v = x"
  by (auto simp: content_of_def)

lemma owner_ok_iff:
  "owner_ok sp log n sh \<longleftrightarrow> sh_node_id sh = n \<and>
     content_of sh n = Some (so_generation (sh_state sh), rs_project sp (so_value (sh_state sh))) \<and>
     log n (so_generation (sh_state sh)) = Some (rs_project sp (so_value (sh_state sh))) \<and>
     (\<forall>g \<in> dom (log n). g \<le> so_generation (sh_state sh))"
  by (auto simp: owner_ok_def own_mirrors_def content_of_def)

lemma views_published_iff:
  "views_published log sh \<longleftrightarrow>
     (\<forall>k g x. content_of sh k = Some (g, x) \<longrightarrow> g = generation_zero \<or> log k g = Some x)"
  by (fastforce simp: views_published_def view_published_def content_of_def)

lemma node_ok_shardI:
  assumes "node_ok sp log n e" and "engine_wf e'" and "engine_params e' = engine_params e"
    and "sh_state (eng_shard e') = sh_state (eng_shard e)"
    and "content_of (eng_shard e') n = content_of (eng_shard e) n"
    and "\<And>k g x. k \<noteq> n \<Longrightarrow> content_of (eng_shard e') k = Some (g, x) \<Longrightarrow>
      content_of (eng_shard e) k = Some (g, x) \<or> g = generation_zero \<or> log k g = Some x"
  shows "node_ok sp log n e'"
proof -
  note ok = node_okD [OF assms(1)]
  have "eng_node_id e' = n" using assms(3) ok(2) node_params(3) by metis
  then have "owner_ok sp log n (eng_shard e')"
    using ok(3) assms(4,5) by (simp add: owner_ok_iff)
  moreover have "views_published log (eng_shard e')"
    unfolding views_published_iff
  proof (intro allI impI)
    fix k g x assume *: "content_of (eng_shard e') k = Some (g, x)"
    show "g = generation_zero \<or> log k g = Some x"
      using ok(4) assms(5) assms(6) [of k g x] * by (cases "k = n") (auto simp: views_published_iff)
  qed
  ultimately show ?thesis using assms(2,3) ok(2) by (simp add: node_ok_def)
qed

lemma mutate_own_content:
  assumes "engine_wf e" and "mutate c f p u e = (e', r)"
  shows "content_of (eng_shard e') (eng_node_id e) =
    Some (age_inc (so_generation (eng_state e)), p (f (so_value (eng_state e))))"
proof -
  have sh: "eng_shard e' = fst (apply_mutation c f p (eng_shard e))"
    using mutate_frame(1) [of c f p u e] assms(2) by simp
  let ?st = "mutated_state c f (sh_state (eng_shard e))"
  have sh': "eng_shard e' = update_own_view c (p (so_value ?st)) (eng_shard e\<lparr>sh_state := ?st\<rparr>)"
    by (simp add: sh apply_mutation_eq Let_def)
  have "own_mirrors p (eng_shard e')"
    unfolding sh' by (rule update_own_view_mirrors) (simp_all add: engine_wfD assms(1))
  then show ?thesis
    by (auto simp: own_mirrors_def content_of_def sh' frame_simps eng_state_def mutated_state_def)
qed

lemma content_of_accept_snapshot:
  "vm_wf (sh_views sh) \<Longrightarrow> content_of (fst (accept_inbound_snapshot c snap sh)) k =
     (if k = is_source snap \<and> (\<forall>v. get_view sh k = Some v \<longrightarrow> sv_generation v < is_generation snap)
      then Some (is_generation snap, is_view snap) else content_of sh k)"
proof (cases "snapshot_update c snap (get_view sh (is_source snap))")
  case None
  then have "\<exists>v. get_view sh (is_source snap) = Some v \<and> \<not> sv_generation v < is_generation snap"
    by (auto simp: snapshot_update_None_iff)
  then show "vm_wf (sh_views sh) \<Longrightarrow> ?thesis"
    by (auto simp: content_of_def get_view_accept_snapshot None)
qed (auto simp: content_of_def lookup_simps dest: snapshot_update_SomeD)

lemma owner_logged_le: "owner_ok sp log n sh \<Longrightarrow> log n g = Some x \<Longrightarrow> g \<le> so_generation (sh_state sh)"
  by (meson domI owner_ok_def)

lemma log_okD: "log_ok log \<Longrightarrow> log n g = Some x \<Longrightarrow> incarnation g \<noteq> 0"
  by (meson domI log_ok_def)

lemma own_not_newer:
  "owner_ok sp log n sh \<Longrightarrow> log n g = Some x \<Longrightarrow> get_view sh n = Some v \<Longrightarrow> \<not> sv_generation v < g"
  using owner_logged_le [of sp log n sh g x] by (auto simp: owner_ok_def own_mirrors_def not_less)

lemma node_ok_full_snapshot:
  assumes "node_ok sp log n e" and "codec_ok sp" and "sync_ok sp log (FullSnapshot name src g w data)"
  shows "node_ok sp log n (fst (handle_full_snapshot c name src g w data e))" (is "node_ok _ _ _ ?e'")
proof -
  note ok = node_okD [OF assms(1)]
  obtain v where v: "log src g = Some v" "data = rs_serialize sp v" "w = rs_wire sp"
    using assms(3) by auto
  have inb: "on_inbound (eng_versioning e) data w (eng_deserialize_view e) = InboundOk v"
    using assms(2) v by (simp add: on_inbound_ok node_params [OF ok(2)] codec_ok_def)
  show ?thesis
  proof (rule node_ok_shardI [OF assms(1)])
    show "content_of (eng_shard ?e') n = content_of (eng_shard e) n"
      using own_not_newer [OF ok(3), of g v] v(1) shard_wf_own [OF ok(5)] ok(5,6)
      by (auto simp: full_snapshot_shard inb content_of_accept_snapshot)
    fix k h x
    assume "content_of (eng_shard ?e') k = Some (h, x)"
    then show "content_of (eng_shard e) k = Some (h, x) \<or> h = generation_zero \<or> log k h = Some x"
      using v(1) ok(5) by (auto simp: full_snapshot_shard inb content_of_accept_snapshot split: if_splits)
  qed (use ok(1) in \<open>auto simp: wf_intros frame_simps full_snapshot_shard inb\<close>)
qed

lemma age_inc_sel [simp]: "incarnation (age_inc g) = incarnation g" "age (age_inc g) = age g + 1"
  by (simp_all add: age_inc_def)

lemma age_inc_inject [simp]: "age_inc g = age_inc h \<longleftrightarrow> g = h"
  by (cases g; cases h) (simp add: age_inc_def)

lemma content_of_accept_delta:
  assumes "vm_wf (sh_views sh)" and "get_view sh src = Some cv" and "gen = age_inc (sv_generation cv)"
  shows "content_of (fst (accept_inbound_delta c src gen w (\<lambda>_. x) sh)) =
    (content_of sh)(src \<mapsto> (gen, x))"
  using get_view_accept_delta_applied [OF assms(1,2), of gen c w "\<lambda>_. x"] assms(3)
  by (intro ext) (simp add: content_of_def age_inc_def)

lemma node_ok_delta_update:
  assumes "node_ok sp log n e" and "log_ok log" and "sync_ok sp log (DeltaUpdate name src g w data)"
  shows "node_ok sp log n (fst (handle_delta_update c name src g w data e))" (is "node_ok _ _ _ ?e'")
proof -
  note ok = node_okD [OF assms(1)]
  obtain g0 v v' where d: "g = age_inc g0" "age g0 \<noteq> - 1" "log src g0 = Some v" "log src g = Some v'"
    and ap: "\<And>ap. rs_applier sp = Some ap \<Longrightarrow> ap data w v = Inr v'" and w: "w = rs_wire sp"
    using assms(3) by auto
  show ?thesis
  proof (cases "delta_passes e name src g w data")
    case None
    then have "eng_shard ?e' = eng_shard e"
      by (simp add: delta_update_shard w node_params [OF ok(2)])
    then show ?thesis
      by (intro node_ok_shardI [OF assms(1)]) (use ok(1) in \<open>auto simp: wf_intros frame_simps\<close>)
  next
    case (Some x)
    then obtain appl cv where cv: "get_view (eng_shard e) src = Some cv" "g = age_inc (sv_generation cv)"
      and "rs_applier sp = Some appl" "appl data w (sv_value cv) = Inr x"
      by (auto simp: delta_passes_def node_params [OF ok(2)] split: if_splits option.splits sum.splits)
    moreover have g0: "sv_generation cv = g0" using cv(2) d(1) by simp
    moreover have "g0 \<noteq> generation_zero"
      using log_okD [OF assms(2) d(3)] by (auto simp: generation_zero_def)
    moreover have "view_published log src cv"
      using ok(4) cv(1) by (simp add: views_published_def)
    ultimately have x: "x = v'"
      using ap d(3) by (auto simp: view_published_def)
    have "src \<noteq> n"
      using own_not_newer [OF ok(3)] cv(1) d g0 age_inc_less [of g0] by metis
    then show ?thesis
      using Some cv d(4) x ok(1,5)
      by (intro node_ok_shardI [OF assms(1)])
        (auto simp: delta_update_shard content_of_accept_delta wf_intros frame_simps split: if_splits)
  qed
qed

lemma content_of_mark_stale:
  "vm_wf (sh_views sh) \<Longrightarrow> content_of (mark_stale src i a sh) = content_of sh"
  by (rule ext) (auto simp: content_of_def lookup_simps split: option.splits dest!: stale_update_SomeD)

lemma node_ok_feed_entry: "node_ok sp log n e \<Longrightarrow> node_ok sp log n (apply_feed_entry x e)"
proof (rule node_ok_shardI)
  assume ok: "node_ok sp log n e"
  from node_okD(1) [OF this] show "engine_wf (apply_feed_entry x e)" by (rule wf_intros)
  show "sh_state (eng_shard (apply_feed_entry x e)) = sh_state (eng_shard e)"
    by (auto simp: apply_feed_entry_def frame_simps split: prod.splits)
  show "content_of (eng_shard (apply_feed_entry x e)) n = content_of (eng_shard e) n"
    using node_okD(5) [OF ok] by (auto simp: apply_feed_entry_def content_of_mark_stale split: prod.splits)
  show "\<And>k g y. content_of (eng_shard (apply_feed_entry x e)) k = Some (g, y) \<Longrightarrow>
      content_of (eng_shard e) k = Some (g, y) \<or> g = generation_zero \<or> log k g = Some y"
    using node_okD(5) [OF ok] by (auto simp: apply_feed_entry_def content_of_mark_stale split: prod.splits if_splits)
qed (simp_all add: frame_simps)

lemma node_ok_feed: "node_ok sp log n e \<Longrightarrow> node_ok sp log n (handle_inbound_change_feed feed e)"
proof -
  have "node_ok sp log n (fold apply_feed_entry xs e)" if "node_ok sp log n e" for xs
    using that by (induction xs arbitrary: e) (auto simp: node_ok_feed_entry)
  then show "node_ok sp log n e \<Longrightarrow> ?thesis" by (simp add: handle_inbound_change_feed_def)
qed

lemma content_of_joined:
  "vm_wf (sh_views sh) \<Longrightarrow> content_of (shard_on_node_joined c k dv sh) j =
     (if j = k \<and> k \<noteq> sh_node_id sh \<and> get_view sh k = None then Some (generation_zero, dv)
      else content_of sh j)"
  by (auto simp: content_of_def lookup_simps generation_zero_def)

lemma content_of_left:
  "vm_wf (sh_views sh) \<Longrightarrow> content_of (shard_on_node_left k sh) =
     (if k = sh_node_id sh then content_of sh else (content_of sh)(k := None))"
  by (rule ext) (auto simp: content_of_def lookup_simps)

text \<open>Messages built from the own view carry what the log has at the current generation.\<close>

lemma own_view_value_published:
  "node_ok sp log n e \<Longrightarrow> own_view_value e = Inr (rs_project sp (so_value (eng_state e)))"
  by (auto simp: node_ok_def owner_ok_def own_mirrors_def own_view_value_def eng_state_def)

lemma own_full_snapshot_ok:
  assumes "node_ok sp log n e"
  shows "sync_ok sp log (own_full_snapshot e (eng_serialize_view e (rs_project sp (so_value (eng_state e)))))"
  using node_okD [OF assms]
  by (auto simp: own_full_snapshot_def owner_ok_def node_params eng_state_def)

lemma node_ok_diag:
  "node_ok sp log n e \<Longrightarrow> diag_wf (f (eng_diagnostics e)) \<Longrightarrow> node_ok sp log n (with_diagnostics f e)"
  by (simp add: node_ok_def wf_intros)

definition acts_ok where
  "acts_ok sp log acts \<longleftrightarrow> (\<forall>a \<in> set acts. sync_ok sp log (action_message a))"

lemma acts_ok_simps [simp]:
  "acts_ok sp log []"
  "acts_ok sp log (a # acts) \<longleftrightarrow> sync_ok sp log (action_message a) \<and> acts_ok sp log acts"
  by (auto simp: acts_ok_def)

lemma sent_ok: "acts_ok sp log acts \<Longrightarrow> m \<in> sent acts \<Longrightarrow> msg_ok sp log m"
  by (auto simp: acts_ok_def sent_def)

lemma snapshot_request_ok [simp]: "sync_ok sp log (action_message (make_snapshot_request e k))"
  by (simp add: make_snapshot_request_def)

lemma delta_update_acts_ok: "acts_ok sp log (snd (handle_delta_update c name src g w data e))"
  by (auto simp: handle_delta_update_def Let_def case_prod_unfold on_deserialize_error_def
      split: option.splits sum.splits delta_accept_result.splits version_mismatch_policy.splits)

lemma node_ok_request:
  assumes "node_ok sp log n e" and "handle_request_snapshot name r e = Inr (e', acts)"
  shows "node_ok sp log n e' \<and> acts_ok sp log acts"
  using assms own_full_snapshot_ok [OF assms(1)] node_okD(1) [OF assms(1)]
  by (auto simp: handle_request_snapshot_def own_view_value_published Let_def wf_intros engine_wfD
      intro!: node_ok_diag split: if_splits)

lemma node_ok_inbound:
  assumes "node_ok sp log n e" "log_ok log" "codec_ok sp" "msg_ok sp log msg"
    and "handle_inbound c msg e = Inr (e', acts)"
  shows "node_ok sp log n e' \<and> acts_ok sp log acts"
proof (cases msg)
  case (Sync m)
  show ?thesis
  proof (cases m)
    case (FullSnapshot name src g w data)
    with assms Sync have "(e', acts) = handle_full_snapshot c name src g w data e" by simp
    then have "e' = fst (handle_full_snapshot c name src g w data e)" "acts = []"
      using full_snapshot_frame(1) [of c name src g w data e] by (metis fst_conv snd_conv)+
    then show ?thesis
      using node_ok_full_snapshot [OF assms(1,3)] assms(4) Sync FullSnapshot by simp
  next
    case (DeltaUpdate name src g w data)
    with assms Sync have "(e', acts) = handle_delta_update c name src g w data e" by simp
    then have "e' = fst (handle_delta_update c name src g w data e)"
      "acts = snd (handle_delta_update c name src g w data e)" by (metis fst_conv snd_conv)+
    moreover have "sync_ok sp log (DeltaUpdate name src g w data)"
      using assms(4) by (simp only: Sync DeltaUpdate msg_ok.simps)
    ultimately show ?thesis
      by (simp only: node_ok_delta_update [OF assms(1,2)] delta_update_acts_ok simp_thms)
  next
    case (RequestSnapshot name r)
    with assms Sync show ?thesis by (auto dest: node_ok_request)
  qed
qed (use assms in \<open>auto simp: node_ok_feed\<close>)

lemma node_ok_joined_engine:
  assumes "node_ok sp log n e" shows "node_ok sp log n (joined_engine c k dv e)"
  by (rule node_ok_shardI [OF assms])
    (use node_okD(1,5,6) [OF assms] in \<open>auto simp: wf_intros frame_simps content_of_joined split: if_splits\<close>)

lemma node_ok_joined:
  assumes "node_ok sp log n e" and "on_node_joined c k dv e = Inr (e', acts)"
  shows "node_ok sp log n e' \<and> acts_ok sp log acts"
proof -
  let ?j = "joined_engine c k dv e"
  have j: "node_ok sp log n ?j" using assms(1) by (rule node_ok_joined_engine)
  have "eng_serialize_view ?j = eng_serialize_view e" by (simp add: joined_engine_def)
  with on_node_joined_eq [OF own_view_value_published [OF j]] assms(2)
  have "e' = with_diagnostics record_snapshot_sent ?j"
    "acts = [SendSync k (own_full_snapshot ?j (eng_serialize_view ?j (rs_project sp (so_value (eng_state ?j)))))]"
    by simp_all
  then show ?thesis
    using own_full_snapshot_ok [OF j] node_ok_diag [OF j] node_okD(1) [OF j]
    by (simp add: wf_intros engine_wfD)
qed

lemma node_ok_left:
  assumes "node_ok sp log n e" shows "node_ok sp log n (on_node_left k e)"
  by (rule node_ok_shardI [OF assms])
    (use node_okD(1,5,6) [OF assms] in \<open>simp_all add: wf_intros frame_simps content_of_left split: if_splits\<close>)

lemma node_ok_flush: "node_ok sp log n e \<Longrightarrow> node_ok sp log n (fst (flush_change_feed e))"
  by (simp add: node_ok_def wf_intros frame_simps)

lemma node_ok_periodic:
  assumes "node_ok sp log n e" and "periodic_sync e = Inr (e', acts)"
  shows "node_ok sp log n e' \<and> acts_ok sp log acts"
  using assms own_full_snapshot_ok [OF assms(1)] node_okD(1) [OF assms(1)]
  by (auto simp: periodic_sync_def own_view_value_published Let_def wf_intros engine_wfD
      intro!: node_ok_diag split: if_splits)

lemma query_acts_ok: "acts_ok sp log (snd (query c d p e))"
  by (auto simp: query_def acts_ok_def Let_def split: query_result.splits)

subsection \<open>Mutations\<close>

lemma fresh_generation:
  assumes "node_ok sp log n e" and "age (so_generation (eng_state e)) \<noteq> - 1"
  shows "age_inc (so_generation (eng_state e)) \<notin> dom (log n)"
proof
  assume "age_inc (so_generation (eng_state e)) \<in> dom (log n)"
  then have "age_inc (so_generation (eng_state e)) \<le> so_generation (eng_state e)"
    using node_okD(3) [OF assms(1)] by (simp add: owner_ok_def eng_state_def)
  with age_inc_less [OF assms(2)] show False by simp
qed

lemma content_of_update_own:
  assumes "shard_wf sh"
  shows "content_of (update_own_view c v (sh\<lparr>sh_state := st\<rparr>)) =
    (content_of sh)(sh_node_id sh \<mapsto> (so_generation st, v))"
  using assms by (intro ext) (simp add: content_of_def lookup_simps shard_wf_own_vm)

text \<open>Both mutation paths end in the same shard; the log gains the new view.\<close>

lemma node_ok_publish:
  assumes ok: "node_ok sp log n e" and max: "age (so_generation (eng_state e)) \<noteq> - 1"
    and wf: "engine_wf e'" and params: "engine_params e' = engine_params e"
    and sh: "eng_shard e' = update_own_view c (rs_project sp (f (so_value (eng_state e))))
      ((eng_shard e)\<lparr>sh_state := mutated_state c f (eng_state e)\<rparr>)"
  shows "node_ok sp (publish n (age_inc (so_generation (eng_state e)))
    (rs_project sp (f (so_value (eng_state e)))) log) n e'"
    (is "node_ok sp ?log n e'")
proof -
  note d = node_okD [OF ok]
  let ?g = "age_inc (so_generation (eng_state e))"
  have content: "content_of (eng_shard e') =
      (content_of (eng_shard e))(n \<mapsto> (?g, rs_project sp (f (so_value (eng_state e)))))"
    using content_of_update_own [OF d(5)] by (simp add: sh d(6))
  have st: "sh_state (eng_shard e') = mutated_state c f (eng_state e)" "eng_node_id e' = n"
    by (simp_all add: sh frame_simps d(6))
  have le: "log_le log ?log"
    by (rule log_le_publish) (rule fresh_generation [OF ok max])
  have "so_generation (eng_state e) < ?g" using max by (rule age_inc_less)
  moreover have "\<forall>g \<in> dom (log n). g \<le> so_generation (eng_state e)"
    using d(3) by (simp add: owner_ok_def eng_state_def)
  ultimately have "owner_ok sp ?log n (eng_shard e')"
    by (auto simp: owner_ok_iff content st publish_def intro: order_trans less_imp_le)
  moreover have "views_published ?log (eng_shard e')"
    using views_published_mono [OF le d(4)]
    by (auto simp: views_published_iff content publish_def split: if_splits)
  ultimately show ?thesis using wf params d(2) by (simp add: node_ok_def)
qed

lemma node_ok_mutate:
  assumes "node_ok sp log n e" and "age (so_generation (eng_state e)) \<noteq> - 1"
    and "mutate c f (rs_project sp) u e = (e', r)"
  shows "mr_generation r = age_inc (so_generation (eng_state e))"
    and "node_ok sp (publish n (mr_generation r) (mr_view r) log) n e'"
    and "acts_ok sp (publish n (mr_generation r) (mr_view r) log) (mr_actions r)"
proof -
  note d = node_okD [OF assms(1)]
  have e': "e' = fst (mutate c f (rs_project sp) u e)" using assms(3) by simp
  have r: "mr_generation r = age_inc (so_generation (eng_state e))"
    "mr_view r = rs_project sp (f (so_value (eng_state e)))"
    using assms(3) by (auto simp: mutate_eq apply_mutation_eq Let_def eng_state_def)
  then show "mr_generation r = age_inc (so_generation (eng_state e))" by simp
  show "node_ok sp (publish n (mr_generation r) (mr_view r) log) n e'"
    unfolding r e'
    by (rule node_ok_publish [OF assms(1,2), where c = c])
      (simp_all add: d(1) wf_intros frame_simps apply_mutation_eq eng_state_def Let_def)
  have "sync_ok sp (publish n (mr_generation r) (mr_view r) log)
      (FullSnapshot (eng_state_name e) (eng_node_id e) (age_inc (so_generation (eng_state e)))
        (eng_wire_version e) (eng_serialize_view e (rs_project sp (f (so_value (eng_state e))))))"
    by (simp add: r node_params [OF d(2)] publish_def)
  then show "acts_ok sp (publish n (mr_generation r) (mr_view r) log) (mr_actions r)"
    using mutate_acts [OF assms(3)] by (simp add: Let_def split: sync_urgency.splits)
qed

lemma delta_actions:
  assumes "mutate_with_delta c g p pd u sd e = (e', r)" and "a \<in> set (dmr_actions r)"
  shows "action_message a \<in> {FullSnapshot (eng_state_name e) (eng_node_id e)
      (age_inc (so_generation (eng_state e))) (eng_wire_version e)
      (eng_serialize_view e (p (fst (g (so_value (eng_state e)))))),
    DeltaUpdate (eng_state_name e) (eng_node_id e) (age_inc (so_generation (eng_state e)))
      (eng_wire_version e) (sd (pd (snd (g (so_value (eng_state e))))))}"
proof -
  let ?x = "resolve_action (eng_sync_logic e) u"
  let ?e1 = "with_diagnostics record_mutation
    (e\<lparr>eng_shard := fst (apply_mutation_with_delta c g p pd (eng_shard e))\<rparr>)"
  have "dmr_actions r = snd (sync_action_to_engine_actions_delta ?x (p (fst (g (so_value (eng_state e)))))
      (pd (snd (g (so_value (eng_state e))))) sd ?e1)"
    using assms(1) by (auto simp: mutate_with_delta_eq Let_def apply_mutation_with_delta_eq eng_state_def)
  with assms(2) show ?thesis
    by (cases ?x) (auto simp: own_full_snapshot_def own_delta_update_def frame_simps eng_state_def Let_def)
qed

lemma node_ok_mutate_delta:
  assumes "node_ok sp log n e" and "age (so_generation (eng_state e)) \<noteq> - 1" and "honest_delta sp g"
    and "mutate_with_delta c g (rs_project sp) (rs_project_delta sp) u (rs_serialize_delta sp) e = (e', r)"
  shows "dmr_generation r = age_inc (so_generation (eng_state e))"
    and "node_ok sp (publish n (dmr_generation r) (dmr_view r) log) n e'"
    and "acts_ok sp (publish n (dmr_generation r) (dmr_view r) log) (dmr_actions r)"
proof -
  note d = node_okD [OF assms(1)]
  let ?s = "so_value (eng_state e)"
  have e': "e' = fst (mutate_with_delta c g (rs_project sp) (rs_project_delta sp) u (rs_serialize_delta sp) e)"
    using assms(4) by simp
  have r: "dmr_generation r = age_inc (so_generation (eng_state e))"
    "dmr_view r = rs_project sp (fst (g ?s))"
    using assms(4) by (auto simp: mutate_with_delta_eq apply_mutation_with_delta_eq Let_def eng_state_def)
  then show "dmr_generation r = age_inc (so_generation (eng_state e))" by simp
  show "node_ok sp (publish n (dmr_generation r) (dmr_view r) log) n e'"
    unfolding r e'
    by (rule node_ok_publish [OF assms(1,2), where c = c and f = "\<lambda>s. fst (g s)"])
      (simp_all add: d(1) wf_intros frame_simps apply_mutation_with_delta_eq eng_state_def Let_def)
  have old: "log n (so_generation (eng_state e)) = Some (rs_project sp ?s)"
    using d(3) by (simp add: owner_ok_def eng_state_def)
  have "age_inc (so_generation (eng_state e)) \<noteq> so_generation (eng_state e)"
    using age_inc_less [OF assms(2)] by simp
  then have "sync_ok sp (publish n (dmr_generation r) (dmr_view r) log) (action_message a)"
    if "a \<in> set (dmr_actions r)" for a
    using delta_actions [OF assms(4) that] assms(2,3) old
    by (auto simp: r node_params [OF d(2)] publish_def honest_delta_def)
  then show "acts_ok sp (publish n (dmr_generation r) (dmr_view r) log) (dmr_actions r)"
    by (simp add: acts_ok_def)
qed

lemma node_ok_start:
  assumes "\<And>g. g \<in> dom (log n) \<Longrightarrow> incarnation g < clk_unix_ms c"
  shows "node_ok sp (publish n (Generation (clk_unix_ms c) 0) (rs_project sp v) log) n (start_engine sp n v c)"
proof -
  let ?st = "new_state_object v (clk_unix_ms c) c"
  have sh: "eng_shard (start_engine sp n v c) = shard_new n ?st (rs_project sp v) c"
    by (simp add: start_engine_def engine_new_def Let_def) (simp add: new_state_object_def)
  have content: "content_of (shard_new n ?st (rs_project sp v) c) =
      [n \<mapsto> (Generation (clk_unix_ms c) 0, rs_project sp v)]"
    by (intro ext) (simp add: content_of_def lookup_simps, simp add: new_state_object_def generation_new_def)
  have st: "sh_state (shard_new n ?st (rs_project sp v) c) = ?st"
    "sh_node_id (shard_new n ?st (rs_project sp v) c) = n"
    by (simp_all add: shard_new_def Let_def)
  have "engine_params (start_engine sp n v c) = spec_params sp n"
    by (simp add: start_engine_def engine_new_def engine_params_def spec_params_def shard_new_def Let_def)
  moreover have "engine_wf (start_engine sp n v c)"
    by (simp add: start_engine_def wf_intros)
  moreover have "owner_ok sp (publish n (Generation (clk_unix_ms c) 0) (rs_project sp v) log) n
      (shard_new n ?st (rs_project sp v) c)"
    unfolding owner_ok_iff content st
    by (auto simp: publish_def new_state_object_def generation_new_def generation_le_iff dest: assms [OF domI])
  ultimately show ?thesis
    by (simp add: node_ok_def sh views_published_iff content publish_def)
qed

subsection \<open>The cluster invariant\<close>

lemma sys_invD:
  "sys_inv sp s \<Longrightarrow> sys_engines s n = Some e \<Longrightarrow> node_ok sp (sys_log s) n e"
  "sys_inv sp s \<Longrightarrow> m \<in> sys_net s \<Longrightarrow> msg_ok sp (sys_log s) m"
  "sys_inv sp s \<Longrightarrow> log_ok (sys_log s)"
  by (auto simp: sys_inv_def)

lemma sys_inv_init: "sys_init s \<Longrightarrow> sys_inv sp s"
  by (simp add: sys_init_def sys_inv_def log_ok_def)

lemma own_incarnation:
  assumes "sys_inv sp s" "sys_engines s n = Some e" shows "incarnation (so_generation (eng_state e)) \<noteq> 0"
  using log_okD [OF sys_invD(3) [OF assms(1)]] node_okD(3) [OF sys_invD(1) [OF assms]]
  unfolding owner_ok_def eng_state_def by metis

lemma sys_inv_step:
  assumes "sys_step sp s t" and "codec_ok sp" and "sys_inv sp s"
  shows "sys_inv sp t"
  using assms(1)
proof cases
  case (sys_start n c v)
  have "Generation (clk_unix_ms c) 0 \<notin> dom (sys_log s n)" using sys_start(4) by fastforce
  then show ?thesis
    unfolding sys_start(1) using sys_start assms(3) by (intro sys_inv_publish) (auto intro!: node_ok_start)
next
  case (sys_crash n)
  then show ?thesis using assms(3) by (auto simp: sys_inv_def)
next
  case (sys_mutate n e c f u e' r)
  note ok = sys_invD(1) [OF assms(3) sys_mutate(2)]
  note m = node_ok_mutate [OF ok sys_mutate(3,4)]
  show ?thesis
    unfolding sys_mutate(1)
    using fresh_generation [OF ok sys_mutate(3)] own_incarnation [OF assms(3) sys_mutate(2)] assms(3) m
    by (intro sys_inv_publish) (auto intro: sent_ok)
next
  case (sys_mutate_delta n e g c u e' r)
  note ok = sys_invD(1) [OF assms(3) sys_mutate_delta(2)]
  note m = node_ok_mutate_delta [OF ok sys_mutate_delta(3-5)]
  show ?thesis
    unfolding sys_mutate_delta(1)
    using fresh_generation [OF ok sys_mutate_delta(3)] own_incarnation [OF assms(3) sys_mutate_delta(2)] assms(3) m
    by (intro sys_inv_publish) (auto intro: sent_ok)
next
  case (sys_deliver n e msg c e' acts)
  have "node_ok sp (sys_log s) n e' \<and> acts_ok sp (sys_log s) acts"
    using sys_deliver assms(2,3) by (intro node_ok_inbound [where msg = msg and c = c and e = e]) (auto simp: sys_invD)
  then show ?thesis unfolding sys_deliver(1) using assms(3) by (intro sys_inv_put) (auto intro: sent_ok)
next
  case (sys_flush n e e' batch)
  then have "node_ok sp (sys_log s) n e'"
    using node_ok_flush [OF sys_invD(1) [OF assms(3) sys_flush(2)]] by simp
  then show ?thesis unfolding sys_flush(1) using assms(3) by (intro sys_inv_put) auto
next
  case (sys_join n e c k dv e' acts)
  have "node_ok sp (sys_log s) n e' \<and> acts_ok sp (sys_log s) acts"
    by (rule node_ok_joined [OF sys_invD(1) [OF assms(3) sys_join(2)] sys_join(3)])
  then show ?thesis unfolding sys_join(1) using assms(3) by (intro sys_inv_put) (auto intro: sent_ok)
next
  case (sys_leave n e k)
  then show ?thesis using assms(3) by (auto intro!: sys_inv_put node_ok_left simp: sys_invD)
next
  case (sys_query n e c d)
  show ?thesis
    unfolding sys_query(1) using assms(3) sys_invD(1) [OF assms(3) sys_query(2)]
    by (intro sys_inv_put) (auto intro: sent_ok [OF query_acts_ok])
next
  case (sys_periodic n e e' acts)
  have "node_ok sp (sys_log s) n e' \<and> acts_ok sp (sys_log s) acts"
    by (rule node_ok_periodic [OF sys_invD(1) [OF assms(3) sys_periodic(2)] sys_periodic(3)])
  then show ?thesis unfolding sys_periodic(1) using assms(3) by (intro sys_inv_put) (auto intro: sent_ok)
qed

interpretation sm: invariant_machine sys_init "sys_step sp" "\<lambda>s. codec_ok sp \<longrightarrow> sys_inv sp s" for sp
  by unfold_locales (auto intro: sys_inv_init sys_inv_step)

lemma reachable_sys_inv: "reachable sys_init (sys_step sp) s \<Longrightarrow> codec_ok sp \<Longrightarrow> sys_inv sp s"
  using sm.reachable_inv by blast

text \<open>A bound on the incarnations a node has published in, for the systems that implement the protocol.\<close>

definition incarnations_bound :: "'v publish_log \<Rightarrow> (node_id \<Rightarrow> u64) \<Rightarrow> bool" where
  "incarnations_bound log inc \<longleftrightarrow> (\<forall>n. \<forall>g \<in> dom (log n). incarnation g \<le> inc n)"

lemma incarnations_boundD: "incarnations_bound log inc \<Longrightarrow> g \<in> dom (log n) \<Longrightarrow> incarnation g \<le> inc n"
  by (simp add: incarnations_bound_def)

lemma incarnations_bound_publish:
  assumes "incarnations_bound log inc" and "incarnation g \<le> inc' n" and "\<And>k. inc k \<le> inc' k"
  shows "incarnations_bound (publish n g x log) inc'"
  using assms(1,2) order_trans [OF _ assms(3)] by (auto simp: incarnations_bound_def publish_def)

lemma incarnations_bound_mutate:
  assumes "incarnations_bound log inc" and "node_ok sp log n e" and "age (so_generation (eng_state e)) \<noteq> - 1"
    and "mutate c f (rs_project sp) u e = (e', r)"
  shows "incarnations_bound (publish n (mr_generation r) x log) inc"
proof (rule incarnations_bound_publish [OF assms(1)])
  have "so_generation (eng_state e) \<in> dom (log n)"
    using node_okD(3) [OF assms(2)] by (auto simp: owner_ok_def eng_state_def)
  from incarnations_boundD [OF assms(1) this] show "incarnation (mr_generation r) \<le> inc n"
    by (simp add: node_ok_mutate(1) [OF assms(2-4)])
qed simp

subsection \<open>What every replica shows\<close>

lemma published_views:
  assumes "codec_ok sp" and "reachable sys_init (sys_step sp) s"
    and "sys_engines s n = Some e" and "eng_get_view e k = Some v"
  shows "sv_generation v = generation_zero \<or> sys_log s k (sv_generation v) = Some (sv_value v)"
  using node_okD(4) [OF sys_invD(1) [OF reachable_sys_inv [OF assms(2,1)] assms(3)]] assms(4)
  by (simp add: views_published_def view_published_def eng_get_view_def)

text \<open>
  C1: replicas only ever show what the owner published. In every reachable state of the cluster, under
  any loss, duplication and reordering of messages, any crashes, restarts with a newer incarnation,
  joins and departures, the view that any node holds of any other is either the placeholder of a peer
  that was never heard of, or exactly the view its owner published at that generation. The codec is
  assumed to round-trip and delta mutations to produce deltas that reproduce the new view.
\<close>

theorem replicas_show_published:
  assumes "codec_ok sp" and "reachable sys_init (sys_step sp) s"
    and "sys_engines s n = Some e" and "eng_get_view e k = Some v"
  shows "sv_generation v = generation_zero \<or> sys_log s k (sv_generation v) = Some (sv_value v)"
  using assms by (rule published_views)

lemma owner_bounds_views:
  assumes "codec_ok sp" and "reachable sys_init (sys_step sp) s"
    and "sys_engines s n = Some e" and "sys_engines s k = Some owner" and "eng_get_view e k = Some v"
  shows "sv_generation v \<le> so_generation (eng_state owner) \<and>
    (sv_generation v = so_generation (eng_state owner) \<longrightarrow> sv_value v = rs_project sp (so_value (eng_state owner)))"
proof -
  note inv = reachable_sys_inv [OF assms(2,1)]
  have own: "owner_ok sp (sys_log s) k (eng_shard owner)"
    using node_okD(3) [OF sys_invD(1) [OF inv assms(4)]] .
  have "view_published (sys_log s) k v"
    using node_okD(4) [OF sys_invD(1) [OF inv assms(3)]] assms(5)
    by (simp add: views_published_def eng_get_view_def)
  then show ?thesis
    using own owner_logged_le [OF own] own_incarnation [OF inv assms(4)] generation_zero_least
    by (auto simp: view_published_def owner_ok_def eng_state_def generation_zero_def)
qed

text \<open>
  C2: no replica is ahead of its owner, and equal generations mean equal data. While the owner runs,
  every view of it anywhere has a generation at most the owner's, and a view at the owner's current
  generation shows the projection of the owner's current state.
\<close>

theorem replica_never_ahead:
  assumes "codec_ok sp" and "reachable sys_init (sys_step sp) s"
    and "sys_engines s n = Some e" and "sys_engines s k = Some owner" and "eng_get_view e k = Some v"
  shows "sv_generation v \<le> so_generation (eng_state owner) \<and>
    (sv_generation v = so_generation (eng_state owner) \<longrightarrow> sv_value v = rs_project sp (so_value (eng_state owner)))"
  using assms by (rule owner_bounds_views)

lemma content_of_full_snapshot:
  assumes e: "node_ok sp log n e" and "codec_ok sp" and "n \<noteq> k" and acc: "eng_should_accept_from e k"
  shows "content_of (eng_shard (fst (handle_full_snapshot c (rs_name sp) k g (rs_wire sp) (rs_serialize sp x) e))) k =
    (if \<forall>v. get_view (eng_shard e) k = Some v \<longrightarrow> sv_generation v < g then Some (g, x) else content_of (eng_shard e) k)"
proof -
  note d = node_okD [OF e] node_params [OF node_okD(2) [OF e]]
  have "on_inbound (eng_versioning e) (rs_serialize sp x) (rs_wire sp) (rs_deserialize sp) = InboundOk x"
    using assms(2) by (simp add: on_inbound_ok codec_ok_def)
  then show ?thesis
    using acc d(5,7) by (auto simp: full_snapshot_shard d(11) content_of_accept_snapshot eng_should_accept_from_def)
qed

lemma content_of_deliver_current:
  assumes e: "node_ok sp log n e" and owner: "node_ok sp log k owner" and "codec_ok sp" and log: "log_ok log"
    and "n \<noteq> k" and acc: "eng_should_accept_from e k"
  shows "\<exists>e'. handle_inbound c (Sync (own_full_snapshot owner
      (eng_serialize_view owner (rs_project sp (so_value (eng_state owner)))))) e = Inr (e', []) \<and>
    content_of (eng_shard e') k =
      Some (so_generation (eng_state owner), rs_project sp (so_value (eng_state owner)))"
proof -
  let ?g = "so_generation (eng_state owner)" and ?v = "rs_project sp (so_value (eng_state owner))"
  note d = node_okD [OF e]
  note o = node_okD [OF owner] node_params [OF node_okD(2) [OF owner]]
  let ?e' = "fst (handle_full_snapshot c (rs_name sp) k ?g (rs_wire sp) (rs_serialize sp ?v) e)"
  have msg: "own_full_snapshot owner (eng_serialize_view owner ?v) =
      FullSnapshot (rs_name sp) k ?g (rs_wire sp) (rs_serialize sp ?v)"
    by (simp add: own_full_snapshot_def o eng_state_def)
  note content = content_of_full_snapshot [OF e assms(3,5) acc, of c ?g ?v]
  have "content_of (eng_shard e) k = Some (?g, ?v)"
    if v: "get_view (eng_shard e) k = Some v" and ge: "\<not> sv_generation v < ?g" for v
  proof -
    have logged: "log k ?g = Some ?v" and own: "owner_ok sp log k (eng_shard owner)"
      using o(3) by (simp_all add: owner_ok_def eng_state_def)
    have "?g \<noteq> generation_zero" using log_okD [OF log logged] by (auto simp: generation_zero_def)
    then have "sv_generation v \<noteq> generation_zero"
      using ge by (metis generation_zero_least order_le_less)
    then have pub: "log k (sv_generation v) = Some (sv_value v)"
      using v d(4) by (auto simp: views_published_def view_published_def)
    then have "sv_generation v = ?g"
      using owner_logged_le [OF own pub] ge by (simp add: eng_state_def)
    with pub logged v show ?thesis by (simp add: content_of_def)
  qed
  then have "content_of (eng_shard ?e') k = Some (?g, ?v)" using content by auto
  then show ?thesis
    unfolding msg handle_inbound.simps handle_inbound_sync.simps
    using full_snapshot_frame(1) [of c "rs_name sp" k ?g "rs_wire sp" "rs_serialize sp ?v" e]
    by (metis prod.collapse)
qed

text \<open>
  C4: one pull brings a replica up to date. In any reachable state, when a node asks the owner for a
  snapshot and neither has the other marked as departed, the owner answers with exactly one message to
  the requester, and once that message is handled the requester holds the owner's current generation
  and the projection of its current state, whatever it held before.
\<close>

theorem pull_brings_up_to_date:
  assumes "codec_ok sp" and "reachable sys_init (sys_step sp) s"
    and "sys_engines s n = Some e" and "sys_engines s k = Some owner" and "n \<noteq> k"
    and "eng_should_accept_from e k" and "eng_should_accept_from owner n"
  shows "\<exists>owner' m e' v. make_snapshot_request e k = SendSync k (RequestSnapshot (rs_name sp) n) \<and>
    handle_inbound c (Sync (RequestSnapshot (rs_name sp) n)) owner = Inr (owner', [SendSync n m]) \<and>
    handle_inbound c' (Sync m) e = Inr (e', []) \<and> eng_get_view e' k = Some v \<and>
    sv_generation v = so_generation (eng_state owner) \<and>
    sv_value v = rs_project sp (so_value (eng_state owner))"
proof -
  note inv = reachable_sys_inv [OF assms(2,1)]
  note ok = sys_invD(1) [OF inv assms(3)] and okk = sys_invD(1) [OF inv assms(4)]
  note d = node_params [OF node_okD(2) [OF ok]] and o = node_params [OF node_okD(2) [OF okk]]
  let ?m = "own_full_snapshot owner (eng_serialize_view owner (rs_project sp (so_value (eng_state owner))))"
  have "handle_inbound c (Sync (RequestSnapshot (rs_name sp) n)) owner =
      Inr (with_diagnostics record_snapshot_sent owner, [SendSync n ?m])"
    using assms(7) by (simp add: handle_request_snapshot_def own_view_value_published [OF okk] o
        eng_should_accept_from_def Let_def)
  moreover obtain e' where "handle_inbound c' (Sync ?m) e = Inr (e', [])"
    and "content_of (eng_shard e') k =
      Some (so_generation (eng_state owner), rs_project sp (so_value (eng_state owner)))"
    using content_of_deliver_current [OF ok okk assms(1) sys_invD(3) [OF inv] assms(5,6)] by blast
  moreover have "make_snapshot_request e k = SendSync k (RequestSnapshot (rs_name sp) n)"
    by (simp add: make_snapshot_request_def d)
  ultimately show ?thesis
    by (auto dest!: content_of_SomeD simp: eng_get_view_def)
qed

text \<open>
  C6: no delta is lost silently. A delta of a current member on the engine's wire version either
  leaves the node with a view of the sender at least as new as the delta, or makes it send that sender
  exactly one snapshot request; nothing else is sent.
\<close>

theorem delta_or_request:
  assumes "engine_wf e" and "eng_should_accept_from e src"
    and "handle_inbound c (Sync (DeltaUpdate (eng_state_name e) src gen (eng_wire_version e) data)) e = Inr (e', acts)"
  shows "acts = [make_snapshot_request e src] \<or>
    acts = [] \<and> (\<exists>v. eng_get_view e' src = Some v \<and> gen \<le> sv_generation v)"
proof -
  have h: "handle_delta_update c (eng_state_name e) src gen (eng_wire_version e) data e = (e', acts)"
    using assms(3) by simp
  have acc: "ll_should_accept_from (eng_lifecycle e) src" using assms(2) by (simp add: eng_should_accept_from_def)
  show ?thesis
  proof (cases "delta_passes e (eng_state_name e) src gen (eng_wire_version e) data")
    case None
    then show ?thesis
      using h acc
      by (auto simp: handle_delta_update_def delta_passes_def age_inc_iff eng_get_view_def
          split: if_splits option.splits sum.splits)
  next
    case (Some x)
    then obtain appl cv where cv: "eng_inbound_delta_applier e = Some appl"
      "get_view (eng_shard e) src = Some cv" "gen = age_inc (sv_generation cv)"
      "appl data (eng_wire_version e) (sv_value cv) = Inr x"
      by (auto simp: delta_passes_def split: if_splits option.splits sum.splits)
    have "snd (accept_inbound_delta c src gen (eng_wire_version e) (\<lambda>_. x) (eng_shard e)) = Applied"
      using cv by (simp add: accept_inbound_delta_def get_view_def age_inc_def Let_def)
    then have "acts = []"
      using h acc cv by (auto simp: handle_delta_update_def age_inc_iff case_prod_unfold Let_def)
    moreover have "content_of (eng_shard e') src = Some (gen, x)"
    proof -
      have "e' = fst (handle_delta_update c (eng_state_name e) src gen (eng_wire_version e) data e)"
        using h by simp
      then have "eng_shard e' = fst (accept_inbound_delta c src gen (eng_wire_version e) (\<lambda>_. x) (eng_shard e))"
        by (simp add: delta_update_shard Some)
      then show ?thesis
        using cv(2,3) assms(1) by (simp add: content_of_accept_delta engine_wfD)
    qed
    ultimately show ?thesis by (auto dest!: content_of_SomeD simp: eng_get_view_def)
  qed
qed

text \<open>
  C5: deltas keep a replica in step. When a replica shows the owner's current generation and the owner
  makes an honest delta mutation with immediate urgency, the owner broadcasts one message, and handling
  it moves the replica to the new generation and the projection of the new state, with no full
  snapshot and no further message.
\<close>

theorem delta_keeps_in_step:
  assumes "codec_ok sp" and "reachable sys_init (sys_step sp) s"
    and "sys_engines s n = Some e" and "sys_engines s k = Some owner" and "rs_applier sp \<noteq> None"
    and "eng_should_accept_from e k" and "eng_get_view e k = Some v"
    and "sv_generation v = so_generation (eng_state owner)"
    and "age (so_generation (eng_state owner)) \<noteq> - 1" and "honest_delta sp g"
    and "mutate_with_delta c g (rs_project sp) (rs_project_delta sp) Immediate (rs_serialize_delta sp) owner =
      (owner', r)"
  shows "\<exists>m e' v'. dmr_actions r = [BroadcastSync m] \<and> handle_inbound c' (Sync m) e = Inr (e', []) \<and>
    eng_get_view e' k = Some v' \<and> sv_generation v' = so_generation (eng_state owner') \<and>
    sv_value v' = rs_project sp (so_value (eng_state owner'))"
proof -
  let ?s = "so_value (eng_state owner)" and ?g = "so_generation (eng_state owner)"
  note inv = reachable_sys_inv [OF assms(2,1)]
  note ok = sys_invD(1) [OF inv assms(3)] and okk = sys_invD(1) [OF inv assms(4)]
  note d = node_okD [OF ok] node_params [OF node_okD(2) [OF ok]]
  note o = node_okD [OF okk] node_params [OF node_okD(2) [OF okk]]
  obtain ap where ap: "rs_applier sp = Some ap" using assms(5) by auto
  let ?data = "rs_serialize_delta sp (rs_project_delta sp (snd (g ?s)))"
  let ?m = "DeltaUpdate (rs_name sp) k (age_inc ?g) (rs_wire sp) ?data"
  have acts: "dmr_actions r = [BroadcastSync ?m]" and owner': "eng_shard owner' = fst
      (apply_mutation_with_delta c g (rs_project sp) (rs_project_delta sp) (eng_shard owner))"
    using assms(11)
    by (auto simp: mutate_with_delta_eq apply_mutation_with_delta_eq Let_def o ap sync_logic_new_def
        broadcast_action_def own_delta_update_def frame_simps eng_state_def)
  have st: "so_generation (eng_state owner') = age_inc ?g" "so_value (eng_state owner') = fst (g ?s)"
    by (simp_all add: eng_state_def owner' frame_simps)
  have log: "sys_log s k ?g = Some (rs_project sp ?s)"
    using o(3) by (simp add: owner_ok_def eng_state_def)
  moreover have "?g \<noteq> generation_zero"
    using log_okD [OF sys_invD(3) [OF inv] log] by (auto simp: generation_zero_def)
  moreover have "view_published (sys_log s) k v"
    using d(4) assms(7) by (simp add: views_published_def eng_get_view_def)
  ultimately have "sv_value v = rs_project sp ?s"
    using assms(8) by (simp add: view_published_def)
  then have app: "ap ?data (rs_wire sp) (sv_value v) = Inr (rs_project sp (fst (g ?s)))"
    using assms(10) ap by (simp add: honest_delta_def)
  let ?e' = "fst (handle_delta_update c' (rs_name sp) k (age_inc ?g) (rs_wire sp) ?data e)"
  have v: "get_view (eng_shard e) k = Some v" using assms(7) by (simp add: eng_get_view_def)
  have passes: "delta_passes e (rs_name sp) k (age_inc ?g) (rs_wire sp) ?data =
      Some (rs_project sp (fst (g ?s)))"
    using assms(6,8) v app by (simp add: delta_passes_def d ap eng_should_accept_from_def)
  have "content_of (eng_shard ?e') k = Some (age_inc ?g, rs_project sp (fst (g ?s)))"
    using content_of_accept_delta [OF shard_wf_vm [OF d(5)] v, of "age_inc ?g" c' "rs_wire sp"] assms(8)
    by (simp add: delta_update_shard passes)
  moreover have "snd (handle_delta_update c' (rs_name sp) k (age_inc ?g) (rs_wire sp) ?data e) = []"
  proof -
    have "snd (accept_inbound_delta c' k (age_inc ?g) (rs_wire sp) (\<lambda>_. x) (eng_shard e)) = Applied" for x
      using v assms(8) by (simp add: accept_inbound_delta_def get_view_def age_inc_def Let_def)
    then show ?thesis
      using assms(6,8) v app
      by (simp add: handle_delta_update_def d ap eng_should_accept_from_def age_inc_def case_prod_unfold Let_def)
  qed
  ultimately show ?thesis
    unfolding acts st
    by (auto dest!: content_of_SomeD simp: eng_get_view_def intro!: exI [of _ ?e'] prod_eqI)
qed

text \<open>
  C38: a suppressed delta is not carried by the next one. After a delta mutation with urgency
  \<open>Suppress\<close>, the next immediate delta mutation broadcasts only its own delta, two generations ahead of
  a peer that was in step: the peer changes no view and asks for a full snapshot instead. The documented
  accumulation into the next delta does not take place.
\<close>

theorem suppressed_delta_forces_pull:
  assumes "engine_wf e" and "engine_params e = spec_params sp n" and "engine_params owner = spec_params sp k"
    and "rs_applier sp \<noteq> None" and "eng_should_accept_from e k" and "eng_get_view e k = Some v"
    and "sv_generation v = so_generation (eng_state owner)"
    and "age (so_generation (eng_state owner)) \<notin> {- 1, - 2}"
    and "mutate_with_delta c1 g1 p pd SuppressUrgency sd owner = (owner1, r1)"
    and "mutate_with_delta c2 g2 p pd Immediate sd owner1 = (owner2, r2)"
  shows "dmr_actions r1 = [] \<and> (\<exists>m e'. dmr_actions r2 = [BroadcastSync m] \<and>
    m = own_delta_update owner2 (sd (pd (snd (g2 (so_value (eng_state owner1)))))) \<and>
    handle_inbound c (Sync m) e = Inr (e', [make_snapshot_request e k]) \<and> eng_get_view e' = eng_get_view e)"
proof -
  let ?g = "so_generation (eng_state owner)"
  obtain ap where ap: "rs_applier sp = Some ap" using assms(4) by auto
  note d = node_params [OF assms(2)] and o = node_params [OF assms(3)]
  have o1: "eng_shard owner1 = fst (apply_mutation_with_delta c1 g1 p pd (eng_shard owner))"
    "engine_params owner1 = spec_params sp k" "dmr_actions r1 = []"
    using assms(3,9) mutate_frame(6) [of c1 g1 p pd SuppressUrgency sd owner]
      mutate_frame(4) [of c1 g1 p pd SuppressUrgency sd owner]
    by (auto simp: mutate_with_delta_eq Let_def)
  note o1p = node_params [OF o1(2)]
  have o2: "eng_shard owner2 = fst (apply_mutation_with_delta c2 g2 p pd (eng_shard owner1))"
    using assms(10) mutate_frame(4) [of c2 g2 p pd Immediate sd owner1] by simp
  have o2p: "engine_params owner2 = spec_params sp k"
    using assms(10) o1(2) mutate_frame(6) [of c2 g2 p pd Immediate sd owner1] by simp
  note o2n = node_params [OF o2p]
  have g2: "so_generation (eng_state owner2) = age_inc (age_inc ?g)"
    by (simp add: eng_state_def o1(1) o2 frame_simps)
  have acts: "dmr_actions r2 = [BroadcastSync (own_delta_update owner2 (sd (pd (snd (g2 (so_value (eng_state owner1)))))))]"
    using assms(10) o1p ap o2 o2n
    by (auto simp: mutate_with_delta_eq Let_def sync_logic_new_def broadcast_action_def own_delta_update_def
        apply_mutation_with_delta_eq frame_simps eng_state_def)
  have le: "\<not> age_inc (age_inc ?g) \<le> ?g" and ne: "age ?g + 1 + 1 \<noteq> age ?g + 1"
  proof -
    have a: "age ?g \<noteq> - 1" using assms(8) by simp
    have "age ?g + 1 \<noteq> - 1"
    proof
      assume "age ?g + 1 = - 1"
      then have "age ?g = - 1 - 1" by (metis add_diff_cancel_right')
      with assms(8) show False by simp
    qed
    then have "age (age_inc ?g) \<noteq> - 1" by simp
    then have "?g < age_inc (age_inc ?g)" using age_inc_less [of ?g] age_inc_less [of "age_inc ?g"] a by simp
    then show "\<not> age_inc (age_inc ?g) \<le> ?g" by simp
  qed simp
  have v: "get_view (eng_shard e) k = Some v" using assms(6) by (simp add: eng_get_view_def)
  have msg: "own_delta_update owner2 data = DeltaUpdate (rs_name sp) k (age_inc (age_inc ?g)) (rs_wire sp) data" for data
    using g2 by (simp add: own_delta_update_def o2n eng_state_def)
  have "handle_inbound c (Sync (own_delta_update owner2 data)) e =
      Inr (with_diagnostics (record_gap_detected k) e, [make_snapshot_request e k])" for data
    unfolding msg using assms(5,7) v le ne
    by (simp add: handle_delta_update_def d ap eng_should_accept_from_def)
  moreover have "eng_get_view (with_diagnostics f e) = eng_get_view e" for f
    by (rule ext) (simp add: eng_get_view_def)
  ultimately show ?thesis using acts o1(3) by simp
qed

subsection \<open>A concrete cluster\<close>

text \<open>Two nodes replicate a byte; the delta is the increment. Node \<open>a\<close> learns of \<open>b\<close> and sends it its
  snapshot, which \<open>b\<close> handles.\<close>

definition byte_decode :: "bytes \<Rightarrow> u32 \<Rightarrow> deserialize_error + u8" where
  "byte_decode bs w = (case bs of [b] \<Rightarrow> Inr b | _ \<Rightarrow> Inl (Malformed ''length''))"

definition byte_applier :: "u8 inbound_delta_applier" where
  "byte_applier bs w cur = (case byte_decode bs w of Inl err \<Rightarrow> Inl err | Inr b \<Rightarrow> Inr (cur + b))"

definition byte_spec :: "(u8, u8, u8, u8) replica_spec" where
  "byte_spec = \<lparr>rs_name = ''s'', rs_wire = 1, rs_config = state_config_default, rs_project = id,
     rs_serialize = (\<lambda>v. [v]), rs_deserialize = byte_decode, rs_applier = Some byte_applier,
     rs_project_delta = id, rs_serialize_delta = (\<lambda>v. [v])\<rparr>"

definition byte_add :: "u8 \<Rightarrow> u8 \<Rightarrow> u8 \<times> u8" where
  "byte_add d s = (s + d, d)"

lemma byte_codec: "codec_ok byte_spec"
  by (simp add: codec_ok_def byte_spec_def byte_decode_def)

lemma byte_honest: "honest_delta byte_spec (byte_add d)"
  by (simp add: honest_delta_def byte_spec_def byte_applier_def byte_decode_def byte_add_def)

definition started ::
    "('s, 'v, 'dc, 'vd) replica_spec \<Rightarrow> node_id \<Rightarrow> 's \<Rightarrow> clock_reading \<Rightarrow> ('s, 'v) system \<Rightarrow> ('s, 'v) system" where
  "started sp n v c s = (put_engine n (start_engine sp n v c) {} s)
     \<lparr>sys_log := publish n (Generation (clk_unix_ms c) 0) (rs_project sp v) (sys_log s)\<rparr>"

definition sys_empty :: "('s, 'v) system" where
  "sys_empty = \<lparr>sys_engines = Map.empty, sys_net = {}, sys_log = (\<lambda>n. Map.empty)\<rparr>"

lemma sys_empty_reachable: "reachable sys_init (sys_step sp) sys_empty"
  by (rule reachable_init) (simp add: sys_init_def sys_empty_def)

lemma started_reachable:
  assumes "reachable sys_init (sys_step sp) s" and "sys_engines s n = None" and "sys_log s n = Map.empty"
    and "clk_unix_ms c \<noteq> 0"
  shows "reachable sys_init (sys_step sp) (started sp n v c s)"
  using reachable_step [OF assms(1) sys_start [OF assms(2,4), of sp v]] assms(3) by (simp add: started_def)

definition byte_pair :: "(u8, u8) system" where
  "byte_pair = started byte_spec ''b'' 4 demo_clock (started byte_spec ''a'' 3 demo_clock sys_empty)"

lemma byte_pair_reachable: "reachable sys_init (sys_step byte_spec) byte_pair"
  unfolding byte_pair_def
  by (intro started_reachable sys_empty_reachable)
    (simp_all add: started_def sys_empty_def put_engine_def publish_def demo_clock_def)

lemma byte_pair_engines:
  "sys_engines byte_pair ''a'' = Some (start_engine byte_spec ''a'' 3 demo_clock)"
  "sys_engines byte_pair ''b'' = Some (start_engine byte_spec ''b'' 4 demo_clock)"
  by (simp_all add: byte_pair_def started_def put_engine_def)

lemma start_accepts: "eng_should_accept_from (start_engine sp n v c) k"
  by (simp add: start_engine_def engine_new_def eng_should_accept_from_def ll_should_accept_from_def
      lifecycle_new_def Let_def)

lemma start_generation:
  "so_generation (eng_state (start_engine sp n v c)) = Generation (clk_unix_ms c) 0"
  by (simp add: start_engine_def engine_new_def eng_state_def shard_new_def new_state_object_def
      generation_new_def Let_def)

lemma full_snapshot_accepts:
  "handle_inbound c (Sync (own_full_snapshot x data)) e = Inr (e', acts) \<Longrightarrow>
   eng_should_accept_from e' k = eng_should_accept_from e k"
  using full_snapshot_frame(2) [of c "eng_state_name x" "eng_node_id x"
      "so_generation (sh_state (eng_shard x))" "eng_wire_version x" data e]
  by (auto simp: own_full_snapshot_def eng_should_accept_from_def)

lemma byte_cluster:
  obtains s e owner v where "reachable sys_init (sys_step byte_spec) s"
    "sys_engines s ''b'' = Some e" "sys_engines s ''a'' = Some owner"
    "eng_get_view e ''a'' = Some v" "sv_generation v = Generation 1000 0"
    "so_generation (eng_state owner) = Generation 1000 0" "eng_should_accept_from e ''a''"
proof -
  let ?a = "start_engine byte_spec ''a'' 3 demo_clock" and ?b = "start_engine byte_spec ''b'' 4 demo_clock"
  let ?j = "joined_engine demo_clock ''b'' 0 ?a"
  let ?m = "own_full_snapshot ?j (eng_serialize_view ?j (rs_project byte_spec (so_value (eng_state ?j))))"
  let ?a' = "with_diagnostics record_snapshot_sent ?j"
  let ?s3 = "put_engine ''a'' ?a' (sent [SendSync ''b'' ?m]) byte_pair"
  note inv = reachable_sys_inv [OF byte_pair_reachable byte_codec]
  note ok = sys_invD(1) [OF inv byte_pair_engines(1)] sys_invD(1) [OF inv byte_pair_engines(2)]
  have j: "node_ok byte_spec (sys_log byte_pair) ''a'' ?j" using ok(1) by (rule node_ok_joined_engine)
  have "eng_serialize_view ?j = eng_serialize_view ?a" by (simp add: joined_engine_def)
  then have "on_node_joined demo_clock ''b'' 0 ?a = Inr (?a', [SendSync ''b'' ?m])"
    using on_node_joined_eq [OF own_view_value_published [OF j]] by simp
  then have s3: "reachable sys_init (sys_step byte_spec) ?s3"
    using reachable_step [OF byte_pair_reachable sys_join [OF byte_pair_engines(1)]] by blast
  obtain e where e: "handle_inbound demo_clock (Sync ?m) ?b = Inr (e, [])"
    and content: "content_of (eng_shard e) ''a'' =
      Some (so_generation (eng_state ?j), rs_project byte_spec (so_value (eng_state ?j)))"
    using content_of_deliver_current [OF ok(2) j byte_codec sys_invD(3) [OF inv]]
    by (auto simp: start_accepts)
  have b: "sys_engines ?s3 ''b'' = Some ?b" and net: "Sync ?m \<in> sys_net ?s3"
    using byte_pair_engines(2) by (auto simp: put_engine_def sent_def)
  have "sys_step byte_spec ?s3 (put_engine ''b'' e (sent []) ?s3)"
    by (rule sys_deliver, rule b, rule net, rule e)
  with s3 have s4: "reachable sys_init (sys_step byte_spec) (put_engine ''b'' e (sent []) ?s3)"
    by (rule reachable_step)
  have g: "so_generation (eng_state ?j) = Generation 1000 0" "eng_state ?a' = eng_state ?j"
    using start_generation [of byte_spec "''a''" 3 demo_clock]
    by (simp_all add: eng_state_def joined_engine_def frame_simps demo_clock_def)
  from content g(1) obtain v where "eng_get_view e ''a'' = Some v" "sv_generation v = Generation 1000 0"
    by (auto simp: eng_get_view_def dest!: content_of_SomeD)
  then show thesis
    using that [OF s4] g full_snapshot_accepts [OF e, of "''a''"] by (simp add: put_engine_def start_accepts)
qed

theorem replicas_show_published_witness:
  "\<exists>s e v. reachable sys_init (sys_step byte_spec) s \<and> sys_engines s ''b'' = Some e \<and>
     eng_get_view e ''a'' = Some v \<and> sv_generation v = Generation 1000 0 \<and>
     sys_log s ''a'' (Generation 1000 0) = Some (sv_value v)"
proof -
  obtain s e owner v where *: "reachable sys_init (sys_step byte_spec) s" "sys_engines s ''b'' = Some e"
    "eng_get_view e ''a'' = Some v" "sv_generation v = Generation 1000 0"
    by (rule byte_cluster)
  with replicas_show_published [OF byte_codec *(1-3)] show ?thesis
    by (auto simp: generation_zero_def)
qed

theorem replica_never_ahead_witness:
  "\<exists>s e owner v. reachable sys_init (sys_step byte_spec) s \<and> sys_engines s ''b'' = Some e \<and>
     sys_engines s ''a'' = Some owner \<and> eng_get_view e ''a'' = Some v \<and>
     sv_value v = so_value (eng_state owner)"
proof -
  obtain s e owner v where *: "reachable sys_init (sys_step byte_spec) s" "sys_engines s ''b'' = Some e"
    "sys_engines s ''a'' = Some owner" "eng_get_view e ''a'' = Some v"
    "sv_generation v = Generation 1000 0" "so_generation (eng_state owner) = Generation 1000 0"
    by (rule byte_cluster)
  have "sv_value v = rs_project byte_spec (so_value (eng_state owner))"
    using replica_never_ahead [OF byte_codec *(1-4)] *(5,6) by simp
  with * show ?thesis by (auto simp: byte_spec_def)
qed

theorem pull_brings_up_to_date_witness:
  "\<exists>owner' m e' v.
    handle_inbound demo_clock (Sync (RequestSnapshot ''s'' ''b'')) (start_engine byte_spec ''a'' 3 demo_clock) =
      Inr (owner', [SendSync ''b'' m]) \<and>
    handle_inbound demo_clock (Sync m) (start_engine byte_spec ''b'' 4 demo_clock) = Inr (e', []) \<and>
    eng_get_view e' ''a'' = Some v \<and> sv_generation v = Generation 1000 0"
proof -
  have "rs_name byte_spec = ''s''" by (simp add: byte_spec_def)
  moreover have "clk_unix_ms demo_clock = 1000" by (simp add: demo_clock_def)
  ultimately show ?thesis
    using pull_brings_up_to_date [OF byte_codec byte_pair_reachable byte_pair_engines(2,1), where c = demo_clock
        and c' = demo_clock] by (auto simp: start_accepts start_generation)
qed

theorem delta_or_request_witness:
  "\<exists>e' acts. handle_inbound demo_clock (Sync (DeltaUpdate ''s'' ''b'' (Generation 9 9) 1 [7]))
      (demo_engine ''a'' demo_config) = Inr (e', acts) \<and>
    (acts = [SendSync ''b'' (RequestSnapshot ''s'' ''a'')] \<or>
     acts = [] \<and> (\<exists>v. eng_get_view e' ''b'' = Some v \<and> Generation 9 9 \<le> sv_generation v))"
proof -
  let ?e = "demo_engine ''a'' demo_config"
  from inbound_ok [OF demo_engine_wf] obtain e' acts where
    "handle_inbound demo_clock (Sync (DeltaUpdate (eng_state_name ?e) ''b'' (Generation 9 9) (eng_wire_version ?e) [7])) ?e =
      Inr (e', acts)" by blast
  with delta_or_request [OF demo_engine_wf _ this] show ?thesis
    by (auto simp: eng_should_accept_from_def ll_should_accept_from_def make_snapshot_request_def)
qed

theorem delta_keeps_in_step_witness:
  "\<exists>s e owner m e' v'. reachable sys_init (sys_step byte_spec) s \<and>
    sys_engines s ''b'' = Some e \<and> sys_engines s ''a'' = Some owner \<and>
    dmr_actions (snd (mutate_with_delta demo_clock (byte_add 5) id id Immediate (\<lambda>v. [v]) owner)) = [BroadcastSync m] \<and>
    handle_inbound demo_clock (Sync m) e = Inr (e', []) \<and> eng_get_view e' ''a'' = Some v'"
proof -
  obtain s e owner v where *: "reachable sys_init (sys_step byte_spec) s" "sys_engines s ''b'' = Some e"
    "sys_engines s ''a'' = Some owner" "eng_get_view e ''a'' = Some v"
    "sv_generation v = Generation 1000 0" "so_generation (eng_state owner) = Generation 1000 0"
    "eng_should_accept_from e ''a''"
    by (rule byte_cluster)
  let ?r = "mutate_with_delta demo_clock (byte_add 5) (rs_project byte_spec) (rs_project_delta byte_spec)
    Immediate (rs_serialize_delta byte_spec) owner"
  have "\<exists>m e' v'. dmr_actions (snd ?r) = [BroadcastSync m] \<and> handle_inbound demo_clock (Sync m) e = Inr (e', []) \<and>
      eng_get_view e' ''a'' = Some v' \<and> sv_generation v' = so_generation (eng_state (fst ?r)) \<and>
      sv_value v' = rs_project byte_spec (so_value (eng_state (fst ?r)))"
    using * by (intro delta_keeps_in_step [OF byte_codec *(1,2,3) _ *(7,4) _ _ byte_honest surjective_pairing])
      (simp_all add: byte_spec_def)
  then show ?thesis using *(1-3) by (auto simp: byte_spec_def)
qed

lemma start_params: "engine_params (start_engine sp n v c) = spec_params sp n"
  by (simp add: start_engine_def engine_new_def engine_params_def spec_params_def shard_new_def Let_def)

theorem suppressed_delta_forces_pull_witness:
  "\<exists>(e :: (u8, u8) engine) owner owner1 r1 owner2 r2 m e'. eng_get_view e ''a'' \<noteq> None \<and>
    mutate_with_delta demo_clock (byte_add 1) id id SuppressUrgency (\<lambda>v. [v]) owner = (owner1, r1) \<and>
    mutate_with_delta demo_clock (byte_add 2) id id Immediate (\<lambda>v. [v]) owner1 = (owner2, r2) \<and>
    dmr_actions r2 = [BroadcastSync m] \<and>
    handle_inbound demo_clock (Sync m) e = Inr (e', [make_snapshot_request e ''a''])"
proof -
  obtain s e owner v where *: "reachable sys_init (sys_step byte_spec) s" "sys_engines s ''b'' = Some e"
    "sys_engines s ''a'' = Some owner" "eng_get_view e ''a'' = Some v"
    "sv_generation v = Generation 1000 0" "so_generation (eng_state owner) = Generation 1000 0"
    "eng_should_accept_from e ''a''"
    by (rule byte_cluster)
  note inv = reachable_sys_inv [OF *(1) byte_codec]
  note ok = node_okD [OF sys_invD(1) [OF inv *(2)]] node_okD(2) [OF sys_invD(1) [OF inv *(3)]]
  let ?m1 = "mutate_with_delta demo_clock (byte_add 1) id id SuppressUrgency (\<lambda>v. [v]) owner"
  let ?m2 = "mutate_with_delta demo_clock (byte_add 2) id id Immediate (\<lambda>v. [v]) (fst ?m1)"
  have "rs_applier byte_spec \<noteq> None" by (simp add: byte_spec_def)
  then have "\<exists>m e'. dmr_actions (snd ?m2) = [BroadcastSync m] \<and>
      handle_inbound demo_clock (Sync m) e = Inr (e', [make_snapshot_request e ''a''])"
    using suppressed_delta_forces_pull [OF ok(1,2,7) _ *(7,4) _ _ surjective_pairing [of ?m1]
        surjective_pairing [of ?m2]] *(5,6) by auto
  then obtain m e' where "dmr_actions (snd ?m2) = [BroadcastSync m]"
    "handle_inbound demo_clock (Sync m) e = Inr (e', [make_snapshot_request e ''a''])" by blast
  with *(4) show ?thesis
    by - (rule exI [of _ e], rule exI [of _ owner], rule exI [of _ "fst ?m1"], rule exI [of _ "snd ?m1"],
        rule exI [of _ "fst ?m2"], rule exI [of _ "snd ?m2"], rule exI [of _ m], rule exI [of _ e'], simp)
qed

end
