(* ===== verification/Actor_System.thy ===== *)
theory Actor_System
  imports State_Actor Replication
begin

text \<open>
  A cluster of state actors, as \<open>dstate-dactor\<close> runs it in production: one actor per node, each with its own peer
  registry, and the messages between them told to mailboxes by the runtime. The handlers are those of \<open>State_Actor\<close>; this theory adds the
  schedule only, and shows that the system implements the replication protocol of \<open>Replication\<close>. The runtime is a
  parameter: \<open>tell\<close>, how a node's actor is addressed (\<open>ref\<close>), and what waits for an actor (\<open>mailbox\<close>).
\<close>

subsection \<open>The system\<close>

text \<open>\<open>as_incarnations\<close> records the newest incarnation given to each node id.\<close>

record ('s, 'v, 'w) actor_system =
  as_actors :: "node_id \<rightharpoonup> ('s, 'v) state_actor"
  as_peers :: "node_id \<Rightarrow> 'w peer_registry"
  as_world :: 'w
  as_incarnations :: "node_id \<Rightarrow> u64"

text \<open>What is used of the runtime: a \<open>tell\<close>, whether it succeeds or not, adds at most its message to the mailbox of its
  addressee.\<close>

definition tell_sound :: "('r \<Rightarrow> 'm \<Rightarrow> 'w \<Rightarrow> string option \<times> 'w) \<Rightarrow> ('w \<Rightarrow> 'r \<Rightarrow> 'm list) \<Rightarrow> bool" where
  "tell_sound tell mailbox \<longleftrightarrow>
     (\<forall>r m w q. set (mailbox (snd (tell r m w)) q) \<subseteq> set (mailbox w q) \<union> (if q = r then {m} else {}))"

text \<open>
  The inputs an actor may get. Inbound messages come from its mailbox; a mutation of the application uses the
  projection of the state type and does not overflow the age; all else is unrestricted.
\<close>

fun may_receive ::
    "('s, 'v, 'dc, 'vd) replica_spec \<Rightarrow> ('s, 'v) actor_msg set \<Rightarrow> ('s, 'v) engine \<Rightarrow> ('s, 'v) actor_msg \<Rightarrow> bool" where
  "may_receive sp mail e (MutateMsg m) \<longleftrightarrow>
     mm_project_fn m = rs_project sp \<and> age (so_generation (eng_state e)) \<noteq> - 1"
| "may_receive sp mail e (InboundSyncMsg m) \<longleftrightarrow> InboundSyncMsg m \<in> mail"
| "may_receive sp mail e (InboundWireMsg m) \<longleftrightarrow> InboundWireMsg m \<in> mail"
| "may_receive sp mail e _ \<longleftrightarrow> True"

fun may_step ::
    "('s, 'v, 'dc, 'vd) replica_spec \<Rightarrow> ('s, 'v) actor_msg set \<Rightarrow> ('s, 'v) engine \<Rightarrow> ('s, 'v) actor_input \<Rightarrow> bool" where
  "may_step sp mail e (Receive c msg) \<longleftrightarrow> may_receive sp mail e msg"
| "may_step sp mail e _ \<longleftrightarrow> True"

text \<open>
  The schedule: actors are spawned on fresh engines and go away with their process; peers are registered and unregistered at any
  time; an actor takes one input; and the runtime removes messages from mailboxes, by handing them out or by losing them.
\<close>

inductive actor_step ::
    "('s, 'v, 'dc, 'vd) replica_spec \<Rightarrow> ('r \<Rightarrow> ('s, 'v) actor_msg \<Rightarrow> 'w \<Rightarrow> string option \<times> 'w) \<Rightarrow> (node_id \<Rightarrow> 'r) \<Rightarrow>
     ('w \<Rightarrow> 'r \<Rightarrow> ('s, 'v) actor_msg list) \<Rightarrow> ('s, 'v, 'w) actor_system \<Rightarrow> ('s, 'v, 'w) actor_system \<Rightarrow> bool"
    for sp tell ref mailbox where
  actor_spawn: "as_actors st n = None \<Longrightarrow> as_incarnations st n < clk_unix_ms c \<Longrightarrow>
    actor_step sp tell ref mailbox st
      (st\<lparr>as_actors := (as_actors st)(n \<mapsto> actor_create (start_engine sp n v c)),
         as_incarnations := (as_incarnations st)(n := clk_unix_ms c)\<rparr>)"
| actor_gone: "actor_step sp tell ref mailbox st (st\<lparr>as_actors := (as_actors st)(n := None)\<rparr>)"
| actor_register: "actor_step sp tell ref mailbox st
    (st\<lparr>as_peers := (as_peers st)(n := hm_insert k (actor_ref_peer_sender tell (ref k)) (as_peers st n))\<rparr>)"
| actor_unregister: "actor_step sp tell ref mailbox st
    (st\<lparr>as_peers := (as_peers st)(n := hm_remove k (as_peers st n))\<rparr>)"
| actor_input: "as_actors st n = Some a \<Longrightarrow>
    may_step sp (set (mailbox (as_world st) (ref n))) (act_engine a) i \<Longrightarrow>
    actor_input_step i (as_peers st n, a, as_world st) = Inr (peers', a', w') \<Longrightarrow>
    actor_step sp tell ref mailbox st
      (st\<lparr>as_actors := (as_actors st)(n \<mapsto> a'), as_peers := (as_peers st)(n := peers'), as_world := w'\<rparr>)"
| actor_runtime: "(\<And>r. set (mailbox w' r) \<subseteq> set (mailbox (as_world st) r)) \<Longrightarrow>
    actor_step sp tell ref mailbox st (st\<lparr>as_world := w'\<rparr>)"

definition actor_init :: "('w \<Rightarrow> 'r \<Rightarrow> ('s, 'v) actor_msg list) \<Rightarrow> ('s, 'v, 'w) actor_system \<Rightarrow> bool" where
  "actor_init mailbox st \<longleftrightarrow> as_actors st = Map.empty \<and> as_peers st = (\<lambda>_. new_peer_registry) \<and>
     as_incarnations st = (\<lambda>_. 0) \<and> (\<forall>r. mailbox (as_world st) r = [])"

subsection \<open>What is under way\<close>

fun carried :: "('s, 'v) actor_msg \<Rightarrow> wire_message set" where
  "carried (InboundSyncMsg m) = {Sync (is_message m)}"
| "carried (InboundWireMsg m) = {iw_message m}"
| "carried _ = {}"

definition mail_sound :: "('w \<Rightarrow> 'r \<Rightarrow> ('s, 'v) actor_msg list) \<Rightarrow> wire_message set \<Rightarrow> 'w \<Rightarrow> bool" where
  "mail_sound mailbox net w \<longleftrightarrow> (\<forall>r. \<forall>m \<in> set (mailbox w r). carried m \<subseteq> net)"

lemma mail_sound_mono: "mail_sound mailbox net w \<Longrightarrow> net \<subseteq> net' \<Longrightarrow> mail_sound mailbox net' w"
  by (auto simp: mail_sound_def)

lemma tell_mail_sound:
  assumes "tell_sound tell mailbox" and "mail_sound mailbox net w" and "carried m \<subseteq> net"
  shows "mail_sound mailbox net (snd (tell r m w))"
proof -
  have "carried x \<subseteq> net" if "x \<in> set (mailbox (snd (tell r m w)) q)" for q x
  proof -
    have "set (mailbox (snd (tell r m w)) q) \<subseteq> set (mailbox w q) \<union> (if q = r then {m} else {})"
      using assms(1) unfolding tell_sound_def by blast
    then have "x \<in> set (mailbox w q) \<or> x = m" using that by (auto split: if_splits)
    then show ?thesis using assms(2,3) by (auto simp: mail_sound_def)
  qed
  then show ?thesis by (simp add: mail_sound_def)
qed

lemma send_each_mail_sound:
  assumes "tell_sound tell mailbox" and "sends_via tell ref peers"
    and "mail_sound mailbox net w" and "snd ` set ds \<subseteq> net"
  shows "mail_sound mailbox net (send_each peers ds w)"
  using assms(3,4)
proof (induction ds arbitrary: w)
  case (Cons d ds)
  obtain k m where d: "d = (k, m)" by fastforce
  have "mail_sound mailbox net (send_one peers d w)"
  proof (cases "hm_get peers k")
    case (Some s)
    have s: "s = actor_ref_peer_sender tell (ref k)" by (rule sends_via_get [OF assms(2) Some])
    show ?thesis
      using Some Cons.prems by (cases m) (auto simp: d s actor_ref_peer_sender_def intro!: tell_mail_sound [OF assms(1)])
  qed (use Cons.prems in \<open>simp add: d\<close>)
  then show ?case using Cons by simp
qed simp

lemma sends_of_sent: "snd ` set (sends_of ids msg e acts) \<subseteq> sent acts \<union> set (feed_of msg e)"
proof -
  have "snd ` set (routed own ids act) \<subseteq> {Sync (action_message act)}" for own act
    by (cases act) auto
  then show ?thesis by (fastforce simp: sends_of_def sent_def)
qed

lemma delayed_sent:
  assumes "act \<in> set acts" and "t \<in> set (delayed act)" shows "Sync (dt_message t) \<in> sent acts"
proof -
  have "action_message act = dt_message t" using assms(2) by (induction act rule: delayed.induct) auto
  with assms(1) show ?thesis unfolding sent_def by (metis imageI)
qed

subsection \<open>One input is at most one step of the protocol\<close>

lemma receive_sys_step:
  assumes "sys_engines s n = Some e" and "may_receive sp mail e msg" and "\<Union> (carried ` mail) \<subseteq> sys_net s"
    and "apply_msg c msg e = Inr (e', acts)"
  shows "\<exists>s'. sys_step sp s s' \<and> sys_engines s' = (sys_engines s)(n \<mapsto> e') \<and>
    sys_net s' = sys_net s \<union> sent acts \<union> set (feed_of msg e) \<and>
    (sys_log s' = sys_log s \<or> (\<exists>f u r. age (so_generation (eng_state e)) \<noteq> - 1 \<and> mutate c f (rs_project sp) u e = (e', r) \<and>
       sys_log s' = publish n (mr_generation r) (mr_view r) (sys_log s)))"
proof (cases msg)
  case (MutateMsg m)
  obtain e1 r where m: "mutate c (mm_mutate_fn m) (rs_project sp) (mm_urgency m) e = (e1, r)" by fastforce
  then have "e1 = e'" "mr_actions r = acts" using assms(2,4) MutateMsg by auto
  with m sys_mutate [OF assms(1) _ m] assms(2) MutateMsg show ?thesis
    by (fastforce simp: put_engine_def feed_of_def)
next
  case (QueryViewsMsg m)
  then show ?thesis
    using assms(4) sys_query [OF assms(1), of sp c "qv_max_staleness m"]
    by (fastforce simp: put_engine_def feed_of_def)
next
  case FlushChangeFeedMsg
  obtain batch where b: "flush_change_feed e = (e', batch)" using assms(4) FlushChangeFeedMsg by (auto simp: prod_eq_iff)
  with FlushChangeFeedMsg assms(4) sys_flush [OF assms(1) b] show ?thesis
    by (intro exI [of _ "put_engine n e' (Feed ` set_option batch) s"])
      (auto simp: put_engine_def feed_of_def sent_def split: option.splits)
next
  case (ClusterChangeMsg m)
  then show ?thesis
    using assms(4) sys_join [OF assms(1)] sys_leave [OF assms(1)]
    by (cases m) (fastforce simp: put_engine_def feed_of_def sent_def)+
next
  case PeriodicSyncMsg
  then show ?thesis
    using assms(4) sys_periodic [OF assms(1)] by (fastforce simp: put_engine_def feed_of_def)
next
  case (InboundSyncMsg m)
  then have "Sync (is_message m) \<in> sys_net s" using assms(2,3) by fastforce
  from sys_deliver [OF assms(1) this, of c e' acts sp] InboundSyncMsg assms(4) show ?thesis
    by (fastforce simp: put_engine_def feed_of_def)
next
  case (InboundWireMsg m)
  then have "iw_message m \<in> sys_net s" using assms(2,3) by fastforce
  from sys_deliver [OF assms(1) this, of c e' acts sp] InboundWireMsg assms(4) show ?thesis
    by (fastforce simp: put_engine_def feed_of_def)
qed

subsection \<open>The simulation\<close>

definition peers_ok ::
    "('r \<Rightarrow> ('s, 'v) actor_msg \<Rightarrow> 'w \<Rightarrow> string option \<times> 'w) \<Rightarrow> (node_id \<Rightarrow> 'r) \<Rightarrow> 'w peer_registry \<Rightarrow> bool" where
  "peers_ok tell ref peers \<longleftrightarrow> hm_wf peers \<and> sends_via tell ref peers"

lemma peers_ok_new: "peers_ok tell ref new_peer_registry"
  by (simp add: peers_ok_def new_peer_registry_def sends_via_def)

lemma peers_ok_remove: "peers_ok tell ref peers \<Longrightarrow> peers_ok tell ref (hm_remove k peers)"
  by (simp add: peers_ok_def wf_intros sends_via_remove)

lemma peers_ok_insert:
  assumes "peers_ok tell ref peers"
  shows "peers_ok tell ref (hm_insert k (actor_ref_peer_sender tell (ref k)) peers)"
proof -
  have "sends_via tell ref (hm_insert k (actor_ref_peer_sender tell (ref k)) xs)" if "sends_via tell ref xs" for xs
    using that by (induction xs) (auto simp: sends_via_def hm_insert_def)
  then show ?thesis using assms by (simp add: peers_ok_def wf_intros)
qed

lemma peers_ok_after: "peers_ok tell ref peers \<Longrightarrow> peers_ok tell ref (registry_after msg peers)"
  by (induction msg peers rule: registry_after.induct) (simp_all add: peers_ok_remove)

definition actor_match ::
    "('s, 'v, 'dc, 'vd) replica_spec \<Rightarrow> ('r \<Rightarrow> ('s, 'v) actor_msg \<Rightarrow> 'w \<Rightarrow> string option \<times> 'w) \<Rightarrow> (node_id \<Rightarrow> 'r) \<Rightarrow>
     ('w \<Rightarrow> 'r \<Rightarrow> ('s, 'v) actor_msg list) \<Rightarrow> ('s, 'v, 'w) actor_system \<Rightarrow> ('s, 'v) system \<Rightarrow> bool" where
  "actor_match sp tell ref mailbox st s \<longleftrightarrow> sys_engines s = map_option act_engine \<circ> as_actors st \<and>
     (\<forall>n a t. as_actors st n = Some a \<longrightarrow> t \<in> set (act_tasks a) \<longrightarrow> Sync (dt_message t) \<in> sys_net s) \<and>
     mail_sound mailbox (sys_net s) (as_world st) \<and> (\<forall>n. peers_ok tell ref (as_peers st n)) \<and>
     incarnations_bound (sys_log s) (as_incarnations st)"

lemma match_receive:
  assumes "actor_match sp tell ref mailbox st s" and "sys_inv sp s" and "tell_sound tell mailbox"
    and a: "as_actors st n = Some a" and "may_receive sp (set (mailbox (as_world st) (ref n))) (act_engine a) msg"
    and "actor_handle c msg (as_peers st n, a, as_world st) = Inr (peers', a', w')"
  shows "\<exists>s'. (sys_step sp)\<^sup>*\<^sup>* s s' \<and> actor_match sp tell ref mailbox
    (st\<lparr>as_actors := (as_actors st)(n \<mapsto> a'), as_peers := (as_peers st)(n := peers'), as_world := w'\<rparr>) s'"
proof -
  let ?peers = "as_peers st n"
  have m: "sys_engines s = map_option act_engine \<circ> as_actors st" "mail_sound mailbox (sys_net s) (as_world st)"
    "\<And>k. peers_ok tell ref (as_peers st k)" "incarnations_bound (sys_log s) (as_incarnations st)"
    and tasks: "\<And>k b t. as_actors st k = Some b \<Longrightarrow> t \<in> set (act_tasks b) \<Longrightarrow> Sync (dt_message t) \<in> sys_net s"
    using assms(1) by (auto simp: actor_match_def)
  have e: "sys_engines s n = Some (act_engine a)" using m(1) a by simp
  note node = sys_invD(1) [OF assms(2) e]
  have peers: "hm_wf ?peers" "sends_via tell ref ?peers" using m(3) by (auto simp: peers_ok_def)
  obtain e' acts where ap: "apply_msg c msg (act_engine a) = Inr (e', acts)"
    and r: "peers' = registry_after msg ?peers"
      "a' = a\<lparr>act_engine := e', act_tasks := act_tasks a @ concat (map delayed acts)\<rparr>"
      "w' = send_each ?peers (sends_of (hm_keys ?peers) msg (act_engine a) acts) (as_world st)"
    using actor_handle_spec [OF node_okD(1) [OF node] peers(1), of c msg "as_world st"] assms(6) by auto
  have "\<Union> (carried ` set (mailbox (as_world st) (ref n))) \<subseteq> sys_net s"
    using m(2) by (auto simp: mail_sound_def)
  from receive_sys_step [OF e assms(5) this ap] obtain s' where s': "sys_step sp s s'"
    "sys_engines s' = (sys_engines s)(n \<mapsto> e')" "sys_net s' = sys_net s \<union> sent acts \<union> set (feed_of msg (act_engine a))"
    and log: "sys_log s' = sys_log s \<or> (\<exists>f u r. age (so_generation (eng_state (act_engine a))) \<noteq> - 1 \<and>
       mutate c f (rs_project sp) u (act_engine a) = (e', r) \<and>
       sys_log s' = publish n (mr_generation r) (mr_view r) (sys_log s))" by blast
  have "incarnations_bound (sys_log s') (as_incarnations st)"
    using log m(4) incarnations_bound_mutate [OF m(4) node] by auto
  moreover have "mail_sound mailbox (sys_net s') w'"
    unfolding r(3)
    by (rule send_each_mail_sound [OF assms(3) peers(2) mail_sound_mono [OF m(2)]])
      (use s'(3) sends_of_sent in \<open>blast+\<close>)
  moreover have "Sync (dt_message t) \<in> sys_net s'"
    if "((as_actors st)(n \<mapsto> a')) k = Some b" "t \<in> set (act_tasks b)" for k b t
    using that tasks [of k b t] tasks [OF a, of t] delayed_sent [of _ acts t] s'(3) by (auto simp: r(2) split: if_splits)
  moreover have "sys_engines s' = map_option act_engine \<circ> (as_actors st)(n \<mapsto> a')"
    by (simp add: s'(2) m(1) r(2) fun_eq_iff)
  moreover have "peers_ok tell ref (((as_peers st)(n := peers')) k)" for k
    using m(3) by (simp add: r(1) peers_ok_after)
  ultimately have "actor_match sp tell ref mailbox
      (st\<lparr>as_actors := (as_actors st)(n \<mapsto> a'), as_peers := (as_peers st)(n := peers'), as_world := w'\<rparr>) s'"
    by (auto simp: actor_match_def split: if_splits)
  with s'(1) show ?thesis by blast
qed

lemma match_timer:
  assumes "actor_match sp tell ref mailbox st s" and "tell_sound tell mailbox" and "as_actors st n = Some a"
    and "task_fires i (as_peers st n) (a, as_world st) = (a', w')"
  shows "actor_match sp tell ref mailbox (st\<lparr>as_actors := (as_actors st)(n \<mapsto> a'), as_world := w'\<rparr>) s"
proof -
  have m: "mail_sound mailbox (sys_net s) (as_world st)" "hm_wf (as_peers st n)" "sends_via tell ref (as_peers st n)"
    and tasks: "\<And>t. t \<in> set (act_tasks a) \<Longrightarrow> Sync (dt_message t) \<in> sys_net s"
    using assms(1,3) by (auto simp: actor_match_def peers_ok_def)
  have "mail_sound mailbox (sys_net s) w'"
    using assms(4) m(1) tasks nth_mem [of i "act_tasks a"]
    by (auto simp: task_fires_def send_sync_all_each [OF m(2)] split: if_splits
        intro!: send_each_mail_sound [OF assms(2) m(3)])
  moreover have "act_engine a' = act_engine a" "set (act_tasks a') \<subseteq> set (act_tasks a)"
    using assms(4) by (auto simp: task_fires_def split: if_splits dest: in_set_takeD in_set_dropD)
  ultimately show ?thesis
    using assms(1,3) by (auto simp: actor_match_def fun_eq_iff split: if_splits)
qed

lemma match_spawn:
  assumes "actor_match sp tell ref mailbox st s" and "as_actors st n = None" and "as_incarnations st n < clk_unix_ms c"
  shows "\<exists>s'. (sys_step sp)\<^sup>*\<^sup>* s s' \<and> actor_match sp tell ref mailbox
    (st\<lparr>as_actors := (as_actors st)(n \<mapsto> actor_create (start_engine sp n v c)),
       as_incarnations := (as_incarnations st)(n := clk_unix_ms c)\<rparr>) s'"
proof -
  have inc: "incarnations_bound (sys_log s) (as_incarnations st)" using assms(1) by (simp add: actor_match_def)
  have "sys_step sp s (started sp n v c s)"
    unfolding started_def
  proof (rule sys_start)
    show "sys_engines s n = None" using assms(1,2) by (simp add: actor_match_def)
    show "incarnation g < clk_unix_ms c" if "g \<in> dom (sys_log s n)" for g
      using incarnations_boundD [OF inc that] assms(3) by simp
  qed (use assms(3) in auto)
  moreover have "incarnations_bound (sys_log (started sp n v c s)) ((as_incarnations st)(n := clk_unix_ms c))"
    unfolding started_def using assms(3) by (auto intro!: incarnations_bound_publish [OF inc])
  ultimately show ?thesis
    using assms(1) by (intro exI [of _ "started sp n v c s"])
      (auto simp: actor_match_def started_def put_engine_def actor_create_def fun_eq_iff split: if_splits)
qed

lemma match_actor_step:
  assumes "actor_match sp tell ref mailbox st s" and "sys_inv sp s" and "tell_sound tell mailbox"
    and "actor_step sp tell ref mailbox st st'"
  shows "\<exists>s'. (sys_step sp)\<^sup>*\<^sup>* s s' \<and> actor_match sp tell ref mailbox st' s'"
  using assms(4,1,2)
proof (induction rule: actor_step.induct)
  case (actor_spawn st n c v)
  from match_spawn [OF this(3,1,2)] show ?case .
next
  case (actor_gone st n)
  let ?s = "s\<lparr>sys_engines := (sys_engines s)(n := None)\<rparr>"
  have "actor_match sp tell ref mailbox (st\<lparr>as_actors := (as_actors st)(n := None)\<rparr>) ?s"
    using actor_gone.prems(1) by (auto simp: actor_match_def fun_eq_iff split: if_splits)
  then show ?case using sys_crash [of sp s n] by blast
next
  case (actor_register st n k)
  then have "actor_match sp tell ref mailbox
      (st\<lparr>as_peers := (as_peers st)(n := hm_insert k (actor_ref_peer_sender tell (ref k)) (as_peers st n))\<rparr>) s"
    by (simp add: actor_match_def peers_ok_insert)
  then show ?case by blast
next
  case (actor_unregister st n k)
  then have "actor_match sp tell ref mailbox (st\<lparr>as_peers := (as_peers st)(n := hm_remove k (as_peers st n))\<rparr>) s"
    by (simp add: actor_match_def peers_ok_remove)
  then show ?case by blast
next
  case (actor_input st n a i peers' a' w')
  show ?case
  proof (cases i)
    case (Receive c msg)
    then show ?thesis using actor_input match_receive [OF actor_input.prems assms(3)] by simp
  next
    case (TimerFires j)
    then have "peers' = as_peers st n" "task_fires j (as_peers st n) (a, as_world st) = (a', w')"
      using actor_input.hyps(3) by auto
    with match_timer [OF actor_input.prems(1) assms(3) actor_input.hyps(1)] show ?thesis by auto
  next
    case Stop
    then have "peers' = as_peers st n" "a' = actor_on_stop a" "w' = as_world st" using actor_input.hyps(3) by auto
    then have "actor_match sp tell ref mailbox
        (st\<lparr>as_actors := (as_actors st)(n \<mapsto> a'), as_peers := (as_peers st)(n := peers'), as_world := w'\<rparr>) s"
      using actor_input.prems(1) actor_input.hyps(1)
      by (auto simp: actor_match_def actor_on_stop_def fun_eq_iff split: if_splits)
    then show ?thesis by blast
  qed
next
  case (actor_runtime w' st)
  then have "actor_match sp tell ref mailbox (st\<lparr>as_world := w'\<rparr>) s"
    by (fastforce simp: actor_match_def mail_sound_def)
  then show ?case by blast
qed

lemma match_actor_init:
  assumes "actor_init mailbox st" shows "\<exists>s. sys_init s \<and> actor_match sp tell ref mailbox st s"
  using assms
  by (intro exI [of _ sys_empty])
    (auto simp: actor_init_def actor_match_def sys_init_def sys_empty_def mail_sound_def incarnations_bound_def peers_ok_new)

interpretation actors: forward_simulation
    "\<lambda>st. codec_ok sp \<and> tell_sound tell mailbox \<and> actor_init mailbox st" "actor_step sp tell ref mailbox" sys_init "sys_step sp"
    "\<lambda>st s. codec_ok sp \<and> tell_sound tell mailbox \<and> actor_match sp tell ref mailbox st s" for sp tell mailbox ref
  by unfold_locales (metis match_actor_init, metis match_actor_step reachable_sys_inv)

lemma actors_refined:
  assumes "codec_ok sp" and "tell_sound tell mailbox"
    and "reachable (actor_init mailbox) (actor_step sp tell ref mailbox) st"
  obtains s where "reachable sys_init (sys_step sp) s" and "actor_match sp tell ref mailbox st s"
  using actors.reachable_match [of sp tell mailbox ref st] assms by auto

text \<open>
  C13: a cluster of state actors is consistent, whatever the schedule. Assume only that views round-trip through their
  codec and that a \<open>tell\<close> adds at most its own message to a mailbox. Take any state reached from no actors by spawning actors
  (each with an incarnation newer than the earlier ones of its id), losing them, registering and unregistering peers, and
  letting actors handle requests, told messages and timers in any order, while the runtime may lose, repeat or
  reorder messages. Then the replication protocol reaches a state with the same engines, in whose network is everything that waits in a
  mailbox; and what an actor shows of another is never ahead of its owner and, at the owner's generation, exactly the owner's projected state.
\<close>

theorem actor_system_consistent:
  assumes "codec_ok sp" and "tell_sound tell mailbox"
    and "reachable (actor_init mailbox) (actor_step sp tell ref mailbox) st"
  shows "(\<exists>s. reachable sys_init (sys_step sp) s \<and> (\<forall>n. sys_engines s n = map_option act_engine (as_actors st n)) \<and>
      (\<forall>r. \<forall>m \<in> set (mailbox (as_world st) r). carried m \<subseteq> sys_net s)) \<and>
    (\<forall>n k a owner v. as_actors st n = Some a \<longrightarrow> as_actors st k = Some owner \<longrightarrow> eng_get_view (act_engine a) k = Some v \<longrightarrow>
      sv_generation v \<le> so_generation (eng_state (act_engine owner)) \<and>
      (sv_generation v = so_generation (eng_state (act_engine owner)) \<longrightarrow>
        sv_value v = rs_project sp (so_value (eng_state (act_engine owner)))))"
proof -
  obtain s where s: "reachable sys_init (sys_step sp) s" and m: "actor_match sp tell ref mailbox st s"
    using actors_refined [OF assms] .
  have e: "sys_engines s n = map_option act_engine (as_actors st n)" for n using m by (simp add: actor_match_def)
  have "sv_generation v \<le> so_generation (eng_state (act_engine owner)) \<and>
      (sv_generation v = so_generation (eng_state (act_engine owner)) \<longrightarrow>
        sv_value v = rs_project sp (so_value (eng_state (act_engine owner))))"
    if "as_actors st n = Some a" "as_actors st k = Some owner" "eng_get_view (act_engine a) k = Some v" for n k a owner v
    by (rule owner_bounds_views [OF assms(1) s _ _ that(3), of n]) (simp_all add: e that)
  moreover have "\<forall>r. \<forall>m \<in> set (mailbox (as_world st) r). carried m \<subseteq> sys_net s"
    using m by (simp add: actor_match_def mail_sound_def)
  ultimately show ?thesis using s e by blast
qed

subsection \<open>A mutation arrives\<close>

text \<open>What is used of the runtime in addition: a \<open>tell\<close> that reports no error has put its message in the mailbox, and no
  \<open>tell\<close> takes messages away. A \<open>tell\<close> that reports an error may have lost its message.\<close>

definition tell_truthful :: "('r \<Rightarrow> 'm \<Rightarrow> 'w \<Rightarrow> string option \<times> 'w) \<Rightarrow> ('w \<Rightarrow> 'r \<Rightarrow> 'm list) \<Rightarrow> bool" where
  "tell_truthful tell mailbox \<longleftrightarrow>
     (\<forall>r m w. (fst (tell r m w) = None \<longrightarrow> m \<in> set (mailbox (snd (tell r m w)) r)) \<and>
       (\<forall>q. set (mailbox w q) \<subseteq> set (mailbox (snd (tell r m w)) q)))"

lemma send_one_keeps:
  assumes "tell_truthful tell mailbox" and "sends_via tell ref peers"
  shows "set (mailbox w q) \<subseteq> set (mailbox (send_one peers d w) q)"
proof -
  obtain k m where d: "d = (k, m)" by fastforce
  have keep: "set (mailbox w q) \<subseteq> set (mailbox (snd (tell r x w)) q)" for r x
    using assms(1) unfolding tell_truthful_def by blast
  show ?thesis
  proof (cases "hm_get peers k")
    case (Some s)
    then show ?thesis
      using keep by (cases m) (simp_all add: d sends_via_get [OF assms(2) Some] actor_ref_peer_sender_def)
  qed (simp add: d)
qed

lemma send_each_keeps:
  assumes "tell_truthful tell mailbox" and "sends_via tell ref peers"
  shows "set (mailbox w q) \<subseteq> set (mailbox (send_each peers ds w) q)"
proof (induction ds arbitrary: w)
  case (Cons d ds)
  then show ?case using send_one_keeps [OF assms, of w q d] by fastforce
qed simp

text \<open>The world in which a broadcast of node \<open>n\<close> gets to the peer \<open>k\<close>: the peers before it in the registry have been told.\<close>

definition before_telling :: "node_id \<Rightarrow> node_id \<Rightarrow> sync_message \<Rightarrow> 'w peer_registry \<Rightarrow> 'w \<Rightarrow> 'w" where
  "before_telling n k m peers w =
     send_each peers (map (\<lambda>j. (j, Sync m)) (takeWhile (\<lambda>j. j \<noteq> k) (filter (\<lambda>j. j \<noteq> n) (hm_keys peers)))) w"

lemma takeWhile_split: "k \<in> set ks \<Longrightarrow> \<exists>post. ks = takeWhile (\<lambda>j. j \<noteq> k) ks @ k # post"
  by (induction ks) auto

lemma broadcast_delivers:
  assumes "tell_truthful tell mailbox" and "sends_via tell ref peers" and "hm_get peers k \<noteq> None" and "k \<noteq> n" and "hm_wf peers"
    and "fst (tell (ref k) (InboundSyncMsg \<lparr>is_message = m\<rparr>) (before_telling n k m peers w)) = None"
  shows "InboundSyncMsg \<lparr>is_message = m\<rparr> \<in>
    set (mailbox (send_each peers (map (\<lambda>j. (j, Sync m)) (filter (\<lambda>j. j \<noteq> n) (hm_keys peers))) w) (ref k))"
proof -
  let ?ks = "filter (\<lambda>j. j \<noteq> n) (hm_keys peers)" and ?msg = "InboundSyncMsg \<lparr>is_message = m\<rparr>"
  have "k \<in> set ?ks" using assms(3,4) hm.keys_law [OF assms(5)] by auto
  from takeWhile_split [OF this] obtain post where ks: "?ks = takeWhile (\<lambda>j. j \<noteq> k) ?ks @ k # post" ..
  obtain s where s: "hm_get peers k = Some s" using assms(3) by auto
  let ?w = "before_telling n k m peers w"
  have "?msg \<in> set (mailbox (snd (tell (ref k) ?msg ?w)) (ref k))" using assms(1,6) unfolding tell_truthful_def by blast
  then have "?msg \<in> set (mailbox (send_one peers (k, Sync m) ?w) (ref k))"
    by (simp add: s sends_via_get [OF assms(2) s] actor_ref_peer_sender_def)
  moreover have "send_each peers (map (\<lambda>j. (j, Sync m)) ?ks) w =
      send_each peers (map (\<lambda>j. (j, Sync m)) post) (send_one peers (k, Sync m) ?w)"
    by (subst ks) (simp add: before_telling_def)
  ultimately show ?thesis
    using send_each_keeps [OF assms(1,2), of "send_one peers (k, Sync m) ?w" "ref k" "map (\<lambda>j. (j, Sync m)) post"] by auto
qed

text \<open>The mutation: what the actor sends, and what the message does wherever it is handled.\<close>

definition mutate_input :: "clock_reading \<Rightarrow> ('s \<Rightarrow> 's) \<Rightarrow> ('s \<Rightarrow> 'v) \<Rightarrow> ('s, 'v) actor_input" where
  "mutate_input c f p = Receive c (MutateMsg \<lparr>mm_mutate_fn = f, mm_project_fn = p, mm_urgency = Immediate\<rparr>)"

definition arrival :: "clock_reading \<Rightarrow> sync_message \<Rightarrow> ('s, 'v) actor_input" where
  "arrival c m = Receive c (InboundSyncMsg \<lparr>is_message = m\<rparr>)"

lemma actor_mutates:
  assumes "peers_ok tell ref peers" and e: "node_ok sp log n (act_engine a)"
    and g: "g = age_inc (so_generation (eng_state (act_engine a)))" and x: "x = f (so_value (eng_state (act_engine a)))"
  obtains a' where
    "actor_input_step (mutate_input c f (rs_project sp)) (peers, a, w) = Inr (peers, a',
       send_each peers (map (\<lambda>k. (k, Sync (FullSnapshot (rs_name sp) n g (rs_wire sp) (rs_serialize sp (rs_project sp x)))))
         (filter (\<lambda>k. k \<noteq> n) (hm_keys peers))) w)"
    "so_generation (eng_state (act_engine a')) = g" "so_value (eng_state (act_engine a')) = x"
proof -
  let ?msg = "MutateMsg \<lparr>mm_mutate_fn = f, mm_project_fn = rs_project sp, mm_urgency = Immediate\<rparr>"
  note d = node_okD [OF e] node_params [OF node_okD(2) [OF e]]
  obtain e1 r where m: "mutate c f (rs_project sp) Immediate (act_engine a) = (e1, r)" by fastforce
  have acts: "mr_actions r = [BroadcastSync (FullSnapshot (rs_name sp) n g (rs_wire sp) (rs_serialize sp (rs_project sp x)))]"
    using mutate_acts [OF m] by (simp add: d g x Let_def)
  obtain e' ac where ap: "apply_msg c ?msg (act_engine a) = Inr (e', ac)"
    and h: "actor_handle c ?msg (peers, a, w) = Inr (registry_after ?msg peers,
      a\<lparr>act_engine := e', act_tasks := act_tasks a @ concat (map delayed ac)\<rparr>,
      send_each peers (sends_of (hm_keys peers) ?msg (act_engine a) ac) w)"
    using actor_handle_spec [OF d(1), of peers c ?msg w] assms(1) by (auto simp: peers_ok_def)
  have e': "e' = e1" "ac = mr_actions r" using ap by (simp_all add: m)
  have "eng_state e1 = mutated_state c f (eng_state (act_engine a))"
    using mutate_frame(1) [of c f "rs_project sp" Immediate "act_engine a"] m
    by (simp add: eng_state_def apply_mutation_eq Let_def frame_simps)
  then have "so_generation (eng_state e1) = g" "so_value (eng_state e1) = x" by (simp_all add: g x mutated_state_def)
  moreover have "actor_input_step (mutate_input c f (rs_project sp)) (peers, a, w) = Inr (peers, a\<lparr>act_engine := e1\<rparr>,
       send_each peers (map (\<lambda>k. (k, Sync (FullSnapshot (rs_name sp) n g (rs_wire sp) (rs_serialize sp (rs_project sp x)))))
         (filter (\<lambda>k. k \<noteq> n) (hm_keys peers))) w)"
    using h by (simp add: mutate_input_def e' acts sends_of_def feed_of_def d)
  ultimately show thesis using that [of "a\<lparr>act_engine := e1\<rparr>"] by simp
qed

lemma actor_receives:
  assumes "peers_ok tell ref peers" and e: "node_ok sp log k (act_engine b)" and "codec_ok sp" and "k \<noteq> n"
    and acc: "eng_should_accept_from (act_engine b) n"
  obtains b' w' v where
    "actor_input_step (arrival c (FullSnapshot (rs_name sp) n g (rs_wire sp) (rs_serialize sp x))) (peers, b, w) = Inr (peers, b', w')"
    "eng_get_view (act_engine b') n = Some v" "g \<le> sv_generation v"
    "(\<forall>v0. eng_get_view (act_engine b) n = Some v0 \<longrightarrow> sv_generation v0 < g) \<longrightarrow> sv_generation v = g \<and> sv_value v = x"
proof -
  let ?m = "FullSnapshot (rs_name sp) n g (rs_wire sp) (rs_serialize sp x)"
  let ?msg = "InboundSyncMsg \<lparr>is_message = ?m\<rparr>"
  obtain e' ac where ap: "apply_msg c ?msg (act_engine b) = Inr (e', ac)"
    and h: "actor_handle c ?msg (peers, b, w) = Inr (registry_after ?msg peers,
      b\<lparr>act_engine := e', act_tasks := act_tasks b @ concat (map delayed ac)\<rparr>,
      send_each peers (sends_of (hm_keys peers) ?msg (act_engine b) ac) w)"
    using actor_handle_spec [OF node_okD(1) [OF e], of peers c ?msg w] assms(1) by (auto simp: peers_ok_def)
  have "e' = fst (handle_full_snapshot c (rs_name sp) n g (rs_wire sp) (rs_serialize sp x) (act_engine b))"
    using ap by simp
  then have content: "content_of (eng_shard e') n =
      (if \<forall>v. get_view (eng_shard (act_engine b)) n = Some v \<longrightarrow> sv_generation v < g then Some (g, x)
       else content_of (eng_shard (act_engine b)) n)"
    using content_of_full_snapshot [OF e assms(3,4) acc] by simp
  obtain v where v: "get_view (eng_shard e') n = Some v" "g \<le> sv_generation v"
    "(\<forall>v0. get_view (eng_shard (act_engine b)) n = Some v0 \<longrightarrow> sv_generation v0 < g) \<Longrightarrow> sv_generation v = g \<and> sv_value v = x"
  proof (cases "\<forall>v. get_view (eng_shard (act_engine b)) n = Some v \<longrightarrow> sv_generation v < g")
    case True
    then show thesis using content content_of_SomeD [of "eng_shard e'" n g x] that by auto
  next
    case False
    then obtain v0 where "get_view (eng_shard (act_engine b)) n = Some v0" "g \<le> sv_generation v0" by (auto simp: not_less)
    moreover from this have "content_of (eng_shard e') n = Some (sv_generation v0, sv_value v0)"
      using content False by (simp add: content_of_def)
    then obtain v where "get_view (eng_shard e') n = Some v" "sv_generation v = sv_generation v0"
      using content_of_SomeD [of "eng_shard e'" n "sv_generation v0" "sv_value v0"] by auto
    ultimately show thesis using that [of v] False by auto
  qed
  define b' where "b' = b\<lparr>act_engine := e', act_tasks := act_tasks b @ concat (map delayed ac)\<rparr>"
  have "act_engine b' = e'" by (simp add: b'_def)
  moreover have "actor_input_step (arrival c ?m) (peers, b, w) =
      Inr (peers, b', send_each peers (sends_of (hm_keys peers) ?msg (act_engine b) ac) w)"
    using h by (simp add: arrival_def b'_def)
  ultimately show thesis using that v by (simp add: eng_get_view_def)
qed

lemma reachable_actor:
  assumes "codec_ok sp" and "tell_sound tell mailbox"
    and "reachable (actor_init mailbox) (actor_step sp tell ref mailbox) st" and "as_actors st n = Some a"
  obtains log where "node_ok sp log n (act_engine a)" and "peers_ok tell ref (as_peers st n)"
proof -
  obtain s where s: "reachable sys_init (sys_step sp) s" and m: "actor_match sp tell ref mailbox st s"
    using actors_refined [OF assms(1-3)] .
  have "sys_engines s n = Some (act_engine a)" using m assms(4) by (simp add: actor_match_def)
  from sys_invD(1) [OF reachable_sys_inv [OF s assms(1)] this] m show thesis using that by (simp add: actor_match_def)
qed

text \<open>
  C14: a mutation arrives. Let the actor of node \<open>n\<close>, in any reachable state of the cluster, handle an immediate mutation that
  does not overflow its age, and let \<open>k\<close> be one of its registered peers. Views round-trip through their codec, and of the runtime it
  is used that a \<open>tell\<close> adds at most its own message, takes none away, and has added it when it reports no error. Then the handler
  does not fail, the state of \<open>n\<close> is the mutated one at the next age, and a message waits for \<open>k\<close> unless the runtime
  reported an error for the \<open>tell\<close> to \<open>k\<close>, which the actor only logs. Whenever an
  actor of \<open>k\<close> that has not seen \<open>n\<close> leave handles that message, in that or in any other reachable state, the handler does not fail
  and leaves it with a view of \<open>n\<close> that is at least as new as the mutation; and when it had only older views of \<open>n\<close>, or none, the view is exactly
  the projected mutated state at its generation.
\<close>

theorem actor_mutation_arrives:
  assumes "codec_ok sp" and "tell_sound tell mailbox" and "tell_truthful tell mailbox"
    and "reachable (actor_init mailbox) (actor_step sp tell ref mailbox) st"
    and "as_actors st n = Some a" and "hm_get (as_peers st n) k \<noteq> None" and "k \<noteq> n"
    and "age (so_generation (eng_state (act_engine a))) \<noteq> - 1"
  shows "\<exists>a' w' m. actor_input_step (mutate_input c f (rs_project sp)) (as_peers st n, a, as_world st) = Inr (as_peers st n, a', w') \<and>
    actor_step sp tell ref mailbox st (st\<lparr>as_actors := (as_actors st)(n \<mapsto> a'), as_world := w'\<rparr>) \<and>
    so_generation (eng_state (act_engine a')) = age_inc (so_generation (eng_state (act_engine a))) \<and>
    so_value (eng_state (act_engine a')) = f (so_value (eng_state (act_engine a))) \<and>
    (fst (tell (ref k) (InboundSyncMsg \<lparr>is_message = m\<rparr>) (before_telling n k m (as_peers st n) (as_world st))) = None \<longrightarrow>
      InboundSyncMsg \<lparr>is_message = m\<rparr> \<in> set (mailbox w' (ref k))) \<and>
    (\<forall>st2 b c2. reachable (actor_init mailbox) (actor_step sp tell ref mailbox) st2 \<longrightarrow> as_actors st2 k = Some b \<longrightarrow>
      eng_should_accept_from (act_engine b) n \<longrightarrow>
      (\<exists>b' w2 v. actor_input_step (arrival c2 m) (as_peers st2 k, b, as_world st2) = Inr (as_peers st2 k, b', w2) \<and>
        eng_get_view (act_engine b') n = Some v \<and> so_generation (eng_state (act_engine a')) \<le> sv_generation v \<and>
        ((\<forall>v0. eng_get_view (act_engine b) n = Some v0 \<longrightarrow> sv_generation v0 < so_generation (eng_state (act_engine a'))) \<longrightarrow>
          sv_generation v = so_generation (eng_state (act_engine a')) \<and>
          sv_value v = rs_project sp (so_value (eng_state (act_engine a'))))))"
proof -
  define g where "g = age_inc (so_generation (eng_state (act_engine a)))"
  define x where "x = f (so_value (eng_state (act_engine a)))"
  define m where "m = FullSnapshot (rs_name sp) n g (rs_wire sp) (rs_serialize sp (rs_project sp x))"
  define w' where "w' = send_each (as_peers st n) (map (\<lambda>k. (k, Sync m)) (filter (\<lambda>k. k \<noteq> n) (hm_keys (as_peers st n)))) (as_world st)"
  obtain log where e: "node_ok sp log n (act_engine a)" and peers: "peers_ok tell ref (as_peers st n)"
    using reachable_actor [OF assms(1,2,4,5)] .
  obtain a' where step: "actor_input_step (mutate_input c f (rs_project sp)) (as_peers st n, a, as_world st) = Inr (as_peers st n, a', w')"
    and new: "so_generation (eng_state (act_engine a')) = g" "so_value (eng_state (act_engine a')) = x"
    using actor_mutates [where f = f and c = c and w = "as_world st", OF peers e g_def x_def] unfolding w'_def m_def .
  have "fst (tell (ref k) (InboundSyncMsg \<lparr>is_message = m\<rparr>) (before_telling n k m (as_peers st n) (as_world st))) = None \<longrightarrow>
      InboundSyncMsg \<lparr>is_message = m\<rparr> \<in> set (mailbox w' (ref k))"
    unfolding w'_def using broadcast_delivers [OF assms(3) _ assms(6,7)] peers by (auto simp: peers_ok_def)
  moreover have "actor_step sp tell ref mailbox st (st\<lparr>as_actors := (as_actors st)(n \<mapsto> a'), as_world := w'\<rparr>)"
    using actor_input [where sp = sp and tell = tell and ref = ref and mailbox = mailbox, OF assms(5) _ step] assms(8)
    by (simp add: mutate_input_def)
  moreover have "\<exists>b' w2 v. actor_input_step (arrival c2 m) (as_peers st2 k, b, as_world st2) = Inr (as_peers st2 k, b', w2) \<and>
      eng_get_view (act_engine b') n = Some v \<and> g \<le> sv_generation v \<and>
      ((\<forall>v0. eng_get_view (act_engine b) n = Some v0 \<longrightarrow> sv_generation v0 < g) \<longrightarrow>
        sv_generation v = g \<and> sv_value v = rs_project sp x)"
    if r: "reachable (actor_init mailbox) (actor_step sp tell ref mailbox) st2" and b: "as_actors st2 k = Some b"
      and acc: "eng_should_accept_from (act_engine b) n" for st2 b c2
  proof -
    obtain log2 where e2: "node_ok sp log2 k (act_engine b)" and p2: "peers_ok tell ref (as_peers st2 k)"
      using reachable_actor [OF assms(1,2) r b] .
    from actor_receives [OF p2 e2 assms(1,7) acc, of c2 g "rs_project sp x" "as_world st2"] obtain b' w2 v where
      "actor_input_step (arrival c2 m) (as_peers st2 k, b, as_world st2) = Inr (as_peers st2 k, b', w2)"
      "eng_get_view (act_engine b') n = Some v" "g \<le> sv_generation v"
      "(\<forall>v0. eng_get_view (act_engine b) n = Some v0 \<longrightarrow> sv_generation v0 < g) \<longrightarrow>
        sv_generation v = g \<and> sv_value v = rs_project sp x"
      unfolding m_def .
    then show ?thesis by blast
  qed
  ultimately show ?thesis
    using step by (intro exI [of _ a'] exI [of _ w'] exI [of _ m]) (simp add: new g_def [symmetric] x_def [symmetric])
qed

text \<open>Two actors, \<open>a\<close> and \<open>b\<close>; \<open>a\<close> hears that \<open>b\<close> joined, and tells it its snapshot.\<close>

abbreviation byte_step ::
    "(u8, u8, node_id \<Rightarrow> (u8, u8) actor_msg list) actor_system \<Rightarrow>
     (u8, u8, node_id \<Rightarrow> (u8, u8) actor_msg list) actor_system \<Rightarrow> bool" where
  "byte_step \<equiv> actor_step byte_spec mailbox_tell id (\<lambda>w. w)"

definition byte_actors :: "(u8, u8, node_id \<Rightarrow> (u8, u8) actor_msg list) actor_system" where
  "byte_actors = \<lparr>
     as_actors = [''a'' \<mapsto> actor_create (start_engine byte_spec ''a'' 3 demo_clock),
       ''b'' \<mapsto> actor_create (start_engine byte_spec ''b'' 4 demo_clock)],
     as_peers = (\<lambda>_. [])(''a'' := [(''b'', actor_ref_peer_sender mailbox_tell ''b'')]),
     as_world = (\<lambda>_. []), as_incarnations = (\<lambda>_. 0)(''a'' := 1000, ''b'' := 1000)\<rparr>"

lemma mailbox_tell_sound: "tell_sound mailbox_tell (\<lambda>w. w)"
  by (simp add: tell_sound_def mailbox_tell_def)

lemma byte_actors_reachable: "reachable (actor_init (\<lambda>w. w)) byte_step byte_actors"
proof -
  define s0 :: "(u8, u8, node_id \<Rightarrow> (u8, u8) actor_msg list) actor_system" where
    "s0 = \<lparr>as_actors = Map.empty, as_peers = (\<lambda>_. new_peer_registry), as_world = (\<lambda>_. []), as_incarnations = (\<lambda>_. 0)\<rparr>"
  define s1 where "s1 = s0\<lparr>as_actors := (as_actors s0)(''a'' \<mapsto> actor_create (start_engine byte_spec ''a'' 3 demo_clock)),
    as_incarnations := (as_incarnations s0)(''a'' := clk_unix_ms demo_clock)\<rparr>"
  define s2 where "s2 = s1\<lparr>as_actors := (as_actors s1)(''b'' \<mapsto> actor_create (start_engine byte_spec ''b'' 4 demo_clock)),
    as_incarnations := (as_incarnations s1)(''b'' := clk_unix_ms demo_clock)\<rparr>"
  have "reachable (actor_init (\<lambda>w. w)) byte_step s0" by (rule reachable_init) (simp add: actor_init_def s0_def)
  moreover have "byte_step s0 s1" unfolding s1_def by (rule actor_spawn) (simp_all add: s0_def demo_clock_def)
  ultimately have "reachable (actor_init (\<lambda>w. w)) byte_step s1" by (rule reachable_step)
  moreover have "byte_step s1 s2" unfolding s2_def by (rule actor_spawn) (simp_all add: s0_def s1_def demo_clock_def)
  ultimately have r: "reachable (actor_init (\<lambda>w. w)) byte_step s2" by (rule reachable_step)
  have eq: "byte_actors = s2\<lparr>as_peers := (as_peers s2)(''a'' :=
      hm_insert ''b'' (actor_ref_peer_sender mailbox_tell (id ''b'')) (as_peers s2 ''a''))\<rparr>"
    by (simp add: byte_actors_def s0_def s1_def s2_def new_peer_registry_def demo_clock_def hm_insert_def)
  have "byte_step s2 byte_actors" unfolding eq by (rule actor_register)
  with r show ?thesis by (rule reachable_step)
qed

text \<open>The state in which \<open>a\<close> has handled the join of \<open>b\<close>.\<close>

lemma byte_join:
  obtains st a b v where "reachable (actor_init (\<lambda>w. w)) byte_step st" "as_actors st ''a'' = Some a"
    "as_actors st ''b'' = Some b" "eng_get_view (act_engine a) ''b'' = Some v" "as_world st ''b'' \<noteq> []"
proof -
  define e0 where "e0 = start_engine byte_spec ''a'' 3 demo_clock"
  define peers where "peers = as_peers byte_actors ''a''"
  define w where "w = as_world byte_actors"
  let ?a = "actor_create e0" and ?msg = "ClusterChangeMsg (NodeJoined ''b'' 0)"
  have wf: "engine_wf e0" by (simp add: e0_def start_engine_def wf_intros)
  have id: "eng_node_id e0 = ''a''" by (simp add: e0_def start_engine_def engine_new_def shard_new_def Let_def)
  have peers: "peers = [(''b'', actor_ref_peer_sender mailbox_tell ''b'')]" "w = (\<lambda>_. [])"
    by (simp_all add: peers_def w_def byte_actors_def)
  obtain e m where e: "on_node_joined demo_clock ''b'' 0 e0 = Inr (e, [SendSync ''b'' m])"
    "eng_shard e = shard_on_node_joined demo_clock ''b'' 0 (eng_shard e0)"
    using joined_ok [OF wf] by metis
  define w' where "w' = send_each peers [(''b'', Sync m)] w"
  define a' where "a' = ?a\<lparr>act_engine := e\<rparr>"
  have h: "actor_handle demo_clock ?msg (peers, ?a, w) = Inr (peers, a', w')"
    using actor_handle_spec [of ?a peers demo_clock ?msg w] wf e(1) id
    by (auto simp: actor_create_def sends_of_def feed_of_def a'_def w'_def peers(1) hm_keys_def hm_wf_def)
  define st where "st = byte_actors\<lparr>as_actors := (as_actors byte_actors)(''a'' \<mapsto> a'),
    as_peers := (as_peers byte_actors)(''a'' := peers), as_world := w'\<rparr>"
  have "byte_step byte_actors st"
    unfolding st_def
    by (rule actor_input [where a = ?a and i = "Receive demo_clock ?msg"])
      (use h in \<open>simp_all add: peers_def w_def\<close>, simp add: byte_actors_def e0_def)
  with byte_actors_reachable have "reachable (actor_init (\<lambda>w. w)) byte_step st" by (rule reachable_step)
  moreover have "\<exists>v. eng_get_view (act_engine a') ''b'' = Some v"
    using engine_wfD [OF wf] id by (auto simp: a'_def eng_get_view_def e(2) lookup_simps)
  moreover have "w' ''b'' \<noteq> []"
    by (simp add: w'_def peers hm_get_def actor_ref_peer_sender_def mailbox_tell_def)
  ultimately show thesis using that [of st a'] by (auto simp: st_def byte_actors_def)
qed

theorem actor_system_consistent_witness:
  "\<exists>st a owner v. reachable (actor_init (\<lambda>w. w)) byte_step st \<and> as_actors st ''a'' = Some a \<and>
     as_actors st ''b'' = Some owner \<and> eng_get_view (act_engine a) ''b'' = Some v \<and>
     sv_generation v \<le> so_generation (eng_state (act_engine owner)) \<and> as_world st ''b'' \<noteq> []"
proof -
  obtain st a b v where *: "reachable (actor_init (\<lambda>w. w)) byte_step st" "as_actors st ''a'' = Some a"
    "as_actors st ''b'' = Some b" "eng_get_view (act_engine a) ''b'' = Some v" "as_world st ''b'' \<noteq> []"
    using byte_join .
  from conjunct2 [OF actor_system_consistent [OF byte_codec mailbox_tell_sound *(1)]] * show ?thesis by blast
qed

lemma mailbox_tell_truthful: "tell_truthful mailbox_tell (\<lambda>w. w)"
  by (auto simp: tell_truthful_def mailbox_tell_def)

text \<open>The actor of \<open>a\<close> adds 1 to its state 3; a told \<open>b\<close>, which knew nothing of \<open>a\<close>, then shows 4.\<close>

theorem actor_mutation_arrives_witness:
  "\<exists>a' w' m b' w2 v. actor_input_step (mutate_input demo_clock ((+) 1) (rs_project byte_spec))
       (as_peers byte_actors ''a'', actor_create (start_engine byte_spec ''a'' 3 demo_clock), as_world byte_actors) =
       Inr (as_peers byte_actors ''a'', a', w') \<and>
     InboundSyncMsg \<lparr>is_message = m\<rparr> \<in> set (w' ''b'') \<and>
     actor_input_step (arrival demo_clock m)
       (as_peers byte_actors ''b'', actor_create (start_engine byte_spec ''b'' 4 demo_clock), as_world byte_actors) =
       Inr (as_peers byte_actors ''b'', b', w2) \<and>
     eng_get_view (act_engine b') ''a'' = Some v \<and> sv_value v = 4"
proof -
  define a b where "a = actor_create (start_engine byte_spec ''a'' 3 demo_clock)"
    and "b = actor_create (start_engine byte_spec ''b'' 4 demo_clock)"
  have ab: "as_actors byte_actors ''a'' = Some a" "as_actors byte_actors ''b'' = Some b"
    by (simp_all add: byte_actors_def a_def b_def)
  have a: "age (so_generation (eng_state (act_engine a))) \<noteq> - 1" "so_value (eng_state (act_engine a)) = 3"
    by (simp_all add: a_def actor_create_def start_engine_def engine_new_def shard_new_def eng_state_def new_state_object_def generation_new_def Let_def)
  have b: "eng_should_accept_from (act_engine b) ''a''" "eng_get_view (act_engine b) ''a'' = None"
    by (simp_all add: b_def actor_create_def start_engine_def engine_new_def shard_new_def Let_def eng_get_view_def get_view_def vm_get_def vm_new_def hm_get_def hm_insert_def
      eng_should_accept_from_def ll_should_accept_from_def lifecycle_new_def)
  have "hm_get (as_peers byte_actors ''a'') (''b'') \<noteq> None" by (simp add: byte_actors_def hm_get_def)
  from actor_mutation_arrives [OF byte_codec mailbox_tell_sound mailbox_tell_truthful byte_actors_reachable ab(1) this _ a(1),
      of demo_clock "(+) 1"] byte_actors_reachable ab(2) b
  show ?thesis unfolding a_def [symmetric] b_def [symmetric] by (fastforce simp: a(2) byte_spec_def mailbox_tell_def)
qed

end
