(* ===== verification/Interceptor.thy ===== *)
theory Interceptor
  imports Complex_Main Prelude
begin

text \<open>
  \<open>dstate-integration/src/interceptor.rs\<close>: the fault injectors of the mock network. A boxed
  \<open>dyn NetworkInterceptor\<close> with its \<open>&mut self\<close> is a codatatype: applying it gives the action and
  the interceptor to use next. The built-in interceptors never change their state; \<open>boxed\<close> embeds
  them. The \<open>f64\<close> arithmetic of \<open>DropRate\<close> is exact here: converting a 64-bit integer rounds to 53
  significant bits (ties to even), \<open>u64::MAX as f64\<close> is \<open>2 ^ 64\<close>, and dividing by a power of two
  does not round, so the comparison with the rate is a comparison of rationals.
\<close>

unbundle bit_operations_syntax

datatype intercept_action =
    Deliver bytes
  | DropMsg
  | DelayMsg bytes usize
  | DeliverMany "bytes list"

record intercept_context =
  ic_current_tick :: u64
  ic_message_id :: u64
  ic_rng_seed :: u64

type_synonym intercept_fn = "node_id \<Rightarrow> node_id \<Rightarrow> bytes \<Rightarrow> intercept_context \<Rightarrow> intercept_action"

codatatype interceptor =
  Boxed (intercept: "node_id \<Rightarrow> node_id \<Rightarrow> bytes \<Rightarrow> intercept_context \<Rightarrow> intercept_action \<times> interceptor")

primcorec boxed :: "intercept_fn \<Rightarrow> interceptor" where
  "intercept (boxed f) = (\<lambda>from to bs ctx. map_prod id boxed (f from to bs ctx, f))"

subsection \<open>Deterministic random numbers\<close>

definition splitmix64 :: "u64 \<Rightarrow> u64" where
  "splitmix64 x =
     (let x = x + 0x9e3779b97f4a7c15;
          x = (x XOR drop_bit 30 x) * 0xbf58476d1ce4e5b9;
          x = (x XOR drop_bit 27 x) * 0x94d049bb133111eb
      in x XOR drop_bit 31 x)"

fun bit_length :: "nat \<Rightarrow> nat" where
  "bit_length n = (if n = 0 then 0 else Suc (bit_length (n div 2)))"

declare bit_length.simps [simp del]

text \<open>\<open>hash as f64\<close>, as the integer it denotes.\<close>

definition f64_of_u64 :: "u64 \<Rightarrow> nat" where
  "f64_of_u64 w =
     (let n = unat w; k = bit_length n - 53
      in if k = 0 then n
         else let q = n div 2 ^ k; r = n mod 2 ^ k; half = 2 ^ (k - 1)
              in (if r > half \<or> r = half \<and> odd q then q + 1 else q) * 2 ^ k)"

subsection \<open>Built-in interceptors\<close>

definition pass_through :: intercept_fn where
  "pass_through from to bs ctx = Deliver bs"

definition drop_all :: intercept_fn where
  "drop_all from to bs ctx = DropMsg"

record drop_rate =
  dr_rate :: rat
  dr_seed :: u64

datatype drop_rate_panic = RateOutOfRange

definition drop_rate_new :: "rat \<Rightarrow> u64 \<Rightarrow> drop_rate_panic + drop_rate" where
  "drop_rate_new rate seed =
     (if 0 \<le> rate \<and> rate \<le> 1 then Inr \<lparr>dr_rate = rate, dr_seed = seed\<rparr> else Inl RateOutOfRange)"

definition drop_prob :: "u64 \<Rightarrow> intercept_context \<Rightarrow> rat" where
  "drop_prob seed ctx =
     of_nat (f64_of_u64 (splitmix64 (seed XOR ic_message_id ctx XOR ic_current_tick ctx))) / 2 ^ 64"

definition drop_rate_intercept :: "drop_rate \<Rightarrow> intercept_fn" where
  "drop_rate_intercept dr from to bs ctx =
     (if drop_prob (dr_seed dr) ctx < dr_rate dr then DropMsg else Deliver bs)"

record partition =
  pt_set_a :: "node_id set"
  pt_set_b :: "node_id set"
  pt_asymmetric :: bool

definition partition_symmetric :: "node_id list \<Rightarrow> node_id list \<Rightarrow> partition" where
  "partition_symmetric a b = \<lparr>pt_set_a = set a, pt_set_b = set b, pt_asymmetric = False\<rparr>"

definition partition_asymmetric :: "node_id list \<Rightarrow> node_id list \<Rightarrow> partition" where
  "partition_asymmetric a b = \<lparr>pt_set_a = set a, pt_set_b = set b, pt_asymmetric = True\<rparr>"

definition partition_intercept :: "partition \<Rightarrow> intercept_fn" where
  "partition_intercept pt from to bs ctx =
     (let a_to_b = from \<in> pt_set_a pt \<and> to \<in> pt_set_b pt;
          b_to_a = from \<in> pt_set_b pt \<and> to \<in> pt_set_a pt
      in if a_to_b \<or> (\<not> pt_asymmetric pt \<and> b_to_a) then DropMsg else Deliver bs)"

definition delay_ticks_intercept :: "usize \<Rightarrow> intercept_fn" where
  "delay_ticks_intercept ticks from to bs ctx = DelayMsg bs ticks"

definition duplicate_all :: intercept_fn where
  "duplicate_all from to bs ctx = DeliverMany [bs, bs]"

definition corrupt_bytes_intercept :: "u64 \<Rightarrow> intercept_fn" where
  "corrupt_bytes_intercept seed from to bs ctx =
     (if bs = [] then Deliver bs
      else let hash = splitmix64 (seed XOR ic_message_id ctx);
               idx = unat hash mod length bs;
               bit = unat (drop_bit 8 hash mod 8)
           in Deliver (bs[idx := bs ! idx XOR push_bit bit 1]))"

subsection \<open>The hash is a bijection\<close>

lemma xorshift_inj:
  fixes x y :: u64
  assumes "0 < k" and "x XOR drop_bit k x = y XOR drop_bit k y"
  shows "x = y"
proof (rule bit_word_eqI)
  fix n assume "n < LENGTH(64)"
  have "bit x m = bit y m" for m
  proof (induction "64 - m" arbitrary: m rule: less_induct)
    case less
    show ?case
    proof (cases "m < 64")
      case True
      have "bit x (m + k) = bit y (m + k)" using less.hyps [of "m + k"] True assms(1) by simp
      moreover have "bit (x XOR drop_bit k x) m = bit (y XOR drop_bit k y) m" using assms(2) by simp
      ultimately show ?thesis by (auto simp: bit_xor_iff bit_drop_bit_eq add.commute)
    next
      case False
      then show ?thesis using bit_imp_le_length [of x m] bit_imp_le_length [of y m] by auto
    qed
  qed
  then show "bit x n = bit y n" .
qed

lemma mult_inj:
  fixes x y a b :: u64
  assumes "a * b = 1" and "x * a = y * a" shows "x = y"
proof -
  have "x * a * b = y * a * b" using assms(2) by simp
  with assms(1) show ?thesis by (simp add: mult.assoc)
qed

lemma splitmix64_consts:
  "(0xbf58476d1ce4e5b9 :: u64) * 0x96de1b173f119089 = 1"
  "(0x94d049bb133111eb :: u64) * 0x319642b2d24d8ec3 = 1"
  by simp_all

lemma xorshift_eq_iff: "0 < k \<Longrightarrow> (x :: u64) XOR drop_bit k x = y XOR drop_bit k y \<longleftrightarrow> x = y"
  using xorshift_inj by blast

lemma splitmix64_mult_iff:
  "(x :: u64) * 0xbf58476d1ce4e5b9 = y * 0xbf58476d1ce4e5b9 \<longleftrightarrow> x = y"
  "(x :: u64) * 0x94d049bb133111eb = y * 0x94d049bb133111eb \<longleftrightarrow> x = y"
  using mult_inj [OF splitmix64_consts(1)] mult_inj [OF splitmix64_consts(2)] by blast+

lemma splitmix64_inj: "inj splitmix64"
  by (rule injI)
    (simp only: splitmix64_def Let_def xorshift_eq_iff splitmix64_mult_iff zero_less_numeral add_right_cancel)

text \<open>
  the hash behind every random decision of the mock network is injective on 64 bits, so two messages
  with different ids never share their hash at the same tick and seed.
\<close>

theorem splitmix64_injective:
  "splitmix64 x = splitmix64 y \<longleftrightarrow> x = y"
  using splitmix64_inj by (rule inj_eq)

subsection \<open>What the interceptors do\<close>

lemma intercept_boxed [simp]: "intercept (boxed f) from to bs ctx = (f from to bs ctx, boxed f)"
  by simp

text \<open>The one bit that \<open>CorruptBytes\<close> flips.\<close>

definition corrupt_position :: "u64 \<Rightarrow> intercept_context \<Rightarrow> bytes \<Rightarrow> nat \<times> nat" where
  "corrupt_position seed ctx bs =
     (unat (splitmix64 (seed XOR ic_message_id ctx)) mod length bs,
      unat (drop_bit 8 (splitmix64 (seed XOR ic_message_id ctx)) mod 8))"

lemma flip_bit_word: "n < 8 \<Longrightarrow> bit ((w :: u8) XOR 2 ^ k) n = (bit w n \<noteq> (k = n))"
  by (auto simp: bit_xor_iff bit_exp_iff)

text \<open>
  corruption flips exactly one bit. A corrupted message that is not empty has the same length, differs
  from the original in exactly one bit (so it always differs), at a position that depends only on the
  seed, the message id and the length, and corrupting it again under the same id restores it; an empty
  message passes unchanged.
\<close>

theorem corrupt_flips_one_bit:
  "\<exists>bs'. corrupt_bytes_intercept seed from to bs ctx = Deliver bs' \<and> length bs' = length bs \<and>
     corrupt_bytes_intercept seed from to bs' ctx = Deliver bs \<and>
     (\<forall>i j. i < length bs \<longrightarrow> j < 8 \<longrightarrow>
        bit (bs' ! i) j = (bit (bs ! i) j \<noteq> ((i, j) = corrupt_position seed ctx bs))) \<and>
     (bs \<noteq> [] \<longrightarrow> fst (corrupt_position seed ctx bs) < length bs \<and> snd (corrupt_position seed ctx bs) < 8)"
proof (cases "bs = []")
  case False
  let ?h = "splitmix64 (seed XOR ic_message_id ctx)"
  define i where "i = unat ?h mod length bs"
  define k where "k = unat (drop_bit 8 ?h mod 8)"
  have pos: "corrupt_position seed ctx bs = (i, k)" by (simp add: corrupt_position_def i_def k_def)
  have i: "i < length bs" using False by (simp add: i_def)
  have k: "k < 8"
  proof -
    have "drop_bit 8 ?h mod 8 < 8" by (rule word_mod_less_divisor) simp
    then show ?thesis by (simp add: k_def word_less_nat_alt)
  qed
  have step: "corrupt_bytes_intercept seed from to cs ctx = Deliver (cs[i := cs ! i XOR push_bit k 1])"
    if "length cs = length bs" for cs
    using that False by (auto simp: corrupt_bytes_intercept_def Let_def i_def k_def)
  let ?bs' = "bs[i := bs ! i XOR push_bit k 1]"
  have "corrupt_bytes_intercept seed from to ?bs' ctx = Deliver bs"
    using step [of ?bs'] i by (simp add: xor.assoc)
  moreover have "bit (?bs' ! m) j = (bit (bs ! m) j \<noteq> ((m, j) = corrupt_position seed ctx bs))"
    if "m < length bs" "j < 8" for m j
    using that i by (cases "m = i") (auto simp: pos flip_bit_word)
  ultimately show ?thesis using step [of bs] i k pos by auto
qed (simp add: corrupt_bytes_intercept_def)

text \<open>
  a partition separates exactly what it says. The symmetric partition of two node sets drops a message
  exactly when it crosses between the sets, in either direction; the asymmetric one only from the first
  to the second; every other message passes unchanged.
\<close>

theorem partition_separates:
  "partition_intercept (partition_symmetric a b) from to bs ctx =
     (if from \<in> set a \<and> to \<in> set b \<or> from \<in> set b \<and> to \<in> set a then DropMsg else Deliver bs) \<and>
   partition_intercept (partition_asymmetric a b) from to bs ctx =
     (if from \<in> set a \<and> to \<in> set b then DropMsg else Deliver bs)"
  by (auto simp: partition_intercept_def partition_symmetric_def partition_asymmetric_def)

lemma f64_top: "f64_of_u64 (- 1) = 2 ^ 64"
proof -
  have bl: "bit_length (2 ^ k - 1) = k" for k
  proof (induction k)
    case (Suc k)
    have half: "(2 ^ Suc k - 1) div 2 = (2::nat) ^ k - 1" by (simp add: Suc_diff_le)
    have "1 \<le> (2::nat) ^ k" by simp
    then have "(2::nat) ^ Suc k - 1 \<noteq> 0" unfolding power_Suc by linarith
    then show ?case using Suc half by (subst bit_length.simps) (simp only: if_False)
  qed (simp add: bit_length.simps)
  have n: "unat (- 1 :: u64) = 2 ^ 64 - 1" by (simp add: unsigned_minus_1_eq_mask mask_eq_exp_minus_1)
  have "(2 ^ 64 - 1) div 2 ^ 11 = (2::nat) ^ 53 - 1" "(2 ^ 64 - 1) mod 2 ^ 11 = (2::nat) ^ 11 - 1" by simp_all
  then show ?thesis
    unfolding f64_of_u64_def Let_def n bl by simp
qed

text \<open>
  C39: a drop rate of one does not drop everything. The hash converted to floating point can round up to
  \<open>2 ^ 64\<close>, so its quotient can be exactly one, which is not below a rate of one: for every seed and tick
  there is a message id whose message is delivered all the same.
\<close>

theorem drop_rate_one_delivers:
  "\<exists>m. \<forall>from to bs r. drop_rate_intercept \<lparr>dr_rate = 1, dr_seed = seed\<rparr> from to bs
     \<lparr>ic_current_tick = t, ic_message_id = m, ic_rng_seed = r\<rparr> = Deliver bs"
proof -
  have "surj splitmix64"
    using splitmix64_inj by (rule finite_UNIV_inj_surj [OF finite])
  then obtain x where "splitmix64 x = - 1" by (metis surjD)
  then have "drop_prob seed \<lparr>ic_current_tick = t, ic_message_id = seed XOR t XOR x, ic_rng_seed = r\<rparr> = 1" for r
    by (simp add: drop_prob_def f64_top xor.assoc xor.commute xor.left_commute)
  then show ?thesis
    by (intro exI [of _ "seed XOR t XOR x"]) (simp add: drop_rate_intercept_def)
qed

theorem corrupt_flips_one_bit_witness:
  "\<exists>bs'. corrupt_bytes_intercept 7 ''a'' ''b'' [1, 2, 3] \<lparr>ic_current_tick = 0, ic_message_id = 5, ic_rng_seed = 0\<rparr> =
     Deliver bs' \<and> length bs' = 3 \<and>
   corrupt_bytes_intercept 7 ''a'' ''b'' bs' \<lparr>ic_current_tick = 0, ic_message_id = 5, ic_rng_seed = 0\<rparr> =
     Deliver [1, 2, 3]"
  using corrupt_flips_one_bit [of 7 "''a''" "''b''" "[1, 2, 3]"
      "\<lparr>ic_current_tick = 0, ic_message_id = 5, ic_rng_seed = 0\<rparr>"] by auto

end
