(* ===== verification/Transport.thy ===== *)
theory Transport
  imports Engine Interceptor "HOL-Library.Multiset"
begin

text \<open>
  \<open>dstate-integration/src/transport.rs\<close>: the byte-level mock transport. bincode on \<open>WireMessage\<close> is the
  parameter \<open>wire_codec\<close>; a message in flight is its bytes, its ends and the tick at which it is due.
\<close>

record wire_codec =
  wc_serialize :: "wire_message \<Rightarrow> bytes"
  wc_deserialize :: "bytes \<Rightarrow> string + wire_message"

record in_flight_message =
  fm_from :: node_id
  fm_to :: node_id
  fm_data :: bytes
  fm_deliver_at_tick :: u64

record mock_transport =
  mt_in_flight :: "in_flight_message list"
  mt_interceptors :: "interceptor list"
  mt_message_counter :: u64
  mt_current_tick :: u64
  mt_rng_seed :: u64

record delivered_message =
  dm_from :: node_id
  dm_to :: node_id
  dm_message :: wire_message

record corrupted_message =
  cm_from :: node_id
  cm_to :: node_id
  cm_error :: string

record delivery_result =
  res_delivered :: "delivered_message list"
  res_corrupted :: "corrupted_message list"

definition transport_new :: "u64 \<Rightarrow> mock_transport" where
  "transport_new rng_seed = \<lparr>mt_in_flight = [], mt_interceptors = [], mt_message_counter = 0,
     mt_current_tick = 0, mt_rng_seed = rng_seed\<rparr>"

subsection \<open>The interceptor pipeline\<close>

text \<open>One interceptor over the pending copies: its next state, the copies it passes on, the copies it
  finalizes by a delay.\<close>

fun run_pending ::
    "node_id \<Rightarrow> node_id \<Rightarrow> intercept_context \<Rightarrow> interceptor \<Rightarrow> bytes list \<Rightarrow>
     interceptor \<times> bytes list \<times> intercept_action list" where
  "run_pending from to ctx i [] = (i, [], [])"
| "run_pending from to ctx i (bs # pending) =
     (let (action, i) = intercept i from to bs ctx;
          (i, next_pending, finalized) = run_pending from to ctx i pending
      in case action of
           Deliver data \<Rightarrow> (i, data # next_pending, finalized)
         | DropMsg \<Rightarrow> (i, next_pending, finalized)
         | DelayMsg data ticks \<Rightarrow> (i, next_pending, DelayMsg data ticks # finalized)
         | DeliverMany copies \<Rightarrow> (i, copies @ next_pending, finalized))"

fun run_chain ::
    "node_id \<Rightarrow> node_id \<Rightarrow> intercept_context \<Rightarrow> interceptor list \<Rightarrow> bytes list \<Rightarrow>
     interceptor list \<times> bytes list \<times> intercept_action list" where
  "run_chain from to ctx [] pending = ([], pending, [])"
| "run_chain from to ctx (i # chain) pending =
     (let (i, pending, finalized) = run_pending from to ctx i pending;
          (chain, pending, more_finalized) = run_chain from to ctx chain pending
      in (i # chain, pending, finalized @ more_finalized))"

definition apply_interceptors ::
    "node_id \<Rightarrow> node_id \<Rightarrow> bytes \<Rightarrow> intercept_context \<Rightarrow> mock_transport \<Rightarrow>
     mock_transport \<times> intercept_action list" where
  "apply_interceptors from to bs ctx t =
     (if mt_interceptors t = [] then (t, [Deliver bs])
      else let (chain, pending, finalized) = run_chain from to ctx (mt_interceptors t) [bs]
           in (t\<lparr>mt_interceptors := chain\<rparr>, finalized @ map Deliver pending))"

subsection \<open>Sending and delivering\<close>

definition push_in_flight :: "node_id \<Rightarrow> node_id \<Rightarrow> bytes \<Rightarrow> u64 \<Rightarrow> mock_transport \<Rightarrow> mock_transport" where
  "push_in_flight from to data tick t = t\<lparr>mt_in_flight := mt_in_flight t @
     [\<lparr>fm_from = from, fm_to = to, fm_data = data, fm_deliver_at_tick = tick\<rparr>]\<rparr>"

fun execute_action :: "node_id \<Rightarrow> node_id \<Rightarrow> intercept_action \<Rightarrow> mock_transport \<Rightarrow> mock_transport" where
  "execute_action from to (Deliver data) t = push_in_flight from to data (mt_current_tick t + 1) t"
| "execute_action from to DropMsg t = t"
| "execute_action from to (DelayMsg data ticks) t =
     push_in_flight from to data (mt_current_tick t + 1 + ticks) t"
| "execute_action from to (DeliverMany copies) t =
     fold (\<lambda>data t. push_in_flight from to data (mt_current_tick t + 1) t) copies t"

definition send_bytes :: "node_id \<Rightarrow> node_id \<Rightarrow> bytes \<Rightarrow> mock_transport \<Rightarrow> mock_transport" where
  "send_bytes from to bs t =
     (let msg_id = mt_message_counter t;
          t = t\<lparr>mt_message_counter := mt_message_counter t + 1\<rparr>;
          context = \<lparr>ic_current_tick = mt_current_tick t, ic_message_id = msg_id, ic_rng_seed = mt_rng_seed t\<rparr>;
          (t, actions) = apply_interceptors from to bs context t
      in fold (execute_action from to) actions t)"

definition transport_send ::
    "wire_codec \<Rightarrow> node_id \<Rightarrow> node_id \<Rightarrow> wire_message \<Rightarrow> mock_transport \<Rightarrow> mock_transport" where
  "transport_send cd from to msg t = send_bytes from to (wc_serialize cd msg) t"

definition transport_broadcast ::
    "wire_codec \<Rightarrow> node_id \<Rightarrow> wire_message \<Rightarrow> node_id list \<Rightarrow> mock_transport \<Rightarrow> mock_transport" where
  "transport_broadcast cd from msg all_nodes t =
     (let bs = wc_serialize cd msg
      in fold (\<lambda>to t. if to \<noteq> from then send_bytes from to bs t else t) all_nodes t)"

text \<open>The loop of \<open>deliver_due\<close> over the queue: what is delivered, what is corrupted, what still waits.\<close>

fun drain_due ::
    "wire_codec \<Rightarrow> u64 \<Rightarrow> in_flight_message list \<Rightarrow>
     delivered_message list \<times> corrupted_message list \<times> in_flight_message list" where
  "drain_due cd tick [] = ([], [], [])"
| "drain_due cd tick (msg # queue) =
     (let (delivered, corrupted, waiting) = drain_due cd tick queue
      in if fm_deliver_at_tick msg \<le> tick
         then (case wc_deserialize cd (fm_data msg) of
                 Inr wire_msg \<Rightarrow>
                   (\<lparr>dm_from = fm_from msg, dm_to = fm_to msg, dm_message = wire_msg\<rparr> # delivered,
                    corrupted, waiting)
               | Inl e \<Rightarrow>
                   (delivered, \<lparr>cm_from = fm_from msg, cm_to = fm_to msg, cm_error = e\<rparr> # corrupted,
                    waiting))
         else (delivered, corrupted, msg # waiting))"

definition deliver_due :: "wire_codec \<Rightarrow> mock_transport \<Rightarrow> mock_transport \<times> delivery_result" where
  "deliver_due cd t =
     (let (delivered, corrupted, waiting) = drain_due cd (mt_current_tick t) (mt_in_flight t)
      in (t\<lparr>mt_in_flight := waiting\<rparr>, \<lparr>res_delivered = delivered, res_corrupted = corrupted\<rparr>))"

definition advance_tick :: "mock_transport \<Rightarrow> mock_transport" where
  "advance_tick t = t\<lparr>mt_current_tick := mt_current_tick t + 1\<rparr>"

definition in_flight_count :: "mock_transport \<Rightarrow> nat" where
  "in_flight_count t = length (mt_in_flight t)"

definition add_interceptor :: "interceptor \<Rightarrow> mock_transport \<Rightarrow> mock_transport" where
  "add_interceptor i t = t\<lparr>mt_interceptors := mt_interceptors t @ [i]\<rparr>"

definition clear_interceptors :: "mock_transport \<Rightarrow> mock_transport" where
  "clear_interceptors t = t\<lparr>mt_interceptors := []\<rparr>"

definition drop_in_flight_for :: "node_id \<Rightarrow> mock_transport \<Rightarrow> mock_transport" where
  "drop_in_flight_for node t =
     t\<lparr>mt_in_flight := filter (\<lambda>m. fm_from m \<noteq> node \<and> fm_to m \<noteq> node) (mt_in_flight t)\<rparr>"

subsection \<open>Delivery\<close>

definition due :: "mock_transport \<Rightarrow> in_flight_message list" where
  "due t = filter (\<lambda>m. fm_deliver_at_tick m \<le> mt_current_tick t) (mt_in_flight t)"

text \<open>What becomes of a message that is due.\<close>

definition due_outcome :: "wire_codec \<Rightarrow> in_flight_message \<Rightarrow> corrupted_message + delivered_message" where
  "due_outcome cd m = (case wc_deserialize cd (fm_data m) of
     Inr w \<Rightarrow> Inr \<lparr>dm_from = fm_from m, dm_to = fm_to m, dm_message = w\<rparr>
   | Inl e \<Rightarrow> Inl \<lparr>cm_from = fm_from m, cm_to = fm_to m, cm_error = e\<rparr>)"

definition rights :: "('a + 'b) list \<Rightarrow> 'b list" where
  "rights xs = map projr (filter (\<lambda>x. \<not> isl x) xs)"

definition lefts :: "('a + 'b) list \<Rightarrow> 'a list" where
  "lefts xs = map projl (filter isl xs)"

lemma lefts_rights_simps [simp]:
  "rights [] = []" "lefts [] = []" "rights (Inr b # xs) = b # rights xs" "rights (Inl a # xs) = rights xs"
  "lefts (Inl a # xs) = a # lefts xs" "lefts (Inr b # xs) = lefts xs"
  "rights (xs @ ys) = rights xs @ rights ys" "lefts (xs @ ys) = lefts xs @ lefts ys"
  by (simp_all add: rights_def lefts_def)

lemma mset_lefts_rights: "image_mset Inr (mset (rights xs)) + image_mset Inl (mset (lefts xs)) = mset xs"
proof (induction xs)
  case (Cons x xs)
  then show ?case by (cases x) auto
qed simp

lemma set_rights: "set (rights xs) = {b. Inr b \<in> set xs}"
proof (induction xs)
  case (Cons x xs)
  then show ?case by (cases x) auto
qed simp

lemma drain_due_eq:
  "drain_due cd tick q =
     (let ready = map (due_outcome cd) (filter (\<lambda>m. fm_deliver_at_tick m \<le> tick) q)
      in (rights ready, lefts ready, filter (\<lambda>m. \<not> fm_deliver_at_tick m \<le> tick) q))"
  by (induction q) (auto simp: Let_def due_outcome_def split: sum.splits)

lemma deliver_due_eq:
  "deliver_due cd t =
     (t\<lparr>mt_in_flight := filter (\<lambda>m. \<not> fm_deliver_at_tick m \<le> mt_current_tick t) (mt_in_flight t)\<rparr>,
      \<lparr>res_delivered = rights (map (due_outcome cd) (due t)), res_corrupted = lefts (map (due_outcome cd) (due t))\<rparr>)"
  by (simp add: deliver_due_def drain_due_eq due_def Let_def)

text \<open>Sending without interceptors queues the message for the next tick.\<close>

lemma send_clean:
  assumes "mt_interceptors t = []"
  shows "send_bytes from to bs t = t\<lparr>mt_in_flight := mt_in_flight t @
      [\<lparr>fm_from = from, fm_to = to, fm_data = bs, fm_deliver_at_tick = mt_current_tick t + 1\<rparr>],
    mt_message_counter := mt_message_counter t + 1\<rparr>"
  using assms by (simp add: send_bytes_def apply_interceptors_def push_in_flight_def Let_def)

lemma sends_clean:
  assumes "mt_interceptors t = []"
  shows "fold (\<lambda>d. transport_send cd (dm_from d) (dm_to d) (dm_message d)) ds t = t\<lparr>
    mt_in_flight := mt_in_flight t @ map (\<lambda>d. \<lparr>fm_from = dm_from d, fm_to = dm_to d, fm_data = wc_serialize cd (dm_message d),
      fm_deliver_at_tick = mt_current_tick t + 1\<rparr>) ds,
    mt_message_counter := mt_message_counter t + of_nat (length ds)\<rparr>"
  using assms
  by (induction ds arbitrary: t) (simp_all add: transport_send_def send_clean algebra_simps)

lemma results_sent:
  assumes "list_all (\<lambda>d. wc_deserialize cd (wc_serialize cd (dm_message d)) = Inr (dm_message d)) ds"
  shows "rights (map (\<lambda>d. due_outcome cd \<lparr>fm_from = dm_from d, fm_to = dm_to d, fm_data = wc_serialize cd (dm_message d),
      fm_deliver_at_tick = k\<rparr>) ds) = ds"
    and "lefts (map (\<lambda>d. due_outcome cd \<lparr>fm_from = dm_from d, fm_to = dm_to d, fm_data = wc_serialize cd (dm_message d),
      fm_deliver_at_tick = k\<rparr>) ds) = []"
  using assms by (induction ds) (simp_all add: due_outcome_def)

text \<open>
  C34: nothing is lost, repeated or invented on delivery. Delivering turns the messages in flight that are due, each exactly once (the
  results are the same multiset), into a delivered message with the sender, the destination and the decoded content of that message, or into a
  report of a corrupted one with its sender, its destination and the error of the decoder; both lists are in the order of the queue. All
  other messages stay in flight in their order, and nothing else of the transport changes. Any messages that are sent
  through no interceptors, and that the codec returns as they were, are delivered at the next tick, all of them, in the order in which they were
  sent and after whatever else is due; they change nothing about the rest.
\<close>

theorem delivery_is_exact:
  assumes "list_all (\<lambda>d. wc_deserialize cd (wc_serialize cd (dm_message d)) = Inr (dm_message d)) ds"
    and "deliver_due cd t = (t', r)"
  shows "image_mset Inr (mset (res_delivered r)) + image_mset Inl (mset (res_corrupted r)) = image_mset (\<lambda>m.
        case wc_deserialize cd (fm_data m) of
          Inr w \<Rightarrow> Inr \<lparr>dm_from = fm_from m, dm_to = fm_to m, dm_message = w\<rparr>
        | Inl e \<Rightarrow> Inl \<lparr>cm_from = fm_from m, cm_to = fm_to m, cm_error = e\<rparr>)
      (filter_mset (\<lambda>m. fm_deliver_at_tick m \<le> mt_current_tick t) (mset (mt_in_flight t))) \<and>
    res_delivered r = rights (map (due_outcome cd) (due t)) \<and> res_corrupted r = lefts (map (due_outcome cd) (due t)) \<and>
    t' = t\<lparr>mt_in_flight := filter (\<lambda>m. \<not> fm_deliver_at_tick m \<le> mt_current_tick t) (mt_in_flight t)\<rparr> \<and>
    (mt_interceptors t \<noteq> [] \<or>
      (let r0 = snd (deliver_due cd (advance_tick t)); t0 = fst (deliver_due cd (advance_tick t)) in
        \<exists>w. deliver_due cd (advance_tick (fold (\<lambda>d. transport_send cd (dm_from d) (dm_to d) (dm_message d)) ds t)) =
          (w, \<lparr>res_delivered = res_delivered r0 @ ds, res_corrupted = res_corrupted r0\<rparr>) \<and> mt_in_flight w = mt_in_flight t0))"
proof -
  have r: "res_delivered r = rights (map (due_outcome cd) (due t))" "res_corrupted r = lefts (map (due_outcome cd) (due t))"
    and t': "t' = t\<lparr>mt_in_flight := filter (\<lambda>m. \<not> fm_deliver_at_tick m \<le> mt_current_tick t) (mt_in_flight t)\<rparr>"
    using assms(2) by (auto simp: deliver_due_eq)
  have "image_mset Inr (mset (res_delivered r)) + image_mset Inl (mset (res_corrupted r)) =
      image_mset (due_outcome cd) (filter_mset (\<lambda>m. fm_deliver_at_tick m \<le> mt_current_tick t) (mset (mt_in_flight t)))"
    unfolding r mset_lefts_rights by (simp add: due_def)
  moreover have "mt_interceptors t = [] \<Longrightarrow>
      (let r0 = snd (deliver_due cd (advance_tick t)); t0 = fst (deliver_due cd (advance_tick t)) in
        \<exists>w. deliver_due cd (advance_tick (fold (\<lambda>d. transport_send cd (dm_from d) (dm_to d) (dm_message d)) ds t)) =
          (w, \<lparr>res_delivered = res_delivered r0 @ ds, res_corrupted = res_corrupted r0\<rparr>) \<and> mt_in_flight w = mt_in_flight t0)"
    using results_sent [OF assms(1)]
    by (simp add: sends_clean deliver_due_eq due_def advance_tick_def comp_def filter_map)
  ultimately show ?thesis using r t' by (auto simp: due_outcome_def [abs_def])
qed

definition demo_wire :: wire_message where
  "demo_wire = Sync (RequestSnapshot ''s'' ''a'')"

definition demo_codec :: wire_codec where
  "demo_codec = \<lparr>wc_serialize = (\<lambda>m. [1]),
     wc_deserialize = (\<lambda>bs. if bs = [1] then Inr demo_wire else Inl ''invalid'')\<rparr>"

theorem delivery_is_exact_witness:
  "res_delivered (snd (deliver_due demo_codec (advance_tick (transport_send demo_codec ''a'' ''c'' demo_wire
     (transport_send demo_codec ''a'' ''b'' demo_wire (transport_new 42)))))) =
     [\<lparr>dm_from = ''a'', dm_to = ''b'', dm_message = demo_wire\<rparr>, \<lparr>dm_from = ''a'', dm_to = ''c'', dm_message = demo_wire\<rparr>]"
proof -
  let ?ds = "[\<lparr>dm_from = ''a'', dm_to = ''b'', dm_message = demo_wire\<rparr>, \<lparr>dm_from = ''a'', dm_to = ''c'', dm_message = demo_wire\<rparr>]"
  have "list_all (\<lambda>d. wc_deserialize demo_codec (wc_serialize demo_codec (dm_message d)) = Inr (dm_message d)) ?ds"
    by (simp add: demo_codec_def)
  note t = delivery_is_exact [OF this surjective_pairing, of "transport_new 42"]
  have "res_delivered (snd (deliver_due demo_codec (advance_tick (transport_new 42)))) = []"
    by (simp add: deliver_due_def advance_tick_def transport_new_def)
  with t show ?thesis by (auto simp: transport_new_def Let_def)
qed

subsection \<open>Chains of interceptors\<close>

text \<open>The pipeline over a chain of built-in interceptors, as a function on the pending copies.\<close>

lemma run_pending_boxed_fst [simp]: "fst (run_pending from to ctx (boxed f) bss) = boxed f"
  by (induction bss) (auto simp: Let_def case_prod_unfold split: intercept_action.splits)

lemma run_pending_drop:
  "(\<And>bs. f from to bs ctx = DropMsg) \<Longrightarrow> run_pending from to ctx (boxed f) bss = (boxed f, [], [])"
  by (induction bss) (simp_all add: Let_def)

lemma run_pending_no_delay:
  "(\<And>bs d k. f from to bs ctx \<noteq> DelayMsg d k) \<Longrightarrow> snd (snd (run_pending from to ctx (boxed f) bss)) = []"
  by (induction bss) (auto simp: Let_def case_prod_unfold split: intercept_action.splits)

lemma run_chain_empty:
  "run_chain from to ctx chain [] = (chain, [], [])"
  by (induction chain) (simp_all add: Let_def)

lemma run_chain_drops:
  assumes "\<And>bs. f from to bs ctx = DropMsg"
    and "\<And>g bs d k. g \<in> set fs \<Longrightarrow> g from to bs ctx \<noteq> DelayMsg d k"
  shows "snd (run_chain from to ctx (map boxed fs @ boxed f # chain) bss) = ([], [])"
  using assms(2)
proof (induction fs arbitrary: bss)
  case Nil
  then show ?case by (simp add: run_pending_drop [of f, OF assms(1)] run_chain_empty Let_def)
next
  case (Cons g fs)
  then have "snd (snd (run_pending from to ctx (boxed g) bss)) = []"
    by (intro run_pending_no_delay) auto
  with Cons show ?case
    by (auto simp: Let_def case_prod_unfold prod_eq_iff)
qed

text \<open>
  C35: a partition isolates. When a partition stands in the pipeline and no interceptor before it delays
  messages, sending across the partition puts nothing in flight, whatever the other interceptors do.
\<close>

theorem partition_isolates:
  assumes "mt_interceptors t = map boxed fs @ boxed (partition_intercept pt) # chain"
    and "\<And>f bs ctx d k. f \<in> set fs \<Longrightarrow> f from to bs ctx \<noteq> DelayMsg d k"
    and "from \<in> pt_set_a pt \<and> to \<in> pt_set_b pt \<or> \<not> pt_asymmetric pt \<and> from \<in> pt_set_b pt \<and> to \<in> pt_set_a pt"
  shows "mt_in_flight (transport_send cd from to msg t) = mt_in_flight t"
proof -
  have drop: "partition_intercept pt from to bs ctx = DropMsg" for bs ctx
    using assms(3) by (auto simp: partition_intercept_def)
  have "snd (run_chain from to ctx (mt_interceptors t) [bs]) = ([], [])" for ctx bs
    unfolding assms(1) by (rule run_chain_drops) (use drop assms(2) in auto)
  then show ?thesis
    using assms(1)
    by (auto simp: transport_send_def send_bytes_def apply_interceptors_def Let_def case_prod_unfold)
qed

theorem partition_isolates_witness:
  "mt_in_flight (transport_send demo_codec ''a'' ''b'' (Feed \<lparr>bf_source_node = ''a'', bf_notifications = []\<rparr>)
     (add_interceptor (boxed (partition_intercept (partition_symmetric [''a''] [''b''])))
       (add_interceptor (boxed duplicate_all) (transport_new 42)))) = []"
  by (subst partition_isolates [where fs = "[duplicate_all]" and chain = "[]"])
    (auto simp: add_interceptor_def transport_new_def duplicate_all_def partition_symmetric_def)

text \<open>
  A delay finalizes. A delay at the head of the pipeline queues the message unchanged for one tick
  more than the delay, and no later interceptor can drop, duplicate or corrupt it.
\<close>

theorem delay_skips_the_rest:
  assumes "mt_interceptors t = boxed (delay_ticks_intercept k) # chain"
  shows "mt_in_flight (transport_send cd from to msg t) = mt_in_flight t @
    [\<lparr>fm_from = from, fm_to = to, fm_data = wc_serialize cd msg,
      fm_deliver_at_tick = mt_current_tick t + 1 + k\<rparr>]"
  using assms
  by (simp add: transport_send_def send_bytes_def apply_interceptors_def delay_ticks_intercept_def
      run_chain_empty push_in_flight_def Let_def)

theorem delay_skips_the_rest_witness:
  "mt_in_flight (transport_send demo_codec ''a'' ''b'' demo_wire
       (add_interceptor (boxed drop_all) (add_interceptor (boxed (delay_ticks_intercept 3)) (transport_new 42)))) =
     [\<lparr>fm_from = ''a'', fm_to = ''b'', fm_data = [1], fm_deliver_at_tick = 4\<rparr>]"
  by (subst delay_skips_the_rest [where k = 3 and chain = "[boxed drop_all]"])
    (simp_all add: add_interceptor_def transport_new_def demo_codec_def)

end
