(* ===== verification/Test_States.thy ===== *)
theory Test_States
  imports Replication
begin

text \<open>
  The trait \<open>DeltaDistributedState\<close> of \<open>traits/state.rs\<close> as an interface, and the two state types of
  \<open>test_support/test_state.rs\<close> that every engine and cluster test of the repository replicates.
  \<open>bincode\<close> is a parameter: a pair of functions per serialized type. The private \<open>f64\<close> accumulator
  never reaches a view, so its type and its addition are parameters too.
\<close>

subsection \<open>bincode\<close>

record 'a bincode =
  bc_serialize :: "'a \<Rightarrow> bytes"
  bc_deserialize :: "bytes \<Rightarrow> string + 'a"

definition bincode_ok :: "'a bincode \<Rightarrow> bool" where
  "bincode_ok bc \<longleftrightarrow> (\<forall>x. bc_deserialize bc (bc_serialize bc x) = Inr x)"

text \<open>The shape of every \<open>deserialize\<close> of the file: a version check, then bincode.\<close>

definition versioned_deserialize :: "u32 \<Rightarrow> 'a bincode \<Rightarrow> bytes \<Rightarrow> u32 \<Rightarrow> deserialize_error + 'a" where
  "versioned_deserialize expected bc bs version =
     (if version \<noteq> expected then Inl (unknown_version version)
      else case bc_deserialize bc bs of Inr x \<Rightarrow> Inr x | Inl e \<Rightarrow> Inl (Malformed e))"

subsection \<open>TestState\<close>

record test_state =
  ts_counter :: u64
  ts_label :: string

definition test_state_default :: test_state where
  "test_state_default = \<lparr>ts_counter = 0, ts_label = ''''\<rparr>"

definition test_state_name :: string where
  "test_state_name = ''test_state''"

definition test_state_wire_version :: u32 where
  "test_state_wire_version = 1"

definition test_state_serialize :: "test_state bincode \<Rightarrow> test_state \<Rightarrow> bytes" where
  "test_state_serialize bc s = bc_serialize bc s"

definition test_state_deserialize ::
    "test_state bincode \<Rightarrow> bytes \<Rightarrow> u32 \<Rightarrow> deserialize_error + test_state" where
  "test_state_deserialize bc bs wire_version = versioned_deserialize test_state_wire_version bc bs wire_version"

text \<open>The default \<open>migrate_state\<close> of both traits.\<close>

definition default_migrate_state :: "bytes \<Rightarrow> u32 \<Rightarrow> deserialize_error + 's" where
  "default_migrate_state bs from_version = Inl (unknown_version from_version)"

subsection \<open>TestDeltaState\<close>

record 'f test_delta_inner =
  td_counter :: u64
  td_label :: string
  td_accumulator :: 'f

record test_delta_view =
  tv_counter :: u64
  tv_label :: string

record test_delta_view_delta =
  tvd_counter_delta :: i64
  tvd_new_label :: "string option"

record 'f test_delta_change =
  tdc_counter_delta :: i64
  tdc_new_label :: "string option"
  tdc_accumulator_delta :: 'f

definition test_delta_default :: "'f \<Rightarrow> 'f test_delta_inner" where
  "test_delta_default zero_f64 = \<lparr>td_counter = 0, td_label = '''', td_accumulator = zero_f64\<rparr>"

definition test_delta_project_view :: "'f test_delta_inner \<Rightarrow> test_delta_view" where
  "test_delta_project_view state = \<lparr>tv_counter = td_counter state, tv_label = td_label state\<rparr>"

definition test_delta_project_delta :: "'f test_delta_change \<Rightarrow> test_delta_view_delta" where
  "test_delta_project_delta change =
     \<lparr>tvd_counter_delta = tdc_counter_delta change, tvd_new_label = tdc_new_label change\<rparr>"

definition test_delta_apply_delta :: "test_delta_view \<Rightarrow> test_delta_view_delta \<Rightarrow> test_delta_view" where
  "test_delta_apply_delta view delta =
     \<lparr>tv_counter = tv_counter view + tvd_counter_delta delta,
      tv_label = (case tvd_new_label delta of Some l \<Rightarrow> l | None \<Rightarrow> tv_label view)\<rparr>"

definition test_delta_sync_urgency ::
    "test_delta_view \<Rightarrow> test_delta_view \<Rightarrow> 'f test_delta_change \<Rightarrow> sync_urgency" where
  "test_delta_sync_urgency old_view new_view change = DefaultUrgency"

definition test_delta_wire_version :: u32 where
  "test_delta_wire_version = 1"

definition test_delta_storage_version :: u32 where
  "test_delta_storage_version = 1"

definition test_delta_deserialize_view ::
    "test_delta_view bincode \<Rightarrow> bytes \<Rightarrow> u32 \<Rightarrow> deserialize_error + test_delta_view" where
  "test_delta_deserialize_view bc bs v = versioned_deserialize test_delta_wire_version bc bs v"

definition test_delta_deserialize_delta ::
    "test_delta_view_delta bincode \<Rightarrow> bytes \<Rightarrow> u32 \<Rightarrow> deserialize_error + test_delta_view_delta" where
  "test_delta_deserialize_delta bc bs v = versioned_deserialize test_delta_wire_version bc bs v"

definition test_delta_deserialize_state ::
    "'f test_delta_inner bincode \<Rightarrow> bytes \<Rightarrow> u32 \<Rightarrow> deserialize_error + 'f test_delta_inner" where
  "test_delta_deserialize_state bc bs v = versioned_deserialize test_delta_storage_version bc bs v"

text \<open>The inbound delta applier the tests hand to the engine.\<close>

definition test_delta_applier ::
    "test_delta_view_delta bincode \<Rightarrow> test_delta_view inbound_delta_applier" where
  "test_delta_applier bc bs version current_view =
     (case test_delta_deserialize_delta bc bs version of
        Inl err \<Rightarrow> Inl err
      | Inr delta \<Rightarrow> Inr (test_delta_apply_delta current_view delta))"

text \<open>A mutation closure of the tests: apply a change and return it.\<close>

definition test_delta_mutate ::
    "('f \<Rightarrow> 'f \<Rightarrow> 'f) \<Rightarrow> 'f test_delta_change \<Rightarrow> 'f test_delta_inner \<Rightarrow>
     'f test_delta_inner \<times> 'f test_delta_change" where
  "test_delta_mutate add_f64 change s =
     (\<lparr>td_counter = td_counter s + tdc_counter_delta change,
       td_label = (case tdc_new_label change of Some l \<Rightarrow> l | None \<Rightarrow> td_label s),
       td_accumulator = add_f64 (td_accumulator s) (tdc_accumulator_delta change)\<rparr>, change)"

definition test_delta_spec ::
    "test_delta_view bincode \<Rightarrow> test_delta_view_delta bincode \<Rightarrow> state_config \<Rightarrow>
     ('f test_delta_inner, test_delta_view, 'f test_delta_change, test_delta_view_delta) replica_spec" where
  "test_delta_spec bcv bcd cfg = \<lparr>rs_name = ''test_delta_state'', rs_wire = test_delta_wire_version,
     rs_config = cfg, rs_project = test_delta_project_view, rs_serialize = bc_serialize bcv,
     rs_deserialize = test_delta_deserialize_view bcv, rs_applier = Some (test_delta_applier bcd),
     rs_project_delta = test_delta_project_delta, rs_serialize_delta = bc_serialize bcd\<rparr>"

subsection \<open>The interface of a delta state\<close>

text \<open>
  The projections of a \<open>DeltaDistributedState\<close> with the law that makes deltas replace snapshots:
  projecting a changed state is applying the projected change. Deltas then compose, whatever the
  private part of the state does.
\<close>

locale delta_distributed_state =
  fixes project_view :: "'s \<Rightarrow> 'v"
    and project_delta :: "'dc \<Rightarrow> 'vd"
    and apply_delta :: "'v \<Rightarrow> 'vd \<Rightarrow> 'v"
    and change_state :: "'dc \<Rightarrow> 's \<Rightarrow> 's"
  assumes delta_law: "project_view (change_state c s) = apply_delta (project_view s) (project_delta c)"
begin

lemma replay: "project_view (fold change_state cs s) = foldl apply_delta (project_view s) (map project_delta cs)"
  by (induction cs arbitrary: s) (simp_all add: delta_law)

end

interpretation tds: delta_distributed_state test_delta_project_view test_delta_project_delta
    test_delta_apply_delta "\<lambda>c s. fst (test_delta_mutate add_f64 c s)" for add_f64
  by unfold_locales (auto simp: test_delta_project_view_def test_delta_mutate_def
      test_delta_apply_delta_def test_delta_project_delta_def split: option.splits)

subsection \<open>Properties\<close>

lemma versioned_roundtrip:
  "bincode_ok bc \<Longrightarrow> versioned_deserialize v bc (bc_serialize bc x) v = Inr x"
  by (simp add: versioned_deserialize_def bincode_ok_def)

text \<open>
  replaying deltas is replaying mutations. For any sequence of changes to a \<open>TestDeltaState\<close>, the
  view obtained by applying the projected deltas one after the other to the first view is the
  projection of the final state; counters wrap at 64 bits and the private accumulator plays no part.
\<close>

theorem test_delta_replay:
  "test_delta_project_view (fold (\<lambda>c s. fst (test_delta_mutate add_f64 c s)) cs s) =
     foldl test_delta_apply_delta (test_delta_project_view s) (map test_delta_project_delta cs)"
  by (rule tds.replay)

text \<open>
  the versioned codec of the test states. On the expected version, deserializing a serialized value
  gives it back; on any other version the result is \<open>UnknownVersion\<close> of that version, whatever the
  bytes; and undecodable bytes of the right version are \<open>Malformed\<close> with the decoder's message.
\<close>

theorem versioned_codec:
  assumes "bincode_ok bc"
  shows "test_state_deserialize bc (test_state_serialize bc x) v =
      (if v = test_state_wire_version then Inr x else Inl (UnknownVersion v)) \<and>
    (bc_deserialize bc bs = Inl msg \<longrightarrow>
      test_state_deserialize bc bs test_state_wire_version = Inl (Malformed msg))"
  using versioned_roundtrip [OF assms]
  by (simp add: test_state_deserialize_def test_state_serialize_def)
    (simp add: versioned_deserialize_def unknown_version_def)

text \<open>A bincode that can exist: the counter, then the label, 8 bits per byte.\<close>

definition label_bytes :: "string \<Rightarrow> bytes" where
  "label_bytes l = map of_char l"

definition bytes_label :: "bytes \<Rightarrow> string" where
  "bytes_label bs = map (\<lambda>b. char_of (unat b)) bs"

lemma bytes_label_roundtrip: "bytes_label (label_bytes l) = l"
proof -
  have "char_of (unat (of_char c :: u8)) = c" for c
  proof -
    have "unat (of_nat (of_char c) :: u8) = (of_char c :: nat) mod 256" by (simp add: unat_of_nat)
    also have "\<dots> = of_char c" by (rule of_char_mod_256)
    finally show ?thesis by (simp add: of_nat_of_char)
  qed
  then show ?thesis by (simp add: bytes_label_def label_bytes_def comp_def map_idI)
qed

fun nat_bytes :: "nat \<Rightarrow> nat \<Rightarrow> bytes" where
  "nat_bytes 0 n = []"
| "nat_bytes (Suc k) n = of_nat (n mod 256) # nat_bytes k (n div 256)"

fun bytes_nat :: "bytes \<Rightarrow> nat" where
  "bytes_nat [] = 0"
| "bytes_nat (b # bs) = unat b + 256 * bytes_nat bs"

lemma nat_bytes_roundtrip: "n < 256 ^ k \<Longrightarrow> bytes_nat (nat_bytes k n) = n"
proof (induction k arbitrary: n)
  case (Suc k)
  then have "bytes_nat (nat_bytes k (n div 256)) = n div 256"
    by (intro Suc.IH) (simp add: less_mult_imp_div_less mult.commute)
  then show ?case by (simp add: unat_of_nat)
qed simp

lemma length_nat_bytes [simp]: "length (nat_bytes k n) = k"
  by (induction k arbitrary: n) simp_all

definition le_serialize :: "test_state \<Rightarrow> bytes" where
  "le_serialize s = nat_bytes 8 (unat (ts_counter s)) @ label_bytes (ts_label s)"

definition le_deserialize :: "bytes \<Rightarrow> string + test_state" where
  "le_deserialize bs = (if length bs < 8 then Inl ''unexpected end of file''
     else Inr \<lparr>ts_counter = of_nat (bytes_nat (take 8 bs)), ts_label = bytes_label (drop 8 bs)\<rparr>)"

definition le_bincode :: "test_state bincode" where
  "le_bincode = \<lparr>bc_serialize = le_serialize, bc_deserialize = le_deserialize\<rparr>"

lemma le_bincode_ok: "bincode_ok le_bincode"
proof -
  have "unat w < 256 ^ 8" for w :: u64
    using unsigned_less [of w, where ?'a = nat] by simp
  then show ?thesis
    by (simp add: bincode_ok_def le_bincode_def le_serialize_def le_deserialize_def nat_bytes_roundtrip bytes_label_roundtrip)
qed

theorem versioned_codec_witness:
  "test_state_deserialize le_bincode (test_state_serialize le_bincode \<lparr>ts_counter = 300, ts_label = ''hi''\<rparr>) 1 =
     Inr \<lparr>ts_counter = 300, ts_label = ''hi''\<rparr> \<and>
   test_state_deserialize le_bincode [1, 2] 1 = Inl (Malformed ''unexpected end of file'')"
  using versioned_codec [OF le_bincode_ok, of "\<lparr>ts_counter = 300, ts_label = ''hi''\<rparr>" 1 "[1, 2]"
      "''unexpected end of file''"]
  by (simp add: test_state_wire_version_def le_bincode_def le_deserialize_def)

lemma test_delta_codec: "bincode_ok bcv \<Longrightarrow> codec_ok (test_delta_spec bcv bcd cfg)"
  by (simp add: codec_ok_def test_delta_spec_def test_delta_deserialize_view_def versioned_roundtrip)

lemma test_delta_honest:
  "bincode_ok bcd \<Longrightarrow> honest_delta (test_delta_spec bcv bcd cfg) (test_delta_mutate add_f64 change)"
  using tds.delta_law [of add_f64 change]
  by (simp add: honest_delta_def test_delta_spec_def test_delta_applier_def test_delta_deserialize_delta_def
      versioned_roundtrip) (simp add: test_delta_mutate_def)

text \<open>
  a cluster of \<open>TestDeltaState\<close> engines is consistent. Given only that bincode round-trips on the view
  and on the delta, in every state such a cluster reaches every view anywhere is a placeholder or what
  its owner published at that generation, and every mutation closure of the tests is an honest delta
  mutation, so that its broadcast delta keeps an up-to-date peer up to date.
\<close>

theorem test_delta_cluster_consistent:
  assumes "bincode_ok bcv" and "bincode_ok bcd"
    and "reachable sys_init (sys_step (test_delta_spec bcv bcd cfg)) s"
    and "sys_engines s n = Some e" and "eng_get_view e k = Some v"
  shows "(sv_generation v = generation_zero \<or> sys_log s k (sv_generation v) = Some (sv_value v)) \<and>
    honest_delta (test_delta_spec bcv bcd cfg) (test_delta_mutate add_f64 change)"
  using published_views [OF test_delta_codec [OF assms(1)] assms(3-5)] test_delta_honest [OF assms(2)]
  by blast

definition view_serialize :: "test_delta_view \<Rightarrow> bytes" where
  "view_serialize s = nat_bytes 8 (unat (tv_counter s)) @ label_bytes (tv_label s)"

definition view_deserialize :: "bytes \<Rightarrow> string + test_delta_view" where
  "view_deserialize bs = Inr \<lparr>tv_counter = of_nat (bytes_nat (take 8 bs)), tv_label = bytes_label (drop 8 bs)\<rparr>"

definition view_bincode :: "test_delta_view bincode" where
  "view_bincode = \<lparr>bc_serialize = view_serialize, bc_deserialize = view_deserialize\<rparr>"

definition delta_serialize :: "test_delta_view_delta \<Rightarrow> bytes" where
  "delta_serialize d = nat_bytes 8 (unat (tvd_counter_delta d)) @
     (case tvd_new_label d of None \<Rightarrow> [0] | Some l \<Rightarrow> 1 # label_bytes l)"

definition delta_deserialize :: "bytes \<Rightarrow> string + test_delta_view_delta" where
  "delta_deserialize bs = Inr \<lparr>tvd_counter_delta = of_nat (bytes_nat (take 8 bs)),
     tvd_new_label = (if take 1 (drop 8 bs) = [0] then None else Some (bytes_label (drop 9 bs)))\<rparr>"

definition delta_bincode :: "test_delta_view_delta bincode" where
  "delta_bincode = \<lparr>bc_serialize = delta_serialize, bc_deserialize = delta_deserialize\<rparr>"

lemmas view_delta_bincode_defs = view_bincode_def view_serialize_def view_deserialize_def
  delta_bincode_def delta_serialize_def delta_deserialize_def

lemma u64_bytes_roundtrip: "of_nat (bytes_nat (nat_bytes 8 (unat w))) = (w :: u64)"
  using unsigned_less [of w, where ?'a = nat] by (simp add: nat_bytes_roundtrip)

lemma view_delta_bincode_ok: "bincode_ok view_bincode" "bincode_ok delta_bincode"
  by (auto simp: bincode_ok_def view_delta_bincode_defs u64_bytes_roundtrip bytes_label_roundtrip
      split: option.splits)

theorem test_delta_cluster_consistent_witness:
  "\<exists>(s :: (nat test_delta_inner, test_delta_view) system) e v. reachable sys_init (sys_step (test_delta_spec view_bincode delta_bincode state_config_default)) s \<and>
    sys_engines s ''0'' = Some e \<and> eng_get_view e ''0'' = Some v \<and>
    (sv_generation v = generation_zero \<or> sys_log s ''0'' (sv_generation v) = Some (sv_value v)) \<and>
    honest_delta (test_delta_spec view_bincode delta_bincode state_config_default)
      (test_delta_mutate (+) \<lparr>tdc_counter_delta = 10, tdc_new_label = Some ''delta'', tdc_accumulator_delta = (3::nat)\<rparr>)"
proof -
  let ?sp = "test_delta_spec view_bincode delta_bincode state_config_default"
  let ?e = "start_engine ?sp ''0'' (test_delta_default (0::nat)) demo_clock"
  let ?s = "started ?sp ''0'' (test_delta_default (0::nat)) demo_clock sys_empty"
  have s: "reachable sys_init (sys_step ?sp) ?s"
    by (rule started_reachable [OF sys_empty_reachable]) (simp_all add: sys_empty_def demo_clock_def)
  have e: "sys_engines ?s ''0'' = Some ?e" by (simp add: started_def put_engine_def)
  have "shard_wf (eng_shard ?e)" "sh_node_id (eng_shard ?e) = ''0''"
    using node_okD(5,6) [OF sys_invD(1) [OF reachable_sys_inv [OF s test_delta_codec [OF view_delta_bincode_ok(1)]] e]]
    by simp_all
  then obtain v where v: "eng_get_view ?e ''0'' = Some v"
    using shard_wf_own [of "eng_shard ?e"] by (auto simp: eng_get_view_def)
  from test_delta_cluster_consistent [OF view_delta_bincode_ok s e v] s e v show ?thesis by blast
qed

end
