(* ===== verification/Cluster.thy ===== *)
theory Cluster
  imports Transport Test_States
begin

text \<open>
  \<open>dstate-integration/src/cluster.rs\<close>: the mock cluster that drives engines over the mock transport, tick
  by tick. Nodes are kept in a \<open>BTreeMap\<close>, so every loop over nodes runs in ascending order of their ids.
  Assertions, unwraps and the panics of the engines are values of \<open>cluster_panic\<close>.
\<close>

record scheduled_action =
  sa_message :: sync_message
  sa_deliver_at_tick :: u64

record ('s, 'v) mock_node =
  mn_engine :: "('s, 'v) engine"
  mn_scheduled :: "scheduled_action list"
  mn_feed_flush_counter :: u64
  mn_feed_flush_interval :: u64

record ('s, 'v) mock_cluster =
  mc_nodes :: "(node_id, ('s, 'v) mock_node) btmap"
  mc_transport :: mock_transport
  mc_clock :: test_clock
  mc_tick_duration :: duration
  mc_current_tick :: u64
  mc_corrupted_count :: u64

datatype cluster_panic =
    EnginePanic engine_panic
  | NodeExists node_id
  | NodeMissing node_id
  | SettleExceeded u64
  | DivideByZero

definition cluster_new :: "test_clock \<Rightarrow> duration \<Rightarrow> u64 \<Rightarrow> ('s, 'v) mock_cluster" where
  "cluster_new clock tick_duration rng_seed = \<lparr>mc_nodes = [], mc_transport = transport_new rng_seed,
     mc_clock = clock, mc_tick_duration = tick_duration, mc_current_tick = 0, mc_corrupted_count = 0\<rparr>"

definition all_node_ids :: "('s, 'v) mock_cluster \<Rightarrow> node_id list" where
  "all_node_ids c = bt_keys (mc_nodes c)"

definition cluster_node_count :: "('s, 'v) mock_cluster \<Rightarrow> nat" where
  "cluster_node_count c = length (mc_nodes c)"

definition cluster_engine :: "node_id \<Rightarrow> ('s, 'v) mock_cluster \<Rightarrow> cluster_panic + ('s, 'v) engine" where
  "cluster_engine node c =
     (case bt_get (mc_nodes c) node of Some mn \<Rightarrow> Inr (mn_engine mn) | None \<Rightarrow> Inl (NodeMissing node))"

definition cluster_reading :: "('s, 'v) mock_cluster \<Rightarrow> clock_reading" where
  "cluster_reading c = test_clock_read (mc_clock c)"

text \<open>\<open>tick_duration.as_millis().max(1) as u64\<close> and \<open>u64::div_ceil\<close>.\<close>

definition tick_ms :: "('s, 'v) mock_cluster \<Rightarrow> u64" where
  "tick_ms c = of_nat (max (as_millis (mc_tick_duration c)) 1)"

definition div_ceil :: "u64 \<Rightarrow> u64 \<Rightarrow> cluster_panic + u64" where
  "div_ceil a b = (if b = 0 then Inl DivideByZero
     else Inr (if a mod b > 0 then a div b + 1 else a div b))"

definition set_node :: "node_id \<Rightarrow> ('s, 'v) mock_node \<Rightarrow> ('s, 'v) mock_cluster \<Rightarrow> ('s, 'v) mock_cluster" where
  "set_node node mn c = c\<lparr>mc_nodes := bt_insert node mn (mc_nodes c)\<rparr>"

subsection \<open>Routing\<close>

definition delay_ticks :: "duration \<Rightarrow> ('s, 'v) mock_cluster \<Rightarrow> cluster_panic + u64" where
  "delay_ticks delay c =
     (let delay_ms = of_nat (as_millis delay)
      in if delay_ms = 0 then Inr 0
         else result_bind (div_ceil delay_ms (tick_ms c)) (\<lambda>n. Inr (max n 1)))"

fun route_action ::
    "wire_codec \<Rightarrow> node_id list \<Rightarrow> node_id \<Rightarrow> engine_action \<Rightarrow> ('s, 'v) mock_cluster \<Rightarrow>
     cluster_panic + ('s, 'v) mock_cluster" where
  "route_action cd all_nodes from (BroadcastSync msg) c =
     Inr (c\<lparr>mc_transport := transport_broadcast cd from (Sync msg) all_nodes (mc_transport c)\<rparr>)"
| "route_action cd all_nodes from (SendSync target msg) c =
     Inr (c\<lparr>mc_transport := transport_send cd from target (Sync msg) (mc_transport c)\<rparr>)"
| "route_action cd all_nodes from (ScheduleDelayed delay msg) c =
     result_bind (delay_ticks delay c) (\<lambda>ticks.
       case bt_get (mc_nodes c) from of
         None \<Rightarrow> Inr c
       | Some mn \<Rightarrow> Inr (set_node from (mn\<lparr>mn_scheduled := mn_scheduled mn @
             [\<lparr>sa_message = msg, sa_deliver_at_tick = mc_current_tick c + ticks\<rparr>]\<rparr>) c))"

definition route_actions ::
    "wire_codec \<Rightarrow> node_id \<Rightarrow> engine_action list \<Rightarrow> ('s, 'v) mock_cluster \<Rightarrow>
     cluster_panic + ('s, 'v) mock_cluster" where
  "route_actions cd from actions c =
     (let all_nodes = all_node_ids c in fold_result (route_action cd all_nodes from) actions c)"

definition route_all ::
    "wire_codec \<Rightarrow> (node_id \<times> engine_action list) list \<Rightarrow> ('s, 'v) mock_cluster \<Rightarrow>
     cluster_panic + ('s, 'v) mock_cluster" where
  "route_all cd pending c = fold_result (\<lambda>(node, actions) c. route_actions cd node actions c) pending c"

subsection \<open>Membership\<close>

text \<open>The two announcement loops of \<open>add_node\<close>: the new node to each existing one, and each existing
  one to the new engine. Empty action lists are not collected.\<close>

definition announce_to_existing ::
    "node_id \<Rightarrow> 'v \<Rightarrow> node_id \<Rightarrow> ('s, 'v) mock_cluster \<times> (node_id \<times> engine_action list) list \<Rightarrow>
     cluster_panic + ('s, 'v) mock_cluster \<times> (node_id \<times> engine_action list) list" where
  "announce_to_existing new_id default_view existing_id acc =
     (case acc of (c, all_actions) \<Rightarrow>
        (case bt_get (mc_nodes c) existing_id of
           None \<Rightarrow> Inl (NodeMissing existing_id)
         | Some mn \<Rightarrow>
             (case on_node_joined (cluster_reading c) new_id default_view (mn_engine mn) of
                Inl p \<Rightarrow> Inl (EnginePanic p)
              | Inr (e, actions) \<Rightarrow>
                  Inr (set_node existing_id (mn\<lparr>mn_engine := e\<rparr>) c,
                       if actions = [] then all_actions else all_actions @ [(existing_id, actions)]))))"

definition announce_existing ::
    "clock_reading \<Rightarrow> 'v \<Rightarrow> node_id \<Rightarrow> ('s, 'v) engine \<times> engine_action list list \<Rightarrow>
     cluster_panic + ('s, 'v) engine \<times> engine_action list list" where
  "announce_existing clock default_view existing_id acc =
     (case acc of (e, collected) \<Rightarrow>
        (case on_node_joined clock existing_id default_view e of
           Inl p \<Rightarrow> Inl (EnginePanic p)
         | Inr (e, actions) \<Rightarrow> Inr (e, if actions = [] then collected else collected @ [actions])))"

definition feed_interval_of :: "('s, 'v) engine \<Rightarrow> ('s, 'v) mock_cluster \<Rightarrow> cluster_panic + u64" where
  "feed_interval_of e c =
     (let batch_ms = of_nat (as_millis (cf_batch_interval (st_change_feed (eng_sync_strategy e))))
      in result_bind (div_ceil batch_ms (tick_ms c)) (\<lambda>n. Inr (max n 1)))"

definition add_node ::
    "wire_codec \<Rightarrow> ('s, 'v) engine \<Rightarrow> 'v \<Rightarrow> ('s, 'v) mock_cluster \<Rightarrow>
     cluster_panic + ('s, 'v) mock_cluster" where
  "add_node cd engine default_view c =
     (let new_id = eng_node_id engine;
          existing_ids = bt_keys (mc_nodes c)
      in if bt_get (mc_nodes c) new_id \<noteq> None then Inl (NodeExists new_id)
         else
           result_bind (fold_result (announce_to_existing new_id default_view) existing_ids (c, []))
             (\<lambda>(c, all_actions).
           result_bind (route_all cd all_actions c) (\<lambda>c.
           result_bind (feed_interval_of engine c) (\<lambda>feed_interval.
           result_bind (fold_result (announce_existing (cluster_reading c) default_view) existing_ids (engine, []))
             (\<lambda>(engine, new_node_actions).
           let new_node = \<lparr>mn_engine = engine, mn_scheduled = [], mn_feed_flush_counter = 0,
                           mn_feed_flush_interval = feed_interval\<rparr>
           in route_all cd (map (\<lambda>actions. (new_id, actions)) new_node_actions) (set_node new_id new_node c))))))"

definition all_node_left :: "node_id \<Rightarrow> ('s, 'v) mock_cluster \<Rightarrow> ('s, 'v) mock_cluster" where
  "all_node_left node c = c\<lparr>mc_nodes := map (\<lambda>(k, mn). (k, mn\<lparr>mn_engine := on_node_left node (mn_engine mn)\<rparr>))
     (mc_nodes c)\<rparr>"

definition remove_node :: "node_id \<Rightarrow> ('s, 'v) mock_cluster \<Rightarrow> ('s, 'v) mock_cluster" where
  "remove_node node c = all_node_left node (c\<lparr>mc_nodes := bt_remove node (mc_nodes c)\<rparr>)"

definition remove_node_hard :: "node_id \<Rightarrow> ('s, 'v) mock_cluster \<Rightarrow> ('s, 'v) mock_cluster" where
  "remove_node_hard node c = all_node_left node (c\<lparr>mc_nodes := bt_remove node (mc_nodes c),
     mc_transport := drop_in_flight_for node (mc_transport c)\<rparr>)"

subsection \<open>Ticks\<close>

text \<open>Phase 1: one delivered message; its actions are routed after all deliveries.\<close>

definition deliver_to_node ::
    "delivered_message \<Rightarrow> ('s, 'v) mock_cluster \<times> (node_id \<times> engine_action list) list \<Rightarrow>
     cluster_panic + ('s, 'v) mock_cluster \<times> (node_id \<times> engine_action list) list" where
  "deliver_to_node msg acc =
     (case acc of (c, pending_actions) \<Rightarrow>
        (case bt_get (mc_nodes c) (dm_to msg) of
           None \<Rightarrow> Inr (c, pending_actions)
         | Some mn \<Rightarrow>
             (case handle_inbound (cluster_reading c) (dm_message msg) (mn_engine mn) of
                Inl p \<Rightarrow> Inl (EnginePanic p)
              | Inr (e, actions) \<Rightarrow>
                  Inr (set_node (dm_to msg) (mn\<lparr>mn_engine := e\<rparr>) c,
                       if actions = [] then pending_actions else pending_actions @ [(dm_to msg, actions)]))))"

definition tick_deliver ::
    "wire_codec \<Rightarrow> ('s, 'v) mock_cluster \<Rightarrow> cluster_panic + ('s, 'v) mock_cluster" where
  "tick_deliver cd c =
     (let (t, delivery) = deliver_due cd (mc_transport c);
          c = c\<lparr>mc_transport := t,
                mc_corrupted_count := mc_corrupted_count c + of_nat (length (res_corrupted delivery))\<rparr>
      in result_bind (fold_result deliver_to_node (res_delivered delivery) (c, []))
           (\<lambda>(c, pending_actions). route_all cd pending_actions c))"

text \<open>Phase 2: the scheduled broadcasts of one node.\<close>

definition tick_scheduled ::
    "wire_codec \<Rightarrow> node_id \<Rightarrow> ('s, 'v) mock_cluster \<Rightarrow> cluster_panic + ('s, 'v) mock_cluster" where
  "tick_scheduled cd node c =
     (case bt_get (mc_nodes c) node of
        None \<Rightarrow> Inl (NodeMissing node)
      | Some mn \<Rightarrow>
          (let is_due = (\<lambda>a. sa_deliver_at_tick a \<le> mc_current_tick c);
               c = set_node node (mn\<lparr>mn_scheduled := filter (\<lambda>a. \<not> is_due a) (mn_scheduled mn)\<rparr>) c
           in Inr (fold (\<lambda>a c. c\<lparr>mc_transport :=
                transport_broadcast cd node (Sync (sa_message a)) (all_node_ids c) (mc_transport c)\<rparr>)
                (filter is_due (mn_scheduled mn)) c)))"

text \<open>Phase 3: the change feed of one node.\<close>

definition tick_feed ::
    "wire_codec \<Rightarrow> node_id \<Rightarrow> ('s, 'v) mock_cluster \<Rightarrow> cluster_panic + ('s, 'v) mock_cluster" where
  "tick_feed cd node c =
     (case bt_get (mc_nodes c) node of
        None \<Rightarrow> Inl (NodeMissing node)
      | Some mn \<Rightarrow>
          if pending_change_feed_count (mn_engine mn) > 0
          then
            (let mn = mn\<lparr>mn_feed_flush_counter := mn_feed_flush_counter mn + 1\<rparr>
             in if mn_feed_flush_counter mn \<ge> mn_feed_flush_interval mn
                then
                  (let mn = mn\<lparr>mn_feed_flush_counter := 0\<rparr>;
                       (e, batch) = flush_change_feed (mn_engine mn);
                       c = set_node node (mn\<lparr>mn_engine := e\<rparr>) c
                   in case batch of
                        None \<Rightarrow> Inr c
                      | Some feed \<Rightarrow> Inr (c\<lparr>mc_transport :=
                          transport_broadcast cd node (Feed feed) (all_node_ids c) (mc_transport c)\<rparr>))
                else Inr (set_node node mn c))
          else Inr (set_node node (mn\<lparr>mn_feed_flush_counter := 0\<rparr>) c))"

definition tick_advance :: "('s, 'v) mock_cluster \<Rightarrow> ('s, 'v) mock_cluster" where
  "tick_advance c = c\<lparr>mc_clock := test_clock_advance (mc_tick_duration c) (mc_clock c),
     mc_transport := advance_tick (mc_transport c), mc_current_tick := mc_current_tick c + 1\<rparr>"

definition tick :: "wire_codec \<Rightarrow> ('s, 'v) mock_cluster \<Rightarrow> cluster_panic + ('s, 'v) mock_cluster" where
  "tick cd c =
     result_bind (tick_deliver cd c) (\<lambda>c.
       let node_ids = all_node_ids c
       in result_bind (fold_result (tick_scheduled cd) node_ids c) (\<lambda>c.
          result_bind (fold_result (tick_feed cd) node_ids c) (\<lambda>c.
          Inr (tick_advance c))))"

fun tick_n :: "wire_codec \<Rightarrow> nat \<Rightarrow> ('s, 'v) mock_cluster \<Rightarrow> cluster_panic + ('s, 'v) mock_cluster" where
  "tick_n cd 0 c = Inr c"
| "tick_n cd (Suc n) c = result_bind (tick cd c) (tick_n cd n)"

subsection \<open>Settling, mutating\<close>

definition is_settled :: "('s, 'v) mock_cluster \<Rightarrow> bool" where
  "is_settled c \<longleftrightarrow> in_flight_count (mc_transport c) = 0 \<and>
     list_all (\<lambda>(k, mn). mn_scheduled mn = [] \<and> pending_change_feed_count (mn_engine mn) = 0) (mc_nodes c)"

text \<open>The loop of \<open>settle_with_limit\<close>; the first argument is how many ticks the limit still allows.\<close>

fun settle_loop ::
    "wire_codec \<Rightarrow> nat \<Rightarrow> u64 \<Rightarrow> u64 \<Rightarrow> ('s, 'v) mock_cluster \<Rightarrow>
     cluster_panic + ('s, 'v) mock_cluster \<times> u64" where
  "settle_loop cd 0 max_ticks ticks c =
     (if is_settled c then Inr (c, ticks) else Inl (SettleExceeded max_ticks))"
| "settle_loop cd (Suc remaining) max_ticks ticks c =
     (if is_settled c then Inr (c, ticks)
      else result_bind (tick cd c) (settle_loop cd remaining max_ticks (ticks + 1)))"

definition settle_with_limit ::
    "wire_codec \<Rightarrow> u64 \<Rightarrow> ('s, 'v) mock_cluster \<Rightarrow> cluster_panic + ('s, 'v) mock_cluster \<times> u64" where
  "settle_with_limit cd max_ticks c = settle_loop cd (unat max_ticks) max_ticks 0 c"

definition settle :: "wire_codec \<Rightarrow> ('s, 'v) mock_cluster \<Rightarrow> cluster_panic + ('s, 'v) mock_cluster \<times> u64" where
  "settle cd c = settle_with_limit cd 1000 c"

definition cluster_mutate ::
    "wire_codec \<Rightarrow> node_id \<Rightarrow> ('s \<Rightarrow> 's) \<Rightarrow> ('s \<Rightarrow> 'v) \<Rightarrow> sync_urgency \<Rightarrow> ('s, 'v) mock_cluster \<Rightarrow>
     cluster_panic + ('s, 'v) mock_cluster" where
  "cluster_mutate cd node mutate_fn project_fn urgency c =
     (case bt_get (mc_nodes c) node of
        None \<Rightarrow> Inl (NodeMissing node)
      | Some mn \<Rightarrow>
          (let (e, r) = mutate (cluster_reading c) mutate_fn project_fn urgency (mn_engine mn)
           in route_actions cd node (mr_actions r) (set_node node (mn\<lparr>mn_engine := e\<rparr>) c)))"

text \<open>\<open>MockCluster::<TestState, TestState>::with_test_state\<close>; the start instant of the clock is arbitrary.\<close>

definition test_state_engine ::
    "test_state bincode \<Rightarrow> state_config \<Rightarrow> clock_reading \<Rightarrow> nat \<Rightarrow> (test_state, test_state) engine" where
  "test_state_engine bc config clock i =
     engine_new test_state_name (show_nat i) test_state_default (\<lambda>s. s) config test_state_wire_version
       clock (bc_serialize bc) (versioned_deserialize test_state_wire_version bc) None"

definition with_test_state ::
    "test_state bincode \<Rightarrow> wire_codec \<Rightarrow> instant \<Rightarrow> nat \<Rightarrow> state_config \<Rightarrow>
     cluster_panic + (test_state, test_state) mock_cluster" where
  "with_test_state bc cd start n config =
     (let clock = test_clock_with_base start 1000000;
          tick_duration = from_millis 100
      in fold_result (\<lambda>i c. add_node cd (test_state_engine bc config (test_clock_read clock) i)
           test_state_default c) [0..<n] (cluster_new clock tick_duration 42))"

subsection \<open>Invariant\<close>

definition cluster_wf :: "('s, 'v) mock_cluster \<Rightarrow> bool" where
  "cluster_wf c \<longleftrightarrow> bt_wf (mc_nodes c) \<and> tick_ms c \<noteq> 0 \<and>
     (\<forall>k mn. bt_get (mc_nodes c) k = Some mn \<longrightarrow> engine_wf (mn_engine mn) \<and> eng_node_id (mn_engine mn) = k)"

definition node_set :: "('s, 'v) mock_cluster \<Rightarrow> node_id set" where
  "node_set c = set (all_node_ids c)"

text \<open>A cluster with the members \<open>ns\<close>: what the loops over nodes keep.\<close>

definition cluster_of :: "node_id set \<Rightarrow> ('s, 'v) mock_cluster \<Rightarrow> bool" where
  "cluster_of ns c \<longleftrightarrow> cluster_wf c \<and> node_set c = ns"

lemma cluster_wfD:
  "cluster_wf c \<Longrightarrow> bt_wf (mc_nodes c)"
  "cluster_wf c \<Longrightarrow> tick_ms c \<noteq> 0"
  "cluster_wf c \<Longrightarrow> bt_get (mc_nodes c) k = Some mn \<Longrightarrow> engine_wf (mn_engine mn)"
  "cluster_wf c \<Longrightarrow> bt_get (mc_nodes c) k = Some mn \<Longrightarrow> eng_node_id (mn_engine mn) = k"
  by (auto simp: cluster_wf_def)

lemma node_set_iff: "cluster_wf c \<Longrightarrow> k \<in> node_set c \<longleftrightarrow> bt_get (mc_nodes c) k \<noteq> None"
  by (auto simp: node_set_def all_node_ids_def bt.keys_law [OF cluster_wfD(1)])

lemma cluster_of_transport [simp]: "cluster_of ns (c\<lparr>mc_transport := t\<rparr>) = cluster_of ns c"
  by (simp add: cluster_of_def cluster_wf_def tick_ms_def node_set_def all_node_ids_def)

lemma cluster_of_corrupted [simp]: "cluster_of ns (c\<lparr>mc_corrupted_count := n\<rparr>) = cluster_of ns c"
  by (simp add: cluster_of_def cluster_wf_def tick_ms_def node_set_def all_node_ids_def)

lemma cluster_of_set_node:
  assumes "cluster_of ns c" and "engine_wf (mn_engine mn)" and "eng_node_id (mn_engine mn) = k"
  shows "cluster_of (insert k ns) (set_node k mn c)"
  using assms
  by (auto simp: cluster_of_def cluster_wf_def set_node_def tick_ms_def node_set_def all_node_ids_def
      wf_intros lookup_simps bt.keys_put)

lemma cluster_of_set_existing:
  assumes "cluster_of ns c" and "bt_get (mc_nodes c) k = Some mn0" and "engine_wf (mn_engine mn)"
    and "eng_node_id (mn_engine mn) = k"
  shows "cluster_of ns (set_node k mn c)"
proof -
  have "k \<in> ns" using assms(1,2) by (auto simp: cluster_of_def node_set_iff)
  then show ?thesis using cluster_of_set_node [OF assms(1,3,4)] by (simp add: insert_absorb)
qed

lemma cluster_ofD:
  assumes "cluster_of ns c" and "bt_get (mc_nodes c) k = Some mn"
  shows "engine_wf (mn_engine mn)" "eng_node_id (mn_engine mn) = k"
  using assms by (auto simp: cluster_of_def dest: cluster_wfD)

lemma delay_ticks_ok: "cluster_of ns c \<Longrightarrow> \<exists>n. delay_ticks d c = Inr n"
  by (auto simp: delay_ticks_def div_ceil_def cluster_of_def cluster_wf_def Let_def)

lemma route_action_ok:
  assumes "cluster_of ns c"
  shows "\<exists>c'. route_action cd ids from a c = Inr c' \<and> cluster_of ns c'"
proof (cases a)
  case (ScheduleDelayed d m)
  obtain n where "delay_ticks d c = Inr n" using delay_ticks_ok [OF assms] by blast
  then show ?thesis
    using assms ScheduleDelayed cluster_ofD [OF assms]
    by (auto simp: intro!: cluster_of_set_existing split: option.splits)
qed (use assms in simp_all)

lemma route_actions_ok:
  "cluster_of ns c \<Longrightarrow> \<exists>c'. route_actions cd from acts c = Inr c' \<and> cluster_of ns c'"
  unfolding route_actions_def Let_def
  by (rule fold_result_invariant) (auto intro: route_action_ok)

lemma route_all_ok: "cluster_of ns c \<Longrightarrow> \<exists>c'. route_all cd pending c = Inr c' \<and> cluster_of ns c'"
  unfolding route_all_def by (rule fold_result_invariant) (auto intro: route_actions_ok)

lemma engine_params_node: "engine_params e' = engine_params e \<Longrightarrow> eng_node_id e' = eng_node_id e"
  by (simp add: engine_params_def)

lemma deliver_to_node_ok:
  assumes "cluster_of ns (fst acc)"
  shows "\<exists>acc'. deliver_to_node msg acc = Inr acc' \<and> cluster_of ns (fst acc')"
proof (cases "bt_get (mc_nodes (fst acc)) (dm_to msg)")
  case None
  then show ?thesis using assms by (cases acc) (simp add: deliver_to_node_def)
next
  case (Some mn)
  note ok = cluster_ofD [OF assms Some]
  obtain e acts where "handle_inbound (cluster_reading (fst acc)) (dm_message msg) (mn_engine mn) = Inr (e, acts)"
    "engine_wf e" "eng_node_id e = dm_to msg"
    using inbound_ok [OF ok(1)] ok(2) engine_params_node by metis
  then show ?thesis
    using assms Some by (cases acc) (auto simp: deliver_to_node_def intro!: cluster_of_set_existing)
qed

lemma tick_deliver_ok: "cluster_of ns c \<Longrightarrow> \<exists>c'. tick_deliver cd c = Inr c' \<and> cluster_of ns c'"
proof -
  assume c: "cluster_of ns c"
  let ?d = "snd (deliver_due cd (mc_transport c))"
  let ?c = "c\<lparr>mc_transport := fst (deliver_due cd (mc_transport c)),
    mc_corrupted_count := mc_corrupted_count c + of_nat (length (res_corrupted ?d))\<rparr>"
  have "\<exists>acc. fold_result deliver_to_node (res_delivered ?d) (?c, []) = Inr acc \<and> cluster_of ns (fst acc)"
    by (rule fold_result_invariant [where P = "\<lambda>acc. cluster_of ns (fst acc)"])
      (rule deliver_to_node_ok, assumption, simp add: c)
  then obtain c1 pending where "fold_result deliver_to_node (res_delivered ?d) (?c, []) = Inr (c1, pending)"
    "cluster_of ns c1" by auto
  then show ?thesis
    using route_all_ok [of ns c1 cd pending] by (simp add: tick_deliver_def case_prod_unfold Let_def)
qed

lemma broadcast_fold_ok:
  "cluster_of ns c \<Longrightarrow> cluster_of ns (fold (\<lambda>a c. c\<lparr>mc_transport := f a c\<rparr>) as c)"
  by (induction as arbitrary: c) auto

lemma tick_scheduled_ok:
  assumes "cluster_of ns c" and "k \<in> ns"
  shows "\<exists>c'. tick_scheduled cd k c = Inr c' \<and> cluster_of ns c'"
proof -
  obtain mn where mn: "bt_get (mc_nodes c) k = Some mn"
    using assms by (auto simp: cluster_of_def node_set_iff)
  have "cluster_of ns (set_node k (mn\<lparr>mn_scheduled := as\<rparr>) c)" for as
    by (rule cluster_of_set_existing [OF assms(1) mn]) (simp_all add: cluster_ofD [OF assms(1) mn])
  then show ?thesis using mn by (simp add: tick_scheduled_def Let_def broadcast_fold_ok)
qed

lemma tick_feed_ok:
  assumes "cluster_of ns c" and "k \<in> ns"
  shows "\<exists>c'. tick_feed cd k c = Inr c' \<and> cluster_of ns c'"
proof -
  obtain mn where mn: "bt_get (mc_nodes c) k = Some mn"
    using assms by (auto simp: cluster_of_def node_set_iff)
  have flush: "engine_wf (fst (flush_change_feed (mn_engine mn)))"
    "eng_node_id (fst (flush_change_feed (mn_engine mn))) = k"
    using cluster_ofD [OF assms(1) mn] by (simp_all add: wf_intros frame_simps)
  have "cluster_of ns (set_node k (mn\<lparr>mn_feed_flush_counter := i, mn_engine := fst (flush_change_feed (mn_engine mn))\<rparr>) c)"
    for i by (rule cluster_of_set_existing [OF assms(1) mn]) (simp_all add: flush)
  moreover have "cluster_of ns (set_node k (mn\<lparr>mn_feed_flush_counter := i\<rparr>) c)" for i
    by (rule cluster_of_set_existing [OF assms(1) mn]) (simp_all add: cluster_ofD [OF assms(1) mn])
  ultimately show ?thesis
    using mn by (simp add: tick_feed_def Let_def case_prod_unfold split: option.split)
qed

lemma tick_advance_ok: "cluster_of ns c \<Longrightarrow> cluster_of ns (tick_advance c)"
  by (simp add: tick_advance_def cluster_of_def cluster_wf_def tick_ms_def node_set_def all_node_ids_def)

lemma tick_ok:
  assumes "cluster_of ns c" shows "\<exists>c'. tick cd c = Inr c' \<and> cluster_of ns c'"
proof -
  obtain c1 where 1: "tick_deliver cd c = Inr c1" "cluster_of ns c1"
    using tick_deliver_ok [OF assms] by blast
  then have ids: "set (all_node_ids c1) = ns" by (simp add: cluster_of_def node_set_def)
  obtain c2 where 2: "fold_result (tick_scheduled cd) (all_node_ids c1) c1 = Inr c2" "cluster_of ns c2"
    using fold_result_invariant [of "all_node_ids c1" "cluster_of ns" "tick_scheduled cd" c1]
      tick_scheduled_ok 1(2) ids by blast
  obtain c3 where 3: "fold_result (tick_feed cd) (all_node_ids c1) c2 = Inr c3" "cluster_of ns c3"
    using fold_result_invariant [of "all_node_ids c1" "cluster_of ns" "tick_feed cd" c2]
      tick_feed_ok 2(2) ids by blast
  from 1 2 3 show ?thesis by (simp add: tick_def Let_def tick_advance_ok)
qed

lemma mutate_ok:
  assumes "cluster_of ns c" and "k \<in> ns"
  shows "\<exists>c'. cluster_mutate cd k f p u c = Inr c' \<and> cluster_of ns c'"
proof -
  obtain mn where mn: "bt_get (mc_nodes c) k = Some mn"
    using assms by (auto simp: cluster_of_def node_set_iff)
  let ?e = "fst (mutate (cluster_reading c) f p u (mn_engine mn))"
  have "engine_wf ?e" "eng_node_id ?e = k"
    using cluster_ofD [OF assms(1) mn] engine_params_node [OF mutate_frame(3) [of "cluster_reading c" f p u "mn_engine mn"]]
    by (simp_all add: wf_intros)
  then have "cluster_of ns (set_node k (mn\<lparr>mn_engine := ?e\<rparr>) c)"
    by (intro cluster_of_set_existing [OF assms(1) mn]) simp_all
  then show ?thesis using route_actions_ok mn by (auto simp: cluster_mutate_def case_prod_unfold Let_def)
qed

lemma bt_wf_map_values: "bt_wf (map (\<lambda>(k, v). (k, f v)) m) = bt_wf m"
  by (simp add: bt_wf_def case_prod_unfold comp_def)

lemma bt_get_map_values: "bt_get (map (\<lambda>(k, v). (k, f v)) m) k = map_option f (bt_get m k)"
  by (induction m) (auto simp: bt_get_def)

lemma all_left_ok:
  assumes "cluster_of ns c" shows "cluster_of ns (all_node_left k c)"
proof -
  have "node_set (all_node_left k c) = node_set c"
    by (simp add: node_set_def all_node_ids_def all_node_left_def bt_keys_def case_prod_unfold comp_def)
  moreover have "eng_node_id (on_node_left k e) = eng_node_id e" for e :: "('a, 'b) engine"
    by (simp add: frame_simps)
  ultimately show ?thesis
    using assms by (auto simp: cluster_of_def cluster_wf_def all_node_left_def tick_ms_def bt_wf_map_values
        bt_get_map_values wf_intros)
qed

lemma remove_ok:
  assumes "cluster_of ns c"
  shows "cluster_of (ns - {k}) (remove_node k c)" "cluster_of (ns - {k}) (remove_node_hard k c)"
proof -
  have "cluster_of (ns - {k}) (c\<lparr>mc_nodes := bt_remove k (mc_nodes c)\<rparr>)"
    using assms by (auto simp: cluster_of_def cluster_wf_def tick_ms_def node_set_def all_node_ids_def
        wf_intros lookup_simps bt.keys_drop)
  then show "cluster_of (ns - {k}) (remove_node k c)" "cluster_of (ns - {k}) (remove_node_hard k c)"
    by (simp_all add: remove_node_def remove_node_hard_def all_left_ok)
qed

lemma announce_to_existing_ok:
  assumes "cluster_of ns (fst acc)" and "k \<in> ns"
  shows "\<exists>acc'. announce_to_existing n dv k acc = Inr acc' \<and> cluster_of ns (fst acc')"
proof -
  obtain mn where mn: "bt_get (mc_nodes (fst acc)) k = Some mn"
    using assms by (auto simp: cluster_of_def node_set_iff)
  note ok = cluster_ofD [OF assms(1) mn]
  obtain e acts where e: "on_node_joined (cluster_reading (fst acc)) n dv (mn_engine mn) = Inr (e, acts)"
    "engine_wf e" "eng_node_id e = k"
    using joined_ok [OF ok(1)] ok(2) engine_params_node by metis
  have "cluster_of ns (set_node k (mn\<lparr>mn_engine := e\<rparr>) (fst acc))"
    by (rule cluster_of_set_existing [OF assms(1) mn]) (simp_all add: e)
  then show ?thesis using mn e(1) by (cases acc) (simp add: announce_to_existing_def)
qed

lemma announce_existing_ok:
  assumes "engine_wf (fst acc) \<and> eng_node_id (fst acc) = n"
  shows "\<exists>acc'. announce_existing c dv k acc = Inr acc' \<and> engine_wf (fst acc') \<and> eng_node_id (fst acc') = n"
proof -
  obtain e acts where "on_node_joined c k dv (fst acc) = Inr (e, acts)" "engine_wf e" "eng_node_id e = n"
    using joined_ok [of "fst acc" c k dv] assms engine_params_node by metis
  then show ?thesis by (cases acc) (simp add: announce_existing_def)
qed

lemma feed_interval_ok: "cluster_of ns c \<Longrightarrow> \<exists>i. feed_interval_of e c = Inr i"
  by (auto simp: feed_interval_of_def div_ceil_def cluster_of_def cluster_wf_def Let_def)

lemma add_node_ok:
  assumes "cluster_of ns c" and "engine_wf e" and "eng_node_id e \<notin> ns"
  shows "\<exists>c'. add_node cd e dv c = Inr c' \<and> cluster_of (insert (eng_node_id e) ns) c'"
proof -
  have ids: "set (bt_keys (mc_nodes c)) = ns" and new: "bt_get (mc_nodes c) (eng_node_id e) = None"
    using assms by (auto simp: cluster_of_def node_set_def all_node_ids_def node_set_iff [unfolded node_set_def all_node_ids_def])
  have "\<exists>acc. fold_result (announce_to_existing (eng_node_id e) dv) (bt_keys (mc_nodes c)) (c, []) = Inr acc \<and>
      cluster_of ns (fst acc)"
    by (rule fold_result_invariant [where P = "\<lambda>acc. cluster_of ns (fst acc)"])
      (rule announce_to_existing_ok, assumption, simp_all add: ids assms)
  then obtain c1 acts where 1:
    "fold_result (announce_to_existing (eng_node_id e) dv) (bt_keys (mc_nodes c)) (c, []) = Inr (c1, acts)"
    "cluster_of ns c1" by auto
  obtain c2 where 2: "route_all cd acts c1 = Inr c2" "cluster_of ns c2" using route_all_ok [OF 1(2)] by blast
  obtain i where 3: "feed_interval_of e c2 = Inr i" using feed_interval_ok [OF 2(2)] by blast
  have "\<exists>acc. fold_result (announce_existing (cluster_reading c2) dv) (bt_keys (mc_nodes c)) (e, []) = Inr acc \<and>
      engine_wf (fst acc) \<and> eng_node_id (fst acc) = eng_node_id e"
    by (rule fold_result_invariant [where P = "\<lambda>acc. engine_wf (fst acc) \<and> eng_node_id (fst acc) = eng_node_id e"])
      (rule announce_existing_ok, assumption, simp add: assms)
  then obtain e4 acts4 where 4:
    "fold_result (announce_existing (cluster_reading c2) dv) (bt_keys (mc_nodes c)) (e, []) = Inr (e4, acts4)"
    "engine_wf e4" "eng_node_id e4 = eng_node_id e" by auto
  let ?mn = "\<lparr>mn_engine = e4, mn_scheduled = [], mn_feed_flush_counter = 0, mn_feed_flush_interval = i\<rparr>"
  have "cluster_of (insert (eng_node_id e) ns) (set_node (eng_node_id e) ?mn c2)"
    by (rule cluster_of_set_node) (simp_all add: 2 4)
  from route_all_ok [OF this] show ?thesis
    using new 1(1) 2(1) 3 4(1) by (simp add: add_node_def Let_def)
qed

lemma tick_n_ok: "cluster_of ns c \<Longrightarrow> \<exists>c'. tick_n cd n c = Inr c' \<and> cluster_of ns c'"
proof (induction n arbitrary: c)
  case (Suc n)
  then obtain c1 where "tick cd c = Inr c1" "cluster_of ns c1" using tick_ok by blast
  then show ?case using Suc.IH by simp
qed simp

subsection \<open>Settling\<close>

text \<open>What \<open>settle_loop\<close> returns, as one statement over the iterates of \<open>tick\<close>.\<close>

lemma settle_loop_spec:
  assumes "cluster_of ns c"
  shows "(\<exists>n c'. settle_loop cd fuel m t c = Inr (c', t + of_nat n) \<and> n \<le> fuel \<and> tick_n cd n c = Inr c' \<and>
            cluster_of ns c' \<and> is_settled c' \<and>
            (\<forall>i<n. \<forall>ci. tick_n cd i c = Inr ci \<longrightarrow> \<not> is_settled ci)) \<or>
         (settle_loop cd fuel m t c = Inl (SettleExceeded m) \<and>
            (\<forall>i<Suc fuel. \<forall>ci. tick_n cd i c = Inr ci \<longrightarrow> \<not> is_settled ci))"
  using assms
proof (induction fuel arbitrary: t c)
  case 0
  then show ?case by auto
next
  case (Suc fuel)
  show ?case
  proof (cases "is_settled c")
    case True
    then show ?thesis using Suc.prems by (intro disjI1 exI [of _ 0] exI [of _ c]) simp
  next
    case False
    obtain c1 where c1: "tick cd c = Inr c1" "cluster_of ns c1" using tick_ok [OF Suc.prems] by blast
    from Suc.IH [OF c1(2), of "t + 1"] show ?thesis
    proof (elim disjE exE conjE)
      fix n c' assume "settle_loop cd fuel m (t + 1) c1 = Inr (c', t + 1 + of_nat n)" "n \<le> fuel"
        "tick_n cd n c1 = Inr c'" "cluster_of ns c'" "is_settled c'"
        "\<forall>i<n. \<forall>ci. tick_n cd i c1 = Inr ci \<longrightarrow> \<not> is_settled ci"
      then show ?thesis
        using False c1(1)
        by (intro disjI1 exI [of _ "Suc n"] exI [of _ c']) (simp add: All_less_Suc2 add.assoc)
    next
      assume "settle_loop cd fuel m (t + 1) c1 = Inl (SettleExceeded m)"
        "\<forall>i<Suc fuel. \<forall>ci. tick_n cd i c1 = Inr ci \<longrightarrow> \<not> is_settled ci"
      then show ?thesis using False c1(1) by (simp add: All_less_Suc2)
    qed
  qed
qed

subsection \<open>Every valid script runs\<close>

text \<open>What a test can do with a cluster, as a script. \<open>ops_valid\<close> is the side condition of the two operations
  that assert something about the membership; \<open>ops_members\<close> is the membership a script leads to.\<close>

datatype ('s, 'v) cluster_op =
    OpAdd "('s, 'v) engine" 'v
  | OpRemove node_id
  | OpRemoveHard node_id
  | OpMutate node_id "'s \<Rightarrow> 's" "'s \<Rightarrow> 'v" sync_urgency
  | OpTick
  | OpIntercept interceptor
  | OpHeal

fun cluster_apply ::
    "wire_codec \<Rightarrow> ('s, 'v) cluster_op \<Rightarrow> ('s, 'v) mock_cluster \<Rightarrow> cluster_panic + ('s, 'v) mock_cluster" where
  "cluster_apply cd (OpAdd e dv) c = add_node cd e dv c"
| "cluster_apply cd (OpRemove k) c = Inr (remove_node k c)"
| "cluster_apply cd (OpRemoveHard k) c = Inr (remove_node_hard k c)"
| "cluster_apply cd (OpMutate k f p u) c = cluster_mutate cd k f p u c"
| "cluster_apply cd OpTick c = tick cd c"
| "cluster_apply cd (OpIntercept i) c = Inr (c\<lparr>mc_transport := add_interceptor i (mc_transport c)\<rparr>)"
| "cluster_apply cd OpHeal c = Inr (c\<lparr>mc_transport := clear_interceptors (mc_transport c)\<rparr>)"

definition cluster_run ::
    "wire_codec \<Rightarrow> ('s, 'v) cluster_op list \<Rightarrow> ('s, 'v) mock_cluster \<Rightarrow> cluster_panic + ('s, 'v) mock_cluster" where
  "cluster_run cd = fold_result (cluster_apply cd)"

fun op_members :: "('s, 'v) cluster_op \<Rightarrow> node_id set \<Rightarrow> node_id set" where
  "op_members (OpAdd e dv) ns = insert (eng_node_id e) ns"
| "op_members (OpRemove k) ns = ns - {k}"
| "op_members (OpRemoveHard k) ns = ns - {k}"
| "op_members _ ns = ns"

fun op_valid :: "('s, 'v) cluster_op \<Rightarrow> node_id set \<Rightarrow> bool" where
  "op_valid (OpAdd e dv) ns \<longleftrightarrow> engine_wf e \<and> eng_node_id e \<notin> ns"
| "op_valid (OpMutate k f p u) ns \<longleftrightarrow> k \<in> ns"
| "op_valid _ ns \<longleftrightarrow> True"

fun ops_valid :: "('s, 'v) cluster_op list \<Rightarrow> node_id set \<Rightarrow> bool" where
  "ops_valid [] ns \<longleftrightarrow> True"
| "ops_valid (op # ops) ns \<longleftrightarrow> op_valid op ns \<and> ops_valid ops (op_members op ns)"

lemma cluster_apply_ok:
  assumes "cluster_of ns c" and "op_valid op ns"
  shows "\<exists>c'. cluster_apply cd op c = Inr c' \<and> cluster_of (op_members op ns) c'"
proof (cases op)
  case (OpAdd e dv)
  then show ?thesis using assms add_node_ok [of ns c e cd dv] by simp
next
  case (OpMutate k f p u)
  then show ?thesis using assms mutate_ok [of ns c k cd f p u] by simp
qed (use assms in \<open>simp_all add: remove_ok tick_ok\<close>)

lemma cluster_run_ok:
  assumes "cluster_of ns c" and "ops_valid ops ns"
  shows "\<exists>c'. cluster_run cd ops c = Inr c' \<and> cluster_of (fold op_members ops ns) c'"
  using assms
proof (induction ops arbitrary: ns c)
  case (Cons op ops)
  then obtain c1 where "cluster_apply cd op c = Inr c1" "cluster_of (op_members op ns) c1"
    using cluster_apply_ok by (metis ops_valid.simps(2))
  then show ?case using Cons by (simp add: cluster_run_def)
qed (simp add: cluster_run_def)

text \<open>Where the two membership assertions fail, the script stops with that panic and no other.\<close>

lemma cluster_apply_invalid:
  assumes "cluster_of ns c"
  shows "eng_node_id e \<in> ns \<Longrightarrow> cluster_apply cd (OpAdd e dv) c = Inl (NodeExists (eng_node_id e))"
    "k \<notin> ns \<Longrightarrow> cluster_apply cd (OpMutate k f p u) c = Inl (NodeMissing k)"
  using assms by (auto simp: cluster_of_def node_set_iff add_node_def cluster_mutate_def Let_def)

lemma cluster_new_of: "tick_ms c0 \<noteq> 0 \<Longrightarrow> c0 = cluster_new clock d seed \<Longrightarrow> cluster_of {} c0"
  by (simp add: cluster_of_def cluster_wf_def cluster_new_def node_set_def all_node_ids_def bt_keys_def
      bt_wf_def bt_get_def)

text \<open>
  C24: a cluster script never panics by surprise. Starting from an empty cluster whose tick lasts a number
  of milliseconds a \<open>u64\<close> can hold, any sequence of node additions (of fresh ids and well-formed engines),
  removals, mutations on members, ticks and changes of the interceptor pipeline, whatever the codec and
  the interceptors do to the bytes, runs to its end: no engine panics, no lookup of a node fails and
  \<open>div_ceil\<close> never divides by zero. The members are then those the script says, every engine is
  well-formed and is filed under its own id. Adding an id twice or mutating at a stranger stops the next
  step with that assertion.
\<close>

theorem cluster_never_panics:
  assumes "tick_ms (cluster_new clock d seed :: ('s, 'v) mock_cluster) \<noteq> 0"
    and "ops_valid (ops :: ('s, 'v) cluster_op list) {}"
  shows "\<exists>c. cluster_run cd ops (cluster_new clock d seed) = Inr c \<and> cluster_wf c \<and>
    node_set c = fold op_members ops {} \<and>
    (\<forall>e dv. eng_node_id e \<notin> node_set c \<or> add_node cd e dv c = Inl (NodeExists (eng_node_id e))) \<and>
    (\<forall>k f p u. k \<in> node_set c \<or> cluster_mutate cd k f p u c = Inl (NodeMissing k))"
proof -
  from cluster_run_ok [OF cluster_new_of [OF assms(1) refl] assms(2)] obtain c where
    "cluster_run cd ops (cluster_new clock d seed) = Inr c" and c: "cluster_of (fold op_members ops {}) c"
    by blast
  then show ?thesis using cluster_apply_invalid [OF c] by (auto simp: cluster_of_def)
qed

definition demo_ops :: "(nat, nat) cluster_op list" where
  "demo_ops = [OpAdd (demo_engine ''a'' demo_config) 0, OpAdd (demo_engine ''b'' demo_config) 0,
     OpMutate ''a'' (\<lambda>s. s + 1) (\<lambda>s. s) Immediate, OpTick, OpIntercept (boxed drop_all), OpTick,
     OpRemoveHard ''b'', OpHeal, OpTick]"

theorem cluster_never_panics_witness:
  "\<exists>c. cluster_run demo_codec demo_ops (cluster_new (test_clock_with_base 0 1000000) (from_millis 100) 42) = Inr c \<and>
     node_set c = {''a''}"
proof -
  have "tick_ms (cluster_new (test_clock_with_base 0 1000000) (from_millis 100) 42 :: (nat, nat) mock_cluster) \<noteq> 0"
    by (simp add: tick_ms_def cluster_new_def from_millis_def as_millis_def)
  moreover have "ops_valid demo_ops {}" "fold op_members demo_ops {} = {''a''}"
    by (auto simp: demo_ops_def demo_engine_wf)
  ultimately show ?thesis using cluster_never_panics [of _ _ _ demo_ops demo_codec] by metis
qed

text \<open>
  C25: settling. On a well-formed cluster \<open>settle_with_limit\<close> either returns the first state of the tick
  sequence in which nothing is in flight, scheduled or pending, with the number of ticks it took, at most
  the limit; or it stops with its own assertion, and then none of the states of the first \<open>max_ticks\<close>
  ticks is settled. It never fails in any other way.
\<close>

theorem settle_spec:
  assumes "cluster_of ns c"
  shows "(\<exists>n c'. settle_with_limit cd max_ticks c = Inr (c', of_nat n) \<and> n \<le> unat max_ticks \<and>
            tick_n cd n c = Inr c' \<and> cluster_of ns c' \<and> is_settled c' \<and>
            (\<forall>i<n. \<exists>ci. tick_n cd i c = Inr ci \<and> \<not> is_settled ci)) \<or>
         (settle_with_limit cd max_ticks c = Inl (SettleExceeded max_ticks) \<and>
            (\<forall>i\<le>unat max_ticks. \<exists>ci. tick_n cd i c = Inr ci \<and> \<not> is_settled ci))"
  using settle_loop_spec [OF assms, of cd "unat max_ticks" max_ticks 0] tick_n_ok [OF assms, of cd]
  unfolding settle_with_limit_def less_Suc_eq_le add_0 by metis

theorem settle_spec_witness:
  "\<exists>c. cluster_run demo_codec demo_ops (cluster_new (test_clock_with_base 0 1000000) (from_millis 100) 42) = Inr c \<and>
     (case settle_with_limit demo_codec 5 c of
        Inr (c', n) \<Rightarrow> is_settled c' \<and> n \<le> 5
      | Inl p \<Rightarrow> p = SettleExceeded 5 \<and> \<not> is_settled c)"
proof -
  let ?c0 = "cluster_new (test_clock_with_base 0 1000000) (from_millis 100) 42 :: (nat, nat) mock_cluster"
  have "tick_ms ?c0 \<noteq> 0" by (simp add: tick_ms_def cluster_new_def from_millis_def as_millis_def)
  moreover have "ops_valid demo_ops {}" by (auto simp: demo_ops_def demo_engine_wf)
  ultimately obtain c where run: "cluster_run demo_codec demo_ops ?c0 = Inr c"
    and c: "cluster_of (fold op_members demo_ops {}) c"
    using cluster_run_ok [OF cluster_new_of [OF _ refl]] by blast
  have le: "of_nat n \<le> (5 :: u64)" if "n \<le> 5" for n
    using that by (simp add: word_le_nat_alt unsigned_of_nat take_bit_nat_eq_self)
  from settle_spec [OF c, of demo_codec 5] show ?thesis
    using run le by (auto intro!: exI [of _ c])
qed

subsection \<open>Delays in ticks\<close>

lemma div_ceil_bounds:
  assumes "div_ceil a b = Inr n"
  shows "unat a \<le> unat n * unat b" "unat n * unat b < unat a + unat b"
proof -
  have b: "0 < unat b" using assms by (auto simp: div_ceil_def unat_gt_0 split: if_splits)
  have split: "unat a = unat a div unat b * unat b + unat a mod unat b" by simp
  have mod: "unat a mod unat b < unat b" using b by simp
  have "unat a \<le> unat n * unat b \<and> unat n * unat b < unat a + unat b"
  proof (cases "a mod b = 0")
    case True
    then have "unat a mod unat b = 0" by (metis unat_0 unat_mod)
    moreover have "n = a div b" using assms True by (auto simp: div_ceil_def split: if_splits)
    ultimately show ?thesis using split b by (simp add: unat_div)
  next
    case False
    then have m: "unat a mod unat b \<noteq> 0" by (metis unat_eq_zero unat_mod)
    have "a div b \<noteq> - 1"
    proof
      assume "a div b = - 1"
      then have d: "unat a div unat b = 2 ^ 64 - 1" using unat_div [of a b] by (simp add: unsigned_minus_1_eq_mask mask_eq_exp_minus_1)
      have lt: "unat a < 2 ^ 64" using unsigned_less [of a, where ?'a = nat] by simp
      have "unat b \<noteq> 1" using m by auto
      then have "2 \<le> unat b" using b by simp
      then have "unat a div unat b \<le> unat a div 2" by (simp add: div_le_mono2)
      then show False using d lt by simp
    qed
    moreover have "n = a div b + 1" using assms False by (auto simp: div_ceil_def word_gt_0 split: if_splits)
    ultimately have "unat n = unat a div unat b + 1" by (simp add: unat_inc unat_div)
    then have "unat n * unat b = unat a div unat b * unat b + unat b" by simp
    then show ?thesis using split mod m by linarith
  qed
  then show "unat a \<le> unat n * unat b" "unat n * unat b < unat a + unat b" by auto
qed

lemma delay_ticks_wait:
  assumes "as_millis d < 2 ^ 64" and "delay_ticks d c = Inr n"
  shows "as_millis d \<le> unat n * unat (tick_ms c)" "0 < as_millis d \<Longrightarrow> unat n * unat (tick_ms c) < as_millis d + unat (tick_ms c)"
    "as_millis d = 0 \<Longrightarrow> n = 0"
proof -
  let ?ms = "of_nat (as_millis d) :: u64"
  have ms: "unat ?ms = as_millis d" using assms(1) by (simp add: unsigned_of_nat take_bit_nat_eq_self)
  have zero: "?ms = 0 \<longleftrightarrow> as_millis d = 0" using ms by (metis unat_eq_zero)
  show "as_millis d = 0 \<Longrightarrow> n = 0" using assms(2) by (simp add: delay_ticks_def)
  have "\<exists>k. div_ceil ?ms (tick_ms c) = Inr k \<and> n = max k 1" if "0 < as_millis d"
    using assms(2) zero that by (auto simp: delay_ticks_def Let_def result_bind_def split: sum.splits if_splits)
  moreover have "max k 1 = k" if "div_ceil ?ms (tick_ms c) = Inr k" "0 < as_millis d" for k
  proof -
    have "0 < unat k" using div_ceil_bounds(1) [OF that(1)] that(2) ms by (cases "unat k = 0") auto
    then have "1 \<le> k" by (simp add: word_le_nat_alt)
    then show ?thesis by (simp add: max_def)
  qed
  ultimately have k: "div_ceil ?ms (tick_ms c) = Inr n" if "0 < as_millis d" using that by auto
  from div_ceil_bounds [OF k] ms show "as_millis d \<le> unat n * unat (tick_ms c)"
    "0 < as_millis d \<Longrightarrow> unat n * unat (tick_ms c) < as_millis d + unat (tick_ms c)" by (cases "as_millis d = 0"; simp)+
qed

text \<open>
  A delayed broadcast is not early and less than one tick late. For a delay of fewer than \<open>2 ^ 64\<close> milliseconds the
  cluster computes, without dividing by zero or wrapping, a number of ticks that together last at least the delay and exceed it by
  less than one tick; a delay below one millisecond takes no tick.
\<close>

theorem delay_ticks_bounds:
  assumes "tick_ms c \<noteq> 0" and "as_millis d < 2 ^ 64"
  shows "\<exists>n. delay_ticks d c = Inr n \<and> as_millis d \<le> unat n * unat (tick_ms c) \<and>
    (if as_millis d = 0 then n = 0 else unat n * unat (tick_ms c) < as_millis d + unat (tick_ms c))"
proof -
  have "\<exists>n. delay_ticks d c = Inr n" using assms(1) by (simp add: delay_ticks_def div_ceil_def Let_def)
  then obtain n where "delay_ticks d c = Inr n" by blast
  then show ?thesis using delay_ticks_wait [OF assms(2)] by auto
qed

theorem delay_ticks_bounds_witness:
  "\<exists>n. delay_ticks (from_millis 250) (cluster_new (test_clock_with_base 0 1000000) (from_millis 100) 42 :: (nat, nat) mock_cluster) = Inr n \<and>
     250 \<le> unat n * 100 \<and> unat n * 100 < 350"
  using delay_ticks_bounds [of "cluster_new (test_clock_with_base 0 1000000) (from_millis 100) 42 :: (nat, nat) mock_cluster" "from_millis 250"]
  by (auto simp: tick_ms_def cluster_new_def from_millis_def as_millis_def)

end
