(* ===== verification/Propagation.thy ===== *)
theory Propagation
  imports Cluster
begin

text \<open>
  End to end through \<open>cluster.rs\<close>, \<open>transport.rs\<close> and \<open>engine.rs\<close>: in a cluster at rest with no fault
  injection, one mutation is on every node two ticks later. The first tick finds the broadcast in
  flight but not due; the second delivers it to every other member, and leaves the cluster at rest again.
\<close>

definition node_engine :: "('s, 'v) mock_cluster \<Rightarrow> node_id \<Rightarrow> ('s, 'v) engine option" where
  "node_engine c k = map_option mn_engine (bt_get (mc_nodes c) k)"

definition quiet_nodes :: "('s, 'v) mock_cluster \<Rightarrow> bool" where
  "quiet_nodes c \<longleftrightarrow> (\<forall>k mn. bt_get (mc_nodes c) k = Some mn \<longrightarrow>
     mn_scheduled mn = [] \<and> pending_change_feed_count (mn_engine mn) = 0)"

lemma node_engine_transport [simp]: "node_engine (c\<lparr>mc_transport := t\<rparr>) = node_engine c"
  by (simp add: node_engine_def fun_eq_iff)

lemma is_settled_iff:
  "cluster_wf c \<Longrightarrow> is_settled c \<longleftrightarrow> mt_in_flight (mc_transport c) = [] \<and> quiet_nodes c"
proof -
  assume wf: "cluster_wf c"
  have "bt_get (mc_nodes c) k = Some mn \<longleftrightarrow> (k, mn) \<in> set (mc_nodes c)" for k mn
    using bt_wf_distinct [OF cluster_wfD(1) [OF wf]] by (simp add: bt_get_def map_of_eq_Some_iff)
  then show ?thesis by (auto simp: is_settled_def quiet_nodes_def in_flight_count_def list_all_iff)
qed

lemma cluster_engine_node: "cluster_engine k c = Inr e \<longleftrightarrow> node_engine c k = Some e"
  by (auto simp: cluster_engine_def node_engine_def split: option.splits)

subsection \<open>A tick over quiet nodes\<close>

text \<open>Two clusters with the same engines at rest and the same transport: all that a quiet phase can change are
  the flush counters.\<close>

definition same_quiet :: "('s, 'v) mock_cluster \<Rightarrow> ('s, 'v) mock_cluster \<Rightarrow> bool" where
  "same_quiet c c' \<longleftrightarrow> quiet_nodes c' \<and> node_engine c' = node_engine c \<and> mc_transport c' = mc_transport c"

lemma same_quiet_refl: "quiet_nodes c \<Longrightarrow> same_quiet c c"
  by (simp add: same_quiet_def)

lemma same_quiet_trans: "same_quiet a b \<Longrightarrow> same_quiet b c \<Longrightarrow> same_quiet a c"
  by (simp add: same_quiet_def)

lemma set_node_quiet:
  assumes "cluster_wf c" and "quiet_nodes c" and "bt_get (mc_nodes c) k = Some mn"
    and "mn_engine mn' = mn_engine mn" and "mn_scheduled mn' = []"
  shows "same_quiet c (set_node k mn' c)"
  using assms
  by (auto simp: same_quiet_def quiet_nodes_def node_engine_def set_node_def lookup_simps cluster_wfD fun_eq_iff)

lemma quiet_phase:
  assumes "cluster_of ns c" and "quiet_nodes c" and "set ids = ns"
    and step: "\<And>k c. cluster_of ns c \<Longrightarrow> quiet_nodes c \<Longrightarrow> k \<in> ns \<Longrightarrow>
      \<exists>c'. phase k c = Inr c' \<and> cluster_of ns c' \<and> same_quiet c c'"
  shows "\<exists>c'. fold_result phase ids c = Inr c' \<and> cluster_of ns c' \<and> same_quiet c c'"
proof -
  have "\<exists>c'. fold_result phase ids c = Inr c' \<and> (cluster_of ns c' \<and> same_quiet c c')"
  proof (rule fold_result_invariant [where P = "\<lambda>c'. cluster_of ns c' \<and> same_quiet c c'"])
    fix k c1 assume k: "k \<in> set ids" and c1: "cluster_of ns c1 \<and> same_quiet c c1"
    then have "quiet_nodes c1" by (simp add: same_quiet_def)
    with step [of c1 k] k c1 assms(3) obtain c2 where "phase k c1 = Inr c2" "cluster_of ns c2" "same_quiet c1 c2"
      by blast
    then show "\<exists>c'. phase k c1 = Inr c' \<and> cluster_of ns c' \<and> same_quiet c c'"
      using c1 same_quiet_trans by blast
  qed (use assms same_quiet_refl in blast)
  then show ?thesis by blast
qed

lemma quiet_scheduled:
  assumes "cluster_of ns c" and "quiet_nodes c" and "k \<in> ns"
  shows "\<exists>c'. tick_scheduled cd k c = Inr c' \<and> cluster_of ns c' \<and> same_quiet c c'"
proof -
  obtain mn where mn: "bt_get (mc_nodes c) k = Some mn"
    using assms by (auto simp: cluster_of_def node_set_iff)
  have "mn_scheduled mn = []" using assms(2) mn by (simp add: quiet_nodes_def)
  then have "tick_scheduled cd k c = Inr (set_node k (mn\<lparr>mn_scheduled := []\<rparr>) c)"
    using mn by (simp add: tick_scheduled_def Let_def)
  moreover have "same_quiet c (set_node k (mn\<lparr>mn_scheduled := []\<rparr>) c)"
    using assms mn by (intro set_node_quiet) (auto simp: cluster_of_def)
  ultimately show ?thesis using tick_scheduled_ok [OF assms(1,3), of cd] by auto
qed

lemma quiet_feed:
  assumes "cluster_of ns c" and "quiet_nodes c" and "k \<in> ns"
  shows "\<exists>c'. tick_feed cd k c = Inr c' \<and> cluster_of ns c' \<and> same_quiet c c'"
proof -
  obtain mn where mn: "bt_get (mc_nodes c) k = Some mn"
    using assms by (auto simp: cluster_of_def node_set_iff)
  have q: "mn_scheduled mn = []" "pending_change_feed_count (mn_engine mn) = 0"
    using assms(2) mn by (simp_all add: quiet_nodes_def)
  then have "tick_feed cd k c = Inr (set_node k (mn\<lparr>mn_feed_flush_counter := 0\<rparr>) c)"
    using mn by (simp add: tick_feed_def)
  moreover have "same_quiet c (set_node k (mn\<lparr>mn_feed_flush_counter := 0\<rparr>) c)"
    using assms mn q by (intro set_node_quiet) (auto simp: cluster_of_def)
  ultimately show ?thesis using tick_feed_ok [OF assms(1,3), of cd] by auto
qed

text \<open>Once the deliveries of a tick leave the nodes quiet, the rest of the tick only advances the time.\<close>

lemma quiet_tick:
  assumes "tick_deliver cd c = Inr c1" and "cluster_of ns c1" and "quiet_nodes c1"
  shows "\<exists>c'. tick cd c = Inr c' \<and> cluster_of ns c' \<and> quiet_nodes c' \<and> node_engine c' = node_engine c1 \<and>
    mc_transport c' = advance_tick (mc_transport c1)"
proof -
  have ids: "set (all_node_ids c1) = ns" using assms(2) by (simp add: cluster_of_def node_set_def)
  obtain c2 where 2: "fold_result (tick_scheduled cd) (all_node_ids c1) c1 = Inr c2" "cluster_of ns c2" "same_quiet c1 c2"
    using quiet_phase [OF assms(2,3) ids, of "tick_scheduled cd"] quiet_scheduled by blast
  then have "quiet_nodes c2" by (simp add: same_quiet_def)
  then obtain c3 where 3: "fold_result (tick_feed cd) (all_node_ids c1) c2 = Inr c3" "cluster_of ns c3" "same_quiet c2 c3"
    using quiet_phase [OF 2(2) _ ids, of "tick_feed cd"] quiet_feed by blast
  have "same_quiet c1 c3" using 2(3) 3(3) by (rule same_quiet_trans)
  then show ?thesis
    using assms(1) 2(1) 3(1,2) tick_advance_ok [OF 3(2)]
    by (simp add: tick_def Let_def) (simp add: same_quiet_def tick_advance_def quiet_nodes_def node_engine_def fun_eq_iff)
qed

subsection \<open>A broadcast in flight\<close>

definition copies_for :: "node_id \<Rightarrow> bytes \<Rightarrow> u64 \<Rightarrow> node_id list \<Rightarrow> in_flight_message list" where
  "copies_for from bs t ids =
     map (\<lambda>k. \<lparr>fm_from = from, fm_to = k, fm_data = bs, fm_deliver_at_tick = t\<rparr>) (filter (\<lambda>k. k \<noteq> from) ids)"

lemma broadcast_clean:
  assumes "mt_interceptors t = []"
  shows "mt_in_flight (transport_broadcast cd from msg ids t) =
      mt_in_flight t @ copies_for from (wc_serialize cd msg) (mt_current_tick t + 1) ids"
    and "mt_current_tick (transport_broadcast cd from msg ids t) = mt_current_tick t"
  using assms
  by (induction ids arbitrary: t) (auto simp: transport_broadcast_def Let_def copies_for_def send_clean)

lemma deliver_early:
  assumes "mt_in_flight t = copies_for from bs (mt_current_tick t + 1) ids" and "mt_current_tick t \<noteq> - 1"
  shows "deliver_due cd t = (t, \<lparr>res_delivered = [], res_corrupted = []\<rparr>)"
proof -
  have "\<not> mt_current_tick t + 1 \<le> mt_current_tick t"
    using word_less_inc [OF assms(2)] by simp
  then have "filter (\<lambda>m. fm_deliver_at_tick m \<le> mt_current_tick t) (mt_in_flight t) = []"
    "filter (\<lambda>m. \<not> fm_deliver_at_tick m \<le> mt_current_tick t) (mt_in_flight t) = mt_in_flight t"
    unfolding assms(1) copies_for_def by (simp_all add: filter_map comp_def)
  then show ?thesis by (simp add: deliver_due_eq due_def)
qed

lemma deliver_copies:
  assumes "mt_in_flight t = copies_for from (wc_serialize cd msg) (mt_current_tick t) ids"
    and "wc_deserialize cd (wc_serialize cd msg) = Inr msg"
  shows "deliver_due cd t = (t\<lparr>mt_in_flight := []\<rparr>, \<lparr>res_delivered =
    map (\<lambda>k. \<lparr>dm_from = from, dm_to = k, dm_message = msg\<rparr>) (filter (\<lambda>k. k \<noteq> from) ids), res_corrupted = []\<rparr>)"
proof -
  have "filter (\<lambda>m. fm_deliver_at_tick m \<le> mt_current_tick t) (mt_in_flight t) = mt_in_flight t"
    "filter (\<lambda>m. \<not> fm_deliver_at_tick m \<le> mt_current_tick t) (mt_in_flight t) = []"
    unfolding assms(1) copies_for_def by (simp_all add: filter_map comp_def)
  moreover have "rights (map (due_outcome cd) (mt_in_flight t)) =
      map (\<lambda>k. \<lparr>dm_from = from, dm_to = k, dm_message = msg\<rparr>) (filter (\<lambda>k. k \<noteq> from) ids)"
    "lefts (map (due_outcome cd) (mt_in_flight t)) = []"
    unfolding assms(1) copies_for_def by (induction ids) (simp_all add: due_outcome_def assms(2))
  ultimately show ?thesis by (simp add: deliver_due_eq due_def)
qed

subsection \<open>One round of snapshot deliveries\<close>

abbreviation round_of :: "node_id \<Rightarrow> sync_message \<Rightarrow> node_id list \<Rightarrow> delivered_message list" where
  "round_of from m ids \<equiv> map (\<lambda>k. \<lparr>dm_from = from, dm_to = k, dm_message = Sync m\<rparr>) ids"

lemma deliver_snapshot:
  assumes "cluster_of ns c" and "quiet_nodes c" and "k \<in> ns" and "node_engine c k = Some e"
    and "m = FullSnapshot name src gen wire data"
  shows "\<exists>c'. deliver_to_node \<lparr>dm_from = from, dm_to = k, dm_message = Sync m\<rparr> (c, []) = Inr (c', []) \<and>
    cluster_of ns c' \<and> quiet_nodes c' \<and> mc_transport c' = mc_transport c \<and> mc_clock c' = mc_clock c \<and>
    node_engine c' = (node_engine c)(k \<mapsto> fst (handle_full_snapshot (cluster_reading c) name src gen wire data e))"
proof -
  obtain mn where mn: "bt_get (mc_nodes c) k = Some mn" "mn_engine mn = e"
    using assms(4) by (auto simp: node_engine_def)
  let ?r = "handle_full_snapshot (cluster_reading c) name src gen wire data e"
  let ?c = "set_node k (mn\<lparr>mn_engine := fst ?r\<rparr>) c"
  have "snd ?r = []" by (simp add: frame_simps)
  then have del: "deliver_to_node \<lparr>dm_from = from, dm_to = k, dm_message = Sync m\<rparr> (c, []) = Inr (?c, [])"
    using mn assms(5) by (cases ?r) (simp add: deliver_to_node_def)
  have "cluster_of ns ?c"
    using deliver_to_node_ok [of ns "(c, [])" "\<lparr>dm_from = from, dm_to = k, dm_message = Sync m\<rparr>"] assms(1) del
    by simp
  moreover have "pending_change_feed_count (fst ?r) = pending_change_feed_count e"
    by (simp add: pending_change_feed_count_def frame_simps)
  then have "quiet_nodes ?c"
    using assms(1,2) mn by (auto simp: quiet_nodes_def set_node_def lookup_simps cluster_of_def cluster_wfD)
  moreover have "node_engine ?c = (node_engine c)(k \<mapsto> fst ?r)"
    using assms(1) by (auto simp: node_engine_def set_node_def lookup_simps cluster_of_def cluster_wfD)
  ultimately show ?thesis using del by (intro exI [of _ ?c]) (simp add: set_node_def)
qed

lemma deliver_round:
  assumes "cluster_of ns c" and "quiet_nodes c" and "set ids \<subseteq> ns" and "distinct ids"
    and "m = FullSnapshot name src gen wire data"
  shows "\<exists>c'. fold_result deliver_to_node (round_of from m ids) (c, []) = Inr (c', []) \<and>
    cluster_of ns c' \<and> quiet_nodes c' \<and> mc_transport c' = mc_transport c \<and>
    (\<forall>k. node_engine c' k = (if k \<in> set ids
       then map_option (\<lambda>e. fst (handle_full_snapshot (cluster_reading c) name src gen wire data e)) (node_engine c k)
       else node_engine c k))"
  using assms(1-4)
proof (induction ids arbitrary: c)
  case (Cons k ids)
  then have k: "k \<in> ns" by simp
  then obtain e where e: "node_engine c k = Some e"
    using Cons.prems(1) by (auto simp: cluster_of_def node_set_iff node_engine_def)
  obtain c1 where 1: "deliver_to_node \<lparr>dm_from = from, dm_to = k, dm_message = Sync m\<rparr> (c, []) = Inr (c1, [])"
    "cluster_of ns c1" "quiet_nodes c1" "mc_transport c1 = mc_transport c" "mc_clock c1 = mc_clock c"
    "node_engine c1 = (node_engine c)(k \<mapsto> fst (handle_full_snapshot (cluster_reading c) name src gen wire data e))"
    using deliver_snapshot [OF Cons.prems(1,2) k e assms(5)] by blast
  have "cluster_reading c1 = cluster_reading c" using 1(5) by (simp add: cluster_reading_def)
  with Cons.IH [OF 1(2,3)] Cons.prems(3,4) show ?case
    using 1 e by (auto simp: fun_eq_iff)
qed simp

subsection \<open>From a mutation to every view\<close>

text \<open>The message an immediate mutation broadcasts.\<close>

definition mutation_snapshot :: "('s \<Rightarrow> 's) \<Rightarrow> ('s \<Rightarrow> 'v) \<Rightarrow> ('s, 'v) engine \<Rightarrow> sync_message" where
  "mutation_snapshot f p e = FullSnapshot (eng_state_name e) (eng_node_id e) (age_inc (so_generation (eng_state e)))
     (eng_wire_version e) (eng_serialize_view e (p (f (so_value (eng_state e)))))"

text \<open>A receiver that is ready for that message: it replicates the same state, counts the sender as a member,
  decodes the view, and holds nothing newer.\<close>

definition ready_for :: "('s \<Rightarrow> 's) \<Rightarrow> ('s \<Rightarrow> 'v) \<Rightarrow> ('s, 'v) engine \<Rightarrow> ('s, 'v) engine \<Rightarrow> bool" where
  "ready_for f p owner e \<longleftrightarrow> eng_state_name e = eng_state_name owner \<and>
     eng_should_accept_from e (eng_node_id owner) \<and>
     (let v = p (f (so_value (eng_state owner)))
      in eng_deserialize_view e (eng_serialize_view owner v) (eng_wire_version owner) = Inr v) \<and>
     (case eng_get_view e (eng_node_id owner) of
        None \<Rightarrow> True
      | Some v \<Rightarrow> sv_generation v < age_inc (so_generation (eng_state owner)))"

text \<open>The view of the mutated state at its new generation.\<close>

definition shows_mutation :: "('s \<Rightarrow> 's) \<Rightarrow> ('s \<Rightarrow> 'v) \<Rightarrow> ('s, 'v) engine \<Rightarrow> ('s, 'v) engine \<Rightarrow> bool" where
  "shows_mutation f p owner e \<longleftrightarrow> content_of (eng_shard e) (eng_node_id owner) =
     Some (age_inc (so_generation (eng_state owner)), p (f (so_value (eng_state owner))))"

lemma ready_receives:
  assumes "engine_wf e" and "ready_for f p owner e"
  shows "shows_mutation f p owner (fst (handle_full_snapshot c (eng_state_name owner) (eng_node_id owner)
    (age_inc (so_generation (eng_state owner))) (eng_wire_version owner)
    (eng_serialize_view owner (p (f (so_value (eng_state owner))))) e))"
proof -
  have "vm_wf (sh_views (eng_shard e))" using assms(1) by (simp add: engine_wfD shard_wf_vm)
  then show ?thesis
    using assms(2)
    by (auto simp: ready_for_def shows_mutation_def full_snapshot_shard content_of_accept_snapshot on_inbound_def
        eng_should_accept_from_def eng_get_view_def Let_def split: option.splits)
qed

lemma mutation_own_view:
  assumes "engine_wf e" and "mutate c f p u e = (e', r)"
  shows "shows_mutation f p e e'"
  using mutate_own_content [OF assms] by (simp add: shows_mutation_def)

lemma mutation_in_flight:
  assumes "cluster_of ns c" and "is_settled c" and "node_engine c k = Some owner"
    and "mt_interceptors (mc_transport c) = []"
  shows "\<exists>c1 owner' ids. cluster_mutate cd k f p Immediate c = Inr c1 \<and> cluster_of ns c1 \<and> quiet_nodes c1 \<and>
    node_engine c1 = (node_engine c)(k \<mapsto> owner') \<and> shows_mutation f p owner owner' \<and> set ids = ns \<and> distinct ids \<and>
    mt_current_tick (mc_transport c1) = mt_current_tick (mc_transport c) \<and>
    mt_in_flight (mc_transport c1) = copies_for k (wc_serialize cd (Sync (mutation_snapshot f p owner)))
      (mt_current_tick (mc_transport c) + 1) ids"
proof -
  have wf: "cluster_wf c" using assms(1) by (simp add: cluster_of_def)
  have quiet: "quiet_nodes c" "mt_in_flight (mc_transport c) = []" using assms(2) is_settled_iff [OF wf] by auto
  obtain mn where mn: "bt_get (mc_nodes c) k = Some mn" "mn_engine mn = owner"
    using assms(3) by (auto simp: node_engine_def)
  note own = cluster_ofD [OF assms(1) mn(1), unfolded mn(2)]
  obtain owner' r where mu: "mutate (cluster_reading c) f p Immediate owner = (owner', r)" by fastforce
  have acts: "mr_actions r = [BroadcastSync (mutation_snapshot f p owner)]"
    and feed: "eng_change_feed owner' = eng_change_feed owner"
    using mutate_acts [OF mu] by (simp_all add: mutation_snapshot_def)
  have own': "engine_wf owner'" "eng_node_id owner' = k"
    using own mu engine_params_node [OF mutate_frame(3) [of "cluster_reading c" f p Immediate owner]]
      mutate_wf(1) [of owner "cluster_reading c" f p Immediate] by simp_all
  let ?c0 = "set_node k (mn\<lparr>mn_engine := owner'\<rparr>) c"
  have c0: "cluster_of ns ?c0"
    by (rule cluster_of_set_existing [OF assms(1) mn(1)]) (simp_all add: own')
  then have ids: "set (all_node_ids ?c0) = ns" "distinct (all_node_ids ?c0)"
    by (auto simp: cluster_of_def node_set_def all_node_ids_def cluster_wfD bt.distinct_law)
  let ?c1 = "?c0\<lparr>mc_transport := transport_broadcast cd k (Sync (mutation_snapshot f p owner)) (all_node_ids ?c0)
    (mc_transport c)\<rparr>"
  have "cluster_mutate cd k f p Immediate c = Inr ?c1"
    using mn mu acts by (simp add: cluster_mutate_def route_actions_def Let_def) (simp add: set_node_def)
  moreover have "quiet_nodes ?c1"
    using quiet(1) mn feed wf
    by (auto simp: quiet_nodes_def set_node_def lookup_simps cluster_wfD pending_change_feed_count_def)
  moreover have "node_engine ?c1 = (node_engine c)(k \<mapsto> owner')"
    using wf by (auto simp: node_engine_def set_node_def lookup_simps cluster_wfD)
  ultimately show ?thesis
    using c0 ids mutation_own_view [OF own(1) mu] quiet(2) broadcast_clean [OF assms(4)]
    by (intro exI [of _ ?c1] exI [of _ owner'] exI [of _ "all_node_ids ?c0"]) simp
qed

lemma tick_in_flight:
  assumes "cluster_of ns c" and "quiet_nodes c" and "mt_current_tick (mc_transport c) \<noteq> - 1"
    and "mt_in_flight (mc_transport c) = copies_for k bs (mt_current_tick (mc_transport c) + 1) ids"
  shows "\<exists>c'. tick cd c = Inr c' \<and> cluster_of ns c' \<and> quiet_nodes c' \<and> node_engine c' = node_engine c \<and>
    mc_transport c' = advance_tick (mc_transport c)"
proof (rule quiet_tick [OF _ assms(1,2)])
  show "tick_deliver cd c = Inr c"
    using deliver_early [OF assms(4,3), of cd] by (simp add: tick_deliver_def route_all_def)
qed

lemma tick_arrives:
  assumes "cluster_of ns c" and "quiet_nodes c" and "set ids = ns" and "distinct ids"
    and "wc_deserialize cd (wc_serialize cd (Sync m)) = Inr (Sync m)"
    and "mt_in_flight (mc_transport c) = copies_for k (wc_serialize cd (Sync m)) (mt_current_tick (mc_transport c)) ids"
    and m: "m = FullSnapshot name src gen wire data"
  shows "\<exists>c' clock. tick cd c = Inr c' \<and> cluster_of ns c' \<and> is_settled c' \<and>
    (\<forall>j. node_engine c' j = (if j \<in> ns - {k}
       then map_option (\<lambda>e. fst (handle_full_snapshot clock name src gen wire data e)) (node_engine c j)
       else node_engine c j))"
proof -
  let ?c = "c\<lparr>mc_transport := (mc_transport c)\<lparr>mt_in_flight := []\<rparr>\<rparr>"
  have q: "quiet_nodes ?c" "cluster_of ns ?c" "node_engine ?c = node_engine c"
    using assms(1,2) by (simp_all add: quiet_nodes_def node_engine_def fun_eq_iff)
  have sub: "set (filter (\<lambda>j. j \<noteq> k) ids) \<subseteq> ns" "distinct (filter (\<lambda>j. j \<noteq> k) ids)" using assms(3,4) by auto
  obtain c1 where 1: "fold_result deliver_to_node (round_of k m (filter (\<lambda>j. j \<noteq> k) ids)) (?c, []) = Inr (c1, [])"
    "cluster_of ns c1" "quiet_nodes c1" "mc_transport c1 = mc_transport ?c"
    "\<forall>j. node_engine c1 j = (if j \<in> set (filter (\<lambda>j. j \<noteq> k) ids)
       then map_option (\<lambda>e. fst (handle_full_snapshot (cluster_reading ?c) name src gen wire data e)) (node_engine ?c j)
       else node_engine ?c j)"
    using deliver_round [OF q(2,1) sub m, of k] by blast
  have "tick_deliver cd c = Inr c1"
    using deliver_copies [OF assms(6,5)] 1(1) by (simp add: tick_deliver_def route_all_def)
  from quiet_tick [OF this 1(2,3)] obtain c2 where 2: "tick cd c = Inr c2" "cluster_of ns c2" "quiet_nodes c2"
    "node_engine c2 = node_engine c1" "mc_transport c2 = advance_tick (mc_transport c1)" by blast
  have "is_settled c2" using 2(2,3,5) 1(4) is_settled_iff [of c2] by (simp add: cluster_of_def advance_tick_def)
  then show ?thesis using 1(5) 2 q(3) assms(3) by (intro exI [of _ c2] exI [of _ "cluster_reading ?c"]) simp
qed

text \<open>The engines two ticks after the mutation: the sender has mutated, every other member has handled
  the snapshot.\<close>

lemma mutation_two_ticks:
  assumes "cluster_of ns c" and "is_settled c" and "node_engine c k = Some owner"
    and "mt_interceptors (mc_transport c) = []" and "mt_current_tick (mc_transport c) \<noteq> - 1"
    and "wc_deserialize cd (wc_serialize cd (Sync (mutation_snapshot f p owner))) = Inr (Sync (mutation_snapshot f p owner))"
  shows "\<exists>c1 c3 owner' clock. cluster_mutate cd k f p Immediate c = Inr c1 \<and> tick_n cd 2 c1 = Inr c3 \<and>
    cluster_of ns c3 \<and> is_settled c3 \<and> shows_mutation f p owner owner' \<and>
    (\<forall>j. node_engine c3 j = (if j \<in> ns - {k}
       then map_option (\<lambda>e. fst (handle_full_snapshot clock (eng_state_name owner) (eng_node_id owner)
         (age_inc (so_generation (eng_state owner))) (eng_wire_version owner)
         (eng_serialize_view owner (p (f (so_value (eng_state owner))))) e)) (node_engine c j)
       else ((node_engine c)(k \<mapsto> owner')) j))"
proof -
  obtain c1 owner' ids where 1: "cluster_mutate cd k f p Immediate c = Inr c1" "cluster_of ns c1" "quiet_nodes c1"
    "node_engine c1 = (node_engine c)(k \<mapsto> owner')" "shows_mutation f p owner owner'" "set ids = ns" "distinct ids"
    "mt_current_tick (mc_transport c1) = mt_current_tick (mc_transport c)"
    "mt_in_flight (mc_transport c1) = copies_for k (wc_serialize cd (Sync (mutation_snapshot f p owner)))
      (mt_current_tick (mc_transport c) + 1) ids"
    using mutation_in_flight [OF assms(1-4)] by metis
  obtain c2 where 2: "tick cd c1 = Inr c2" "cluster_of ns c2" "quiet_nodes c2" "node_engine c2 = node_engine c1"
    "mc_transport c2 = advance_tick (mc_transport c1)"
    using tick_in_flight [OF 1(2,3), of k _ ids cd] assms(5) 1(8,9) by auto
  have "mt_in_flight (mc_transport c2) = copies_for k (wc_serialize cd (Sync (mutation_snapshot f p owner)))
      (mt_current_tick (mc_transport c2)) ids"
    by (simp add: 2(5) advance_tick_def 1(8,9))
  from tick_arrives [OF 2(2,3) 1(6,7) assms(6) this mutation_snapshot_def] obtain c3 clock where
    3: "tick cd c2 = Inr c3" "cluster_of ns c3" "is_settled c3"
    "\<forall>j. node_engine c3 j = (if j \<in> ns - {k}
       then map_option (\<lambda>e. fst (handle_full_snapshot clock (eng_state_name owner) (eng_node_id owner)
         (age_inc (so_generation (eng_state owner))) (eng_wire_version owner)
         (eng_serialize_view owner (p (f (so_value (eng_state owner))))) e)) (node_engine c2 j)
       else node_engine c2 j)" by blast
  then show ?thesis
    using 1(1,4,5) 2(1,4)
    by (intro exI [of _ c1] exI [of _ c3] exI [of _ owner'] exI [of _ clock]) (simp add: numeral_2_eq_2)
qed

text \<open>
  A mutation reaches every member in two ticks, if every other member is ready for it. Take a settled cluster without fault injection,
  whose wire codec returns the broadcast message as it was, and mutate one member with urgency
  \<open>Immediate\<close>. If every other member is ready for the message (it replicates the same state, counts the
  sender as a member, decodes the view and holds nothing newer), then after two ticks the cluster is settled again with the same
  members, and every member, the mutated one included, shows the mutated state at its new generation.
\<close>

lemma mutation_propagates:
  assumes "cluster_of ns c" and "is_settled c" and "cluster_engine k c = Inr owner"
    and "mt_interceptors (mc_transport c) = []" and "mt_current_tick (mc_transport c) \<noteq> - 1"
    and "wc_deserialize cd (wc_serialize cd (Sync (mutation_snapshot f p owner))) = Inr (Sync (mutation_snapshot f p owner))"
    and "\<forall>j \<in> ns - {k}. \<forall>e. cluster_engine j c = Inr e \<longrightarrow> ready_for f p owner e"
  shows "\<exists>c1 c2. cluster_mutate cd k f p Immediate c = Inr c1 \<and> tick_n cd 2 c1 = Inr c2 \<and>
    is_settled c2 \<and> node_set c2 = ns \<and>
    (\<forall>j \<in> ns. \<exists>e v. cluster_engine j c2 = Inr e \<and> eng_get_view e k = Some v \<and>
      sv_generation v = age_inc (so_generation (eng_state owner)) \<and>
      sv_value v = p (f (so_value (eng_state owner))))"
proof -
  note owner = assms(3) [unfolded cluster_engine_node]
  have own: "eng_node_id owner = k"
    using owner cluster_ofD(2) [OF assms(1)] by (auto simp: node_engine_def)
  obtain c1 c3 owner' clock where run: "cluster_mutate cd k f p Immediate c = Inr c1" "tick_n cd 2 c1 = Inr c3"
    "cluster_of ns c3" "is_settled c3" "shows_mutation f p owner owner'"
    and engines: "\<forall>j. node_engine c3 j = (if j \<in> ns - {k}
       then map_option (\<lambda>e. fst (handle_full_snapshot clock (eng_state_name owner) (eng_node_id owner)
         (age_inc (so_generation (eng_state owner))) (eng_wire_version owner)
         (eng_serialize_view owner (p (f (so_value (eng_state owner))))) e)) (node_engine c j)
       else ((node_engine c)(k \<mapsto> owner')) j)"
    using mutation_two_ticks [OF assms(1,2) owner assms(4-6)] by metis
  have "\<exists>e. node_engine c3 j = Some e \<and> shows_mutation f p owner e" if j: "j \<in> ns" for j
  proof (cases "j = k")
    case False
    obtain e where e: "node_engine c j = Some e"
      using j assms(1) by (auto simp: cluster_of_def node_set_iff node_engine_def)
    then have "engine_wf e" using cluster_ofD(1) [OF assms(1)] by (auto simp: node_engine_def)
    moreover have "ready_for f p owner e" using assms(7) j False e by (auto simp: cluster_engine_node)
    ultimately show ?thesis using ready_receives engines e j False by fastforce
  qed (use run(5) engines in simp)
  moreover have "shows_mutation f p owner e \<longleftrightarrow> (\<exists>v. eng_get_view e k = Some v \<and>
      sv_generation v = age_inc (so_generation (eng_state owner)) \<and> sv_value v = p (f (so_value (eng_state owner))))" for e
    by (auto simp: shows_mutation_def content_of_def own eng_get_view_def)
  moreover have "node_set c3 = ns" using run(3) by (simp add: cluster_of_def)
  ultimately show ?thesis using run(1,2,4) unfolding cluster_engine_node by metis
qed

end
