(* ===== verification/Membership.thy ===== *)
theory Membership
  imports Cluster
begin

text \<open>
  Membership and acceptance in the mock cluster of \<open>cluster.rs\<close>: no member counts another member as departed. Departures are
  recorded by the engines of \<open>engine.rs\<close>, in \<open>lifecycle_logic.rs\<close>; only the removal of a node adds to the record, and
  adding the node again clears it everywhere.
\<close>

abbreviation departed :: "('s, 'v) engine \<Rightarrow> node_id set" where
  "departed e \<equiv> ll_departed_nodes (eng_lifecycle e)"

text \<open>A cluster of the members \<open>ns\<close> none of which counts a node of \<open>D\<close> as departed.\<close>

definition trusts :: "node_id set \<Rightarrow> node_id set \<Rightarrow> ('s, 'v) mock_cluster \<Rightarrow> bool" where
  "trusts ns D c \<longleftrightarrow> cluster_of ns c \<and> (\<forall>k mn. bt_get (mc_nodes c) k = Some mn \<longrightarrow> departed (mn_engine mn) \<inter> D = {})"

lemma trustsD:
  assumes "trusts ns D c"
  shows "cluster_of ns c" and "bt_get (mc_nodes c) k = Some mn \<Longrightarrow> departed (mn_engine mn) \<inter> D = {}"
  using assms by (simp_all add: trusts_def)

lemma trusts_transport [simp]: "trusts ns D (c\<lparr>mc_transport := t\<rparr>) = trusts ns D c"
  by (simp add: trusts_def)

lemma trusts_corrupted [simp]: "trusts ns D (c\<lparr>mc_corrupted_count := n\<rparr>) = trusts ns D c"
  by (simp add: trusts_def)

lemma trusts_set:
  assumes "trusts ns D c" and "bt_get (mc_nodes c) k = Some mn"
    and "engine_wf (mn_engine mn')" "eng_node_id (mn_engine mn') = k" "departed (mn_engine mn') \<subseteq> departed (mn_engine mn)"
  shows "trusts ns D (set_node k mn' c)"
proof -
  have "cluster_of ns (set_node k mn' c)"
    by (rule cluster_of_set_existing [OF trustsD(1) [OF assms(1)] assms(2-4)])
  moreover have "cluster_wf c" using assms(1) by (simp add: trusts_def cluster_of_def)
  ultimately show ?thesis
    using trustsD(2) [OF assms(1)] assms(2,5)
    by (auto simp: trusts_def set_node_def lookup_simps cluster_wfD split: if_splits)
qed

subsection \<open>Routing, ticks and mutations record no departure\<close>

lemma route_action_trusts:
  assumes "route_action cd ids from a c = Inr c'" and "trusts ns D c" shows "trusts ns D c'"
proof (cases a)
  case (ScheduleDelayed d m)
  obtain n where "delay_ticks d c = Inr n" using delay_ticks_ok [OF trustsD(1) [OF assms(2)]] by blast
  then show ?thesis
    using assms ScheduleDelayed cluster_ofD [OF trustsD(1) [OF assms(2)]]
    by (auto split: option.splits intro: trusts_set)
qed (use assms in auto)

lemma route_actions_trusts: "route_actions cd from acts c = Inr c' \<Longrightarrow> trusts ns D c \<Longrightarrow> trusts ns D c'"
  unfolding route_actions_def Let_def
  by (rule fold_result_keeps [where P = "trusts ns D"]) (auto intro: route_action_trusts)

lemma route_all_trusts: "route_all cd pending c = Inr c' \<Longrightarrow> trusts ns D c \<Longrightarrow> trusts ns D c'"
  unfolding route_all_def
  by (rule fold_result_keeps [where P = "trusts ns D"]) (auto intro: route_actions_trusts)

lemma deliver_trusts:
  assumes "deliver_to_node msg acc = Inr acc'" and "trusts ns D (fst acc)"
  shows "trusts ns D (fst acc')"
proof (cases "bt_get (mc_nodes (fst acc)) (dm_to msg)")
  case (Some mn)
  note ok = cluster_ofD [OF trustsD(1) [OF assms(2)] Some]
  obtain e acts where e: "handle_inbound (cluster_reading (fst acc)) (dm_message msg) (mn_engine mn) = Inr (e, acts)"
    "engine_wf e" "eng_node_id e = dm_to msg" "eng_lifecycle e = eng_lifecycle (mn_engine mn)"
    using inbound_ok [OF ok(1)] ok(2) engine_params_node by metis
  have "trusts ns D (set_node (dm_to msg) (mn\<lparr>mn_engine := e\<rparr>) (fst acc))"
    by (rule trusts_set [OF assms(2) Some]) (simp_all add: e)
  then show ?thesis using assms(1) Some e(1) by (cases acc) (auto simp: deliver_to_node_def)
qed (use assms in \<open>cases acc; simp add: deliver_to_node_def\<close>)

lemma tick_deliver_trusts:
  assumes "tick_deliver cd c = Inr c'" and "trusts ns D c" shows "trusts ns D c'"
proof -
  obtain t r where dd: "deliver_due cd (mc_transport c) = (t, r)" by fastforce
  let ?c = "c\<lparr>mc_transport := t, mc_corrupted_count := mc_corrupted_count c + of_nat (length (res_corrupted r))\<rparr>"
  obtain c1 pending where f: "fold_result deliver_to_node (res_delivered r) (?c, []) = Inr (c1, pending)"
    and route: "route_all cd pending c1 = Inr c'"
    using assms(1) dd by (auto simp: tick_deliver_def result_bind_def split: sum.splits prod.splits)
  have "trusts ns D (fst (c1, pending))"
    by (rule fold_result_keeps [where P = "\<lambda>acc. trusts ns D (fst acc)", OF f])
      (use assms(2) deliver_trusts in auto)
  then show ?thesis using route_all_trusts [OF route] by simp
qed

lemma broadcasts_trust:
  "trusts ns D c \<Longrightarrow> trusts ns D (fold (\<lambda>a c. c\<lparr>mc_transport := f a c\<rparr>) as c)"
  by (induction as arbitrary: c) auto

lemma scheduled_trusts:
  assumes "tick_scheduled cd k c = Inr c'" and "trusts ns D c" shows "trusts ns D c'"
proof -
  obtain mn where mn: "bt_get (mc_nodes c) k = Some mn"
    using assms(1) by (auto simp: tick_scheduled_def split: option.splits)
  have "trusts ns D (set_node k (mn\<lparr>mn_scheduled := as\<rparr>) c)" for as
    by (rule trusts_set [OF assms(2) mn]) (simp_all add: cluster_ofD [OF trustsD(1) [OF assms(2)] mn])
  then show ?thesis using assms(1) mn by (auto simp: tick_scheduled_def Let_def intro!: broadcasts_trust)
qed

lemma feed_trusts:
  assumes "tick_feed cd k c = Inr c'" and "trusts ns D c" shows "trusts ns D c'"
proof -
  obtain mn where mn: "bt_get (mc_nodes c) k = Some mn"
    using assms(1) by (auto simp: tick_feed_def split: option.splits)
  note ok = cluster_ofD [OF trustsD(1) [OF assms(2)] mn]
  have set: "trusts ns D (set_node k mn' c)"
    if "mn_engine mn' \<in> {mn_engine mn, fst (flush_change_feed (mn_engine mn))}" for mn'
    by (rule trusts_set [OF assms(2) mn])
      (use that ok flush_ok [OF ok(1)] engine_params_node [OF flush_frame(3) [of "mn_engine mn"]] in \<open>auto simp: frame_simps\<close>)
  show ?thesis
    using assms(1) mn
    by (auto simp: tick_feed_def Let_def case_prod_unfold intro!: set split: if_splits option.splits)
qed

lemma tick_trusts:
  assumes "tick cd c = Inr c'" and "trusts ns D c" shows "trusts ns D c'"
proof -
  obtain c1 c2 c3 where c1: "tick_deliver cd c = Inr c1"
    and c2: "fold_result (tick_scheduled cd) (all_node_ids c1) c1 = Inr c2"
    and c3: "fold_result (tick_feed cd) (all_node_ids c1) c2 = Inr c3" and c': "c' = tick_advance c3"
    using assms(1) by (auto simp: tick_def Let_def result_bind_def split: sum.splits)
  have "trusts ns D c2"
    by (rule fold_result_keeps [where P = "trusts ns D", OF c2 tick_deliver_trusts [OF c1 assms(2)]]) (rule scheduled_trusts)
  then have "trusts ns D c3"
    by (rule fold_result_keeps [where P = "trusts ns D", OF c3]) (rule feed_trusts)
  then show ?thesis using tick_advance_ok [of ns c3] by (simp add: trusts_def c') (simp add: tick_advance_def)
qed

lemma mutate_trusts:
  assumes "cluster_mutate cd k f p u c = Inr c'" and "trusts ns D c" shows "trusts ns D c'"
proof -
  obtain mn where mn: "bt_get (mc_nodes c) k = Some mn"
    using assms(1) by (auto simp: cluster_mutate_def split: option.splits)
  note ok = cluster_ofD [OF trustsD(1) [OF assms(2)] mn]
  let ?e = "fst (mutate (cluster_reading c) f p u (mn_engine mn))"
  have "trusts ns D (set_node k (mn\<lparr>mn_engine := ?e\<rparr>) c)"
    by (rule trusts_set [OF assms(2) mn])
      (use ok mutate_wf(1) [OF ok(1)] engine_params_node [OF mutate_frame(3) [of "cluster_reading c" f p u "mn_engine mn"]]
        in \<open>simp_all add: mutate_frame\<close>)
  then show ?thesis
    using assms(1) mn by (auto simp: cluster_mutate_def Let_def case_prod_unfold intro: route_actions_trusts)
qed

subsection \<open>Joins clear the record, removals keep it off the members\<close>

lemma announce_trusts:
  assumes "announce_to_existing n dv k acc = Inr acc'" and "trusts ns D (fst acc)"
  shows "trusts ns D (fst acc') \<and>
    (\<forall>j mn'. bt_get (mc_nodes (fst acc')) j = Some mn' \<longrightarrow> n \<in> departed (mn_engine mn') \<longrightarrow>
      j \<noteq> k \<and> (\<exists>mn. bt_get (mc_nodes (fst acc)) j = Some mn \<and> n \<in> departed (mn_engine mn)))"
proof -
  obtain mn where mn: "bt_get (mc_nodes (fst acc)) k = Some mn"
    using assms(1) by (cases acc) (auto simp: announce_to_existing_def split: option.splits)
  note ok = cluster_ofD [OF trustsD(1) [OF assms(2)] mn]
  obtain e acts where e: "on_node_joined (cluster_reading (fst acc)) n dv (mn_engine mn) = Inr (e, acts)"
    "engine_wf e" "eng_node_id e = k" "departed e = departed (mn_engine mn) - {n}"
    using joined_ok [OF ok(1)] ok(2) engine_params_node by metis
  have acc': "fst acc' = set_node k (mn\<lparr>mn_engine := e\<rparr>) (fst acc)"
    using assms(1) mn e(1) by (cases acc) (auto simp: announce_to_existing_def)
  have wf: "cluster_wf (fst acc)" using trustsD(1) [OF assms(2)] by (simp add: cluster_of_def)
  have "trusts ns D (set_node k (mn\<lparr>mn_engine := e\<rparr>) (fst acc))"
    by (rule trusts_set [OF assms(2) mn]) (use e in auto)
  then show ?thesis
    unfolding acc' using e(4) wf by (auto simp: set_node_def lookup_simps cluster_wfD split: if_splits)
qed

lemma announce_all_trusts:
  assumes "fold_result (announce_to_existing n dv) ks acc = Inr acc'" and "trusts ns D (fst acc)"
  shows "trusts ns D (fst acc') \<and>
    (\<forall>j mn'. bt_get (mc_nodes (fst acc')) j = Some mn' \<longrightarrow> n \<in> departed (mn_engine mn') \<longrightarrow>
      j \<notin> set ks \<and> (\<exists>mn. bt_get (mc_nodes (fst acc)) j = Some mn \<and> n \<in> departed (mn_engine mn)))"
  using assms
proof (induction ks arbitrary: acc)
  case (Cons k ks)
  obtain acc1 where 1: "announce_to_existing n dv k acc = Inr acc1"
    "fold_result (announce_to_existing n dv) ks acc1 = Inr acc'"
    using Cons.prems(1) by (auto simp: result_bind_def split: sum.splits)
  note a = announce_trusts [OF 1(1) Cons.prems(2)]
  show ?case using Cons.IH [OF 1(2)] a by fastforce
qed simp

lemma announce_existing_departed:
  assumes "announce_existing c dv k acc = Inr acc'" and "engine_wf (fst acc) \<and> eng_node_id (fst acc) = n \<and> departed (fst acc) = {}"
  shows "engine_wf (fst acc') \<and> eng_node_id (fst acc') = n \<and> departed (fst acc') = {}"
proof -
  obtain e acts where "on_node_joined c k dv (fst acc) = Inr (e, acts)" "engine_wf e" "eng_node_id e = n" "departed e = {}"
    using joined_ok [of "fst acc" c k dv] assms(2) engine_params_node by (metis empty_Diff)
  then show ?thesis using assms(1) by (cases acc) (auto simp: announce_existing_def)
qed

lemma add_trusts:
  assumes "add_node cd e dv c = Inr c'" and "trusts ns ns c" and "engine_wf e" and "departed e = {}"
  shows "trusts (insert (eng_node_id e) ns) (insert (eng_node_id e) ns) c'"
proof -
  let ?n = "eng_node_id e" and ?ids = "bt_keys (mc_nodes c)"
  obtain c1 acts c2 i e4 acts4 where
    1: "fold_result (announce_to_existing ?n dv) ?ids (c, []) = Inr (c1, acts)"
    and 2: "route_all cd acts c1 = Inr c2"
    and 4: "fold_result (announce_existing (cluster_reading c2) dv) ?ids (e, []) = Inr (e4, acts4)"
    and 5: "route_all cd (map (\<lambda>actions. (?n, actions)) acts4) (set_node ?n \<lparr>mn_engine = e4, mn_scheduled = [],
      mn_feed_flush_counter = 0, mn_feed_flush_interval = i\<rparr> c2) = Inr c'"
    using assms(1) by (auto simp: add_node_def Let_def result_bind_def split: if_splits sum.splits)
  have ids: "set ?ids = ns" using trustsD(1) [OF assms(2)] by (auto simp: cluster_of_def node_set_def all_node_ids_def)
  have a: "trusts ns ns c1"
    "\<And>j mn'. bt_get (mc_nodes c1) j = Some mn' \<Longrightarrow> ?n \<in> departed (mn_engine mn') \<Longrightarrow> j \<notin> ns"
    using announce_all_trusts [OF 1, of ns ns] assms(2) ids by auto
  have "j \<in> ns" if "bt_get (mc_nodes c1) j = Some mn" for j mn
    using that trustsD(1) [OF a(1)] by (auto simp: cluster_of_def node_set_iff)
  then have "trusts ns (insert ?n ns) c1" using a by (auto simp: trusts_def)
  then have c2: "trusts ns (insert ?n ns) c2" by (rule route_all_trusts [OF 2])
  have e4: "engine_wf e4" "eng_node_id e4 = ?n" "departed e4 = {}"
    using fold_result_keeps [where P = "\<lambda>acc. engine_wf (fst acc) \<and> eng_node_id (fst acc) = ?n \<and> departed (fst acc) = {}", OF 4]
      announce_existing_departed assms(3,4) by (metis fst_conv)+
  let ?mn = "\<lparr>mn_engine = e4, mn_scheduled = [], mn_feed_flush_counter = 0, mn_feed_flush_interval = i\<rparr>"
  have "cluster_of (insert ?n ns) (set_node ?n ?mn c2)"
    using cluster_of_set_node [OF trustsD(1) [OF c2], of ?mn ?n] e4 by simp
  moreover have "cluster_wf c2" using trustsD(1) [OF c2] by (simp add: cluster_of_def)
  ultimately have "trusts (insert ?n ns) (insert ?n ns) (set_node ?n ?mn c2)"
    using trustsD(2) [OF c2] e4(3) by (auto simp: trusts_def set_node_def lookup_simps cluster_wfD split: if_splits)
  then show ?thesis by (rule route_all_trusts [OF 5])
qed

lemma remove_trusts:
  assumes "trusts ns ns c" and "c' = remove_node n c \<or> c' = remove_node_hard n c"
  shows "trusts (ns - {n}) (ns - {n}) c'"
proof -
  have wf: "cluster_wf c" using trustsD(1) [OF assms(1)] by (simp add: cluster_of_def)
  have "mc_nodes c' = mc_nodes (remove_node n c)"
    using assms(2) by (auto simp: remove_node_def remove_node_hard_def all_node_left_def)
  then have "bt_get (mc_nodes c') j = (if j = n then None
      else map_option (\<lambda>mn. mn\<lparr>mn_engine := on_node_left n (mn_engine mn)\<rparr>) (bt_get (mc_nodes c) j))" for j
    using wf by (simp add: remove_node_def all_node_left_def bt_get_map_values lookup_simps cluster_wfD)
  moreover have "cluster_of (ns - {n}) c'" using assms(2) remove_ok [OF trustsD(1) [OF assms(1)]] by auto
  ultimately show ?thesis
    using trustsD(2) [OF assms(1)] by (fastforce simp: trusts_def frame_simps split: if_splits)
qed

lemma cluster_apply_trusts:
  assumes "cluster_apply cd op c = Inr c'" and "trusts ns ns c"
    and "\<And>e dv. op = OpAdd e dv \<Longrightarrow> engine_wf e \<and> departed e = {}"
  shows "trusts (op_members op ns) (op_members op ns) c'"
proof (cases op)
  case (OpAdd e dv)
  then show ?thesis using assms add_trusts [of cd e dv c c' ns] by simp
next
  case (OpMutate k f p u)
  then show ?thesis using assms mutate_trusts by simp
next
  case OpTick
  then show ?thesis using assms tick_trusts by simp
qed (use assms remove_trusts in auto)

end
