(* ===== verification/Cluster_Refinement.thy ===== *)
theory Cluster_Refinement
  imports Propagation Membership "HOL-Library.Countable"
begin

text \<open>
  The mock cluster of \<open>dstate-integration\<close> implements the replication protocol of \<open>Replication\<close>: every state it
  reaches, under any interceptors that drop, delay or duplicate messages, or garble them so that they do not decode, has the engines of a
  reachable state of the abstract system, whose network is the set of all messages ever sent. The
  consistency theorems of the protocol then hold of the simulated cluster.
\<close>

subsection \<open>Interceptors that forge nothing\<close>

text \<open>Bytes that decode, if at all, to what the original bytes decode to.\<close>

definition no_forgery :: "wire_codec \<Rightarrow> bytes \<Rightarrow> bytes \<Rightarrow> bool" where
  "no_forgery cd bs b \<longleftrightarrow> (\<forall>m. wc_deserialize cd b = Inr m \<longrightarrow> wc_deserialize cd bs = Inr m)"

fun action_bytes :: "intercept_action \<Rightarrow> bytes list" where
  "action_bytes (Deliver data) = [data]"
| "action_bytes DropMsg = []"
| "action_bytes (DelayMsg data ticks) = [data]"
| "action_bytes (DeliverMany copies) = copies"

coinductive honest :: "wire_codec \<Rightarrow> interceptor \<Rightarrow> bool" for cd where
  honest_step: "(\<And>from to bs ctx. list_all (no_forgery cd bs) (action_bytes (fst (intercept i from to bs ctx))) \<and>
      honest cd (snd (intercept i from to bs ctx))) \<Longrightarrow> honest cd i"

inductive_cases honestE: "honest cd i"

lemma honestD:
  assumes "honest cd i" and "intercept i from to bs ctx = (action, i')"
  shows "list_all (no_forgery cd bs) (action_bytes action)" and "honest cd i'"
  using assms by (auto elim!: honestE) (metis fst_conv snd_conv)+

lemma honest_boxed:
  assumes "\<And>from to bs ctx. list_all (no_forgery cd bs) (action_bytes (f from to bs ctx))"
  shows "honest cd (boxed f)"
  by (coinduction rule: honest.coinduct) (auto simp: assms)

lemma no_forgery_refl [simp]: "no_forgery cd bs bs"
  by (simp add: no_forgery_def)

lemma no_forgery_trans: "no_forgery cd a b \<Longrightarrow> no_forgery cd b c \<Longrightarrow> no_forgery cd a c"
  by (simp add: no_forgery_def)

text \<open>All built-in interceptors but \<open>CorruptBytes\<close> are honest for every codec.\<close>

lemma builtin_honest:
  "honest cd (boxed pass_through)" "honest cd (boxed drop_all)" "honest cd (boxed (drop_rate_intercept dr))"
  "honest cd (boxed (partition_intercept pt))" "honest cd (boxed (delay_ticks_intercept k))"
  "honest cd (boxed duplicate_all)"
  by (auto intro!: honest_boxed simp: pass_through_def drop_all_def drop_rate_intercept_def partition_intercept_def
      delay_ticks_intercept_def duplicate_all_def Let_def)

subsection \<open>The pipeline forges nothing\<close>

lemma run_pending_honest:
  assumes "honest cd i" and "list_all (no_forgery cd bs) pending"
    and "run_pending from to ctx i pending = (i', next_pending, finalized)"
  shows "honest cd i' \<and> list_all (no_forgery cd bs) next_pending \<and>
    list_all (\<lambda>a. list_all (no_forgery cd bs) (action_bytes a)) finalized"
  using assms
proof (induction pending arbitrary: i i' next_pending finalized)
  case (Cons b pending)
  obtain action i1 where a: "intercept i from to b ctx = (action, i1)" by fastforce
  obtain i2 n2 f2 where r: "run_pending from to ctx i1 pending = (i2, n2, f2)" using prod_cases3 by blast
  note hd = honestD [OF Cons.prems(1) a]
  have "honest cd i2 \<and> list_all (no_forgery cd bs) n2 \<and> list_all (\<lambda>a. list_all (no_forgery cd bs) (action_bytes a)) f2"
    using Cons.IH [OF hd(2) _ r] Cons.prems(2) by simp
  moreover have "list_all (no_forgery cd bs) (action_bytes action)"
    using hd(1) Cons.prems(2) no_forgery_trans by (auto simp: list_all_iff)
  ultimately show ?case using Cons.prems(3) a r by (cases action) auto
qed simp

lemma run_chain_honest:
  assumes "list_all (honest cd) chain" and "list_all (no_forgery cd bs) pending"
    and "run_chain from to ctx chain pending = (chain', pending', finalized)"
  shows "list_all (honest cd) chain' \<and> list_all (no_forgery cd bs) pending' \<and>
    list_all (\<lambda>a. list_all (no_forgery cd bs) (action_bytes a)) finalized"
  using assms
proof (induction chain arbitrary: pending chain' pending' finalized)
  case (Cons i chain)
  obtain i1 p1 f1 where 1: "run_pending from to ctx i pending = (i1, p1, f1)" using prod_cases3 by blast
  obtain c2 p2 f2 where 2: "run_chain from to ctx chain p1 = (c2, p2, f2)" using prod_cases3 by blast
  have "honest cd i" using Cons.prems(1) by simp
  note ok = run_pending_honest [OF this Cons.prems(2) 1]
  show ?case using Cons.IH [OF _ _ 2] ok Cons.prems(1,3) 1 2 by auto
qed simp

subsection \<open>The transport carries only what was sent\<close>

text \<open>Everything in flight decodes to a message of \<open>net\<close>, and it stays so.\<close>

definition wire_ok :: "wire_codec \<Rightarrow> bool" where
  "wire_ok cd \<longleftrightarrow> (\<forall>m. wc_deserialize cd (wc_serialize cd m) = Inr m)"

definition decodes_into :: "wire_codec \<Rightarrow> wire_message set \<Rightarrow> bytes \<Rightarrow> bool" where
  "decodes_into cd net b \<longleftrightarrow> (\<forall>m. wc_deserialize cd b = Inr m \<longrightarrow> m \<in> net)"

definition net_sound :: "wire_codec \<Rightarrow> wire_message set \<Rightarrow> mock_transport \<Rightarrow> bool" where
  "net_sound cd net t \<longleftrightarrow> list_all (\<lambda>m. decodes_into cd net (fm_data m)) (mt_in_flight t) \<and>
     list_all (honest cd) (mt_interceptors t)"

lemma decodes_into_mono: "decodes_into cd net b \<Longrightarrow> net \<subseteq> net' \<Longrightarrow> decodes_into cd net' b"
  by (auto simp: decodes_into_def)

lemma net_sound_mono: "net_sound cd net t \<Longrightarrow> net \<subseteq> net' \<Longrightarrow> net_sound cd net' t"
  by (auto simp: net_sound_def list_all_iff intro: decodes_into_mono)

lemma decodes_into_forgery: "no_forgery cd bs b \<Longrightarrow> decodes_into cd net bs \<Longrightarrow> decodes_into cd net b"
  by (auto simp: decodes_into_def no_forgery_def)

lemma push_sound:
  "net_sound cd net t \<Longrightarrow> decodes_into cd net b \<Longrightarrow> net_sound cd net (push_in_flight from to b k t)"
  by (simp add: net_sound_def push_in_flight_def)

lemma push_all_sound:
  "net_sound cd net t \<Longrightarrow> list_all (decodes_into cd net) copies \<Longrightarrow>
     net_sound cd net (fold (\<lambda>data t. push_in_flight from to data (mt_current_tick t + 1) t) copies t)"
  by (induction copies arbitrary: t) (simp_all add: push_sound)

lemma execute_action_sound:
  assumes "net_sound cd net t" and "list_all (decodes_into cd net) (action_bytes a)"
  shows "net_sound cd net (execute_action from to a t)"
  using assms by (cases a) (simp_all add: push_sound push_all_sound)

lemma execute_actions_sound:
  assumes "net_sound cd net t" and "list_all (\<lambda>a. list_all (decodes_into cd net) (action_bytes a)) acts"
  shows "net_sound cd net (fold (execute_action from to) acts t)"
  using assms by (induction acts arbitrary: t) (auto intro: execute_action_sound)

lemma send_bytes_sound:
  assumes "net_sound cd net t" and "decodes_into cd net bs"
  shows "net_sound cd net (send_bytes from to bs t)"
proof -
  let ?t = "t\<lparr>mt_message_counter := mt_message_counter t + 1\<rparr>"
  let ?ctx = "\<lparr>ic_current_tick = mt_current_tick t, ic_message_id = mt_message_counter t, ic_rng_seed = mt_rng_seed t\<rparr>"
  obtain t1 acts where ap: "apply_interceptors from to bs ?ctx ?t = (t1, acts)" by fastforce
  have "net_sound cd net t1 \<and> list_all (\<lambda>a. list_all (decodes_into cd net) (action_bytes a)) acts"
  proof (cases "mt_interceptors t = []")
    case True
    then show ?thesis using ap assms by (auto simp: apply_interceptors_def net_sound_def)
  next
    case False
    obtain chain pending fin where run: "run_chain from to ?ctx (mt_interceptors t) [bs] = (chain, pending, fin)"
      using prod_cases3 by blast
    have "list_all (honest cd) chain \<and> list_all (no_forgery cd bs) pending \<and>
        list_all (\<lambda>a. list_all (no_forgery cd bs) (action_bytes a)) fin"
      using assms(1) by (intro run_chain_honest [OF _ _ run]) (auto simp: net_sound_def)
    then show ?thesis
      using ap assms False run decodes_into_forgery [of cd bs _ net]
      by (auto simp: apply_interceptors_def net_sound_def list_all_iff)
  qed
  then show ?thesis using ap by (simp add: send_bytes_def Let_def execute_actions_sound)
qed

lemma send_sound:
  assumes "wire_ok cd" and "net_sound cd net t" and "m \<in> net"
  shows "net_sound cd net (transport_send cd from to m t)" "net_sound cd net (transport_broadcast cd from m ids t)"
proof -
  have bs: "decodes_into cd net (wc_serialize cd m)" using assms(1,3) by (auto simp: decodes_into_def wire_ok_def)
  then show "net_sound cd net (transport_send cd from to m t)"
    using assms(2) by (simp add: transport_send_def send_bytes_sound)
  show "net_sound cd net (transport_broadcast cd from m ids t)"
    unfolding transport_broadcast_def Let_def
    using assms(2) bs by (induction ids arbitrary: t) (auto intro: send_bytes_sound)
qed

lemma deliver_due_sound:
  assumes "net_sound cd net t" and "deliver_due cd t = (t', r)"
  shows "net_sound cd net t'" and "\<forall>d \<in> set (res_delivered r). dm_message d \<in> net"
  using assms
  by (auto simp: deliver_due_eq due_def set_rights due_outcome_def net_sound_def list_all_iff decodes_into_def split: sum.splits)

subsection \<open>A cluster tracked by a system\<close>

text \<open>Every message of the cluster, in flight or scheduled, is in the network of the system.\<close>

definition carries :: "wire_codec \<Rightarrow> wire_message set \<Rightarrow> ('s, 'v) mock_cluster \<Rightarrow> bool" where
  "carries cd net c \<longleftrightarrow> net_sound cd net (mc_transport c) \<and>
     (\<forall>k mn a. bt_get (mc_nodes c) k = Some mn \<longrightarrow> a \<in> set (mn_scheduled mn) \<longrightarrow> Sync (sa_message a) \<in> net)"

text \<open>The engines of the system are those of the cluster, and \<open>x\<close> those that are about to be added.\<close>

definition tracks ::
    "wire_codec \<Rightarrow> node_id set \<Rightarrow> (node_id \<rightharpoonup> ('s, 'v) engine) \<Rightarrow> ('s, 'v) mock_cluster \<Rightarrow> ('s, 'v) system \<Rightarrow> bool" where
  "tracks cd ns x c s \<longleftrightarrow> wire_ok cd \<and> cluster_of ns c \<and> sys_engines s = node_engine c ++ x \<and> dom x \<inter> ns = {} \<and>
     carries cd (sys_net s) c"

text \<open>System steps that publish nothing.\<close>

definition sys_quiet :: "('s, 'v, 'dc, 'vd) replica_spec \<Rightarrow> ('s, 'v) system \<Rightarrow> ('s, 'v) system \<Rightarrow> bool" where
  "sys_quiet sp s s' \<longleftrightarrow> (sys_step sp)\<^sup>*\<^sup>* s s' \<and> sys_log s' = sys_log s \<and> sys_net s \<subseteq> sys_net s'"

lemma sys_quiet_order: "reflp (sys_quiet sp)" "transp (sys_quiet sp)"
  by (auto simp: sys_quiet_def reflp_def transp_def)

lemma sys_quiet_refl [simp]: "sys_quiet sp s s"
  by (simp add: sys_quiet_def)

lemma sys_quiet_trans: "sys_quiet sp a b \<Longrightarrow> sys_quiet sp b c \<Longrightarrow> sys_quiet sp a c"
  using sys_quiet_order(2) by (blast dest: transpD)

lemma sys_quiet_put: "sys_step sp s (put_engine n e ms s) \<Longrightarrow> sys_quiet sp s (put_engine n e ms s)"
  by (auto simp: sys_quiet_def put_engine_def)

lemma carries_mono: "carries cd net c \<Longrightarrow> net \<subseteq> net' \<Longrightarrow> carries cd net' c"
  by (auto simp: carries_def intro: net_sound_mono)

lemma tracksD:
  assumes "tracks cd ns x c s"
  shows "wire_ok cd" "cluster_of ns c" "cluster_wf c" "carries cd (sys_net s) c"
    "bt_get (mc_nodes c) k = Some mn \<Longrightarrow> k \<in> ns \<and> sys_engines s k = Some (mn_engine mn)"
proof -
  show "wire_ok cd" "cluster_of ns c" "cluster_wf c" "carries cd (sys_net s) c"
    using assms by (auto simp: tracks_def cluster_of_def)
  assume mn: "bt_get (mc_nodes c) k = Some mn"
  then have "k \<in> ns" using assms by (auto simp: tracks_def cluster_of_def node_set_iff)
  moreover from this have "x k = None" using assms by (auto simp: tracks_def)
  ultimately show "k \<in> ns \<and> sys_engines s k = Some (mn_engine mn)"
    using assms mn by (simp add: tracks_def node_engine_def map_add_def)
qed

lemma engine_member: "cluster_of ns c \<Longrightarrow> k \<in> ns \<Longrightarrow> \<exists>mn. bt_get (mc_nodes c) k = Some mn"
  by (auto simp: cluster_of_def node_set_iff)

text \<open>One engine moves on both sides.\<close>

lemma tracks_put:
  assumes "tracks cd ns x c s" and mn: "bt_get (mc_nodes c) k = Some mn"
    and "engine_wf (mn_engine mn')" "eng_node_id (mn_engine mn') = k" "set (mn_scheduled mn') \<subseteq> set (mn_scheduled mn)"
  shows "tracks cd ns x (set_node k mn' c) (put_engine k (mn_engine mn') ms s)"
proof -
  note t = tracksD [OF assms(1)]
  have "cluster_of ns (set_node k mn' c)"
    by (rule cluster_of_set_existing [OF t(2) mn]) (use assms in simp_all)
  moreover have "node_engine (set_node k mn' c) = (node_engine c)(k \<mapsto> mn_engine mn')"
    using t(3) by (auto simp: node_engine_def set_node_def lookup_simps cluster_wfD)
  moreover have "k \<notin> dom x" using t(5) [OF mn] assms(1) by (auto simp: tracks_def)
  moreover have "carries cd (sys_net s \<union> ms) (set_node k mn' c)"
    using carries_mono [OF t(4), of "sys_net s \<union> ms"] t(3) mn assms(5)
    by (auto simp: carries_def set_node_def lookup_simps cluster_wfD)
  ultimately show ?thesis
    using assms(1) by (auto simp: tracks_def put_engine_def map_add_upd_left)
qed

text \<open>Messages of the network may be sent.\<close>

lemma tracks_transport:
  assumes "tracks cd ns x c s" and "net_sound cd (sys_net s) t"
  shows "tracks cd ns x (c\<lparr>mc_transport := t\<rparr>) s"
  using assms by (auto simp: tracks_def carries_def)

lemma tracks_broadcast:
  "tracks cd ns x c s \<Longrightarrow> m \<in> sys_net s \<Longrightarrow>
     tracks cd ns x (c\<lparr>mc_transport := transport_broadcast cd from m ids (mc_transport c)\<rparr>) s"
  by (rule tracks_transport) (auto simp: tracks_def carries_def intro: send_sound)

lemma route_action_tracks:
  assumes "tracks cd ns x c s" and "Sync (action_message a) \<in> sys_net s" and "route_action cd ids from a c = Inr c'"
  shows "tracks cd ns x c' s"
proof (cases a)
  case (SendSync n m)
  then show ?thesis
    using assms by (auto intro!: tracks_transport send_sound simp: tracks_def carries_def)
next
  case (ScheduleDelayed d m)
  obtain n where n: "delay_ticks d c = Inr n" using delay_ticks_ok [OF tracksD(2) [OF assms(1)]] by blast
  show ?thesis
  proof (cases "bt_get (mc_nodes c) from")
    case (Some mn)
    let ?mn = "mn\<lparr>mn_scheduled := mn_scheduled mn @ [\<lparr>sa_message = m, sa_deliver_at_tick = mc_current_tick c + n\<rparr>]\<rparr>"
    have c': "c' = set_node from ?mn c" using assms(3) ScheduleDelayed n Some by simp
    note t = tracksD [OF assms(1)]
    have "cluster_of ns c'"
      unfolding c' by (rule cluster_of_set_existing [OF t(2) Some]) (simp_all add: cluster_ofD [OF t(2) Some])
    moreover have "node_engine c' = node_engine c"
      using t(3) Some by (auto simp: c' node_engine_def set_node_def lookup_simps cluster_wfD)
    moreover have "carries cd (sys_net s) c'"
      using t(3,4) Some assms(2) ScheduleDelayed
      by (auto simp: c' carries_def set_node_def lookup_simps cluster_wfD split: if_splits)
    ultimately show ?thesis using assms(1) by (simp add: tracks_def)
  qed (use assms ScheduleDelayed n in simp)
qed (use assms tracks_broadcast in auto)

lemma route_actions_tracks:
  assumes "tracks cd ns x c s" and "sent acts \<subseteq> sys_net s" and "route_actions cd from acts c = Inr c'"
  shows "tracks cd ns x c' s"
  by (rule fold_result_keeps [where P = "\<lambda>c. tracks cd ns x c s", OF assms(3) [unfolded route_actions_def Let_def] assms(1)])
    (use assms(2) in \<open>auto simp: sent_def intro: route_action_tracks\<close>)

lemma route_all_tracks:
  assumes "tracks cd ns x c s" and "\<forall>(n, acts) \<in> set pending. sent acts \<subseteq> sys_net s" and "route_all cd pending c = Inr c'"
  shows "tracks cd ns x c' s"
proof (rule fold_result_keeps [where P = "\<lambda>c. tracks cd ns x c s", OF assms(3) [unfolded route_all_def] assms(1)])
  fix p a b
  assume p: "p \<in> set pending" "(case p of (node, actions) \<Rightarrow> route_actions cd node actions) a = Inr b"
    and a: "tracks cd ns x a s"
  obtain n acts where n: "p = (n, acts)" by fastforce
  have "sent acts \<subseteq> sys_net s" using assms(2) p(1) n by auto
  moreover have "route_actions cd n acts a = Inr b" using p(2) n by simp
  ultimately show "tracks cd ns x b s" by (rule route_actions_tracks [OF a])
qed

subsection \<open>Ticks\<close>

lemma node_engine_corrupted [simp]: "node_engine (c\<lparr>mc_corrupted_count := n\<rparr>) = node_engine c"
  by (simp add: node_engine_def fun_eq_iff)

lemma node_engine_advance [simp]: "node_engine (tick_advance c) = node_engine c"
  by (simp add: node_engine_def tick_advance_def fun_eq_iff)

definition pending_sent :: "(node_id \<times> engine_action list) list \<Rightarrow> ('s, 'v) system \<Rightarrow> bool" where
  "pending_sent pending s \<longleftrightarrow> (\<forall>(n, acts) \<in> set pending. sent acts \<subseteq> sys_net s)"

lemma pending_sent_append:
  "pending_sent pending s \<Longrightarrow>
     pending_sent (if acts = [] then pending else pending @ [(n, acts)]) (put_engine k e (sent acts) s)"
  by (auto simp: pending_sent_def put_engine_def)

lemma deliver_tracks:
  assumes "deliver_to_node d acc = Inr acc'"
    and "tracks cd ns x (fst acc) s \<and> pending_sent (snd acc) s \<and> net \<subseteq> sys_net s" and "dm_message d \<in> net"
  shows "\<exists>s'. sys_quiet sp s s' \<and> tracks cd ns x (fst acc') s' \<and> pending_sent (snd acc') s' \<and> net \<subseteq> sys_net s'"
proof (cases "bt_get (mc_nodes (fst acc)) (dm_to d)")
  case None
  then have "acc' = acc" using assms(1) by (cases acc) (simp add: deliver_to_node_def)
  then show ?thesis using assms(2) sys_quiet_refl by blast
next
  case (Some mn)
  have t: "tracks cd ns x (fst acc) s" using assms(2) by simp
  note ok = cluster_ofD [OF tracksD(2) [OF t] Some]
  obtain e acts where e: "handle_inbound (cluster_reading (fst acc)) (dm_message d) (mn_engine mn) = Inr (e, acts)"
    "engine_wf e" "eng_node_id e = dm_to d"
    using inbound_ok [OF ok(1)] ok(2) engine_params_node by metis
  let ?s = "put_engine (dm_to d) e (sent acts) s"
  have "sys_step sp s ?s"
    using tracksD(5) [OF t Some] assms(2,3) e(1) by (intro sys_deliver) auto
  moreover have "tracks cd ns x (set_node (dm_to d) (mn\<lparr>mn_engine := e\<rparr>) (fst acc)) ?s"
    using tracks_put [OF t Some, of "mn\<lparr>mn_engine := e\<rparr>" "sent acts"] e by simp
  moreover have "acc' = (set_node (dm_to d) (mn\<lparr>mn_engine := e\<rparr>) (fst acc),
      if acts = [] then snd acc else snd acc @ [(dm_to d, acts)])"
    using assms(1) Some e(1) by (cases acc) (auto simp: deliver_to_node_def)
  moreover have "net \<subseteq> sys_net ?s" using assms(2) by (auto simp: put_engine_def)
  ultimately show ?thesis
    using sys_quiet_put pending_sent_append [of "snd acc" s acts "dm_to d" "dm_to d" e] assms(2)
    by (intro exI [of _ ?s]) auto
qed

lemma tick_deliver_tracks:
  assumes "tracks cd ns x c s" and "tick_deliver cd c = Inr c'"
  shows "\<exists>s'. sys_quiet sp s s' \<and> tracks cd ns x c' s'"
proof -
  obtain t r where dd: "deliver_due cd (mc_transport c) = (t, r)" by fastforce
  let ?c = "c\<lparr>mc_transport := t, mc_corrupted_count := mc_corrupted_count c + of_nat (length (res_corrupted r))\<rparr>"
  have due: "net_sound cd (sys_net s) t" "\<forall>d \<in> set (res_delivered r). dm_message d \<in> sys_net s"
    using deliver_due_sound [OF _ dd] tracksD(4) [OF assms(1)] by (auto simp: carries_def)
  have "tracks cd ns x ?c s"
    using tracks_transport [OF assms(1) due(1)] by (simp add: tracks_def carries_def)
  then have start: "tracks cd ns x (fst (?c, [])) s \<and> pending_sent (snd (?c, [])) s \<and> sys_net s \<subseteq> sys_net s"
    by (simp add: pending_sent_def)
  obtain c1 pending where f: "fold_result deliver_to_node (res_delivered r) (?c, []) = Inr (c1, pending)"
    and route: "route_all cd pending c1 = Inr c'"
    using assms(2) dd by (auto simp: tick_deliver_def result_bind_def split: sum.splits prod.splits)
  have "\<exists>s'. sys_quiet sp s s' \<and> tracks cd ns x (fst (c1, pending)) s' \<and> pending_sent (snd (c1, pending)) s' \<and>
      sys_net s \<subseteq> sys_net s'"
    by (rule fold_result_follow [where R = "\<lambda>acc s'. tracks cd ns x (fst acc) s' \<and> pending_sent (snd acc) s' \<and>
          sys_net s \<subseteq> sys_net s'", OF f start])
      (use due(2) deliver_tracks sys_quiet_order in blast)+
  then show ?thesis using route_all_tracks [OF _ _ route] by (auto simp: pending_sent_def)
qed

lemma scheduled_tracks:
  assumes "tracks cd ns x c s" and "tick_scheduled cd k c = Inr c'"
  shows "tracks cd ns x c' s"
proof (cases "bt_get (mc_nodes c) k")
  case (Some mn)
  let ?due = "filter (\<lambda>a. sa_deliver_at_tick a \<le> mc_current_tick c) (mn_scheduled mn)"
  let ?mn = "mn\<lparr>mn_scheduled := filter (\<lambda>a. \<not> sa_deliver_at_tick a \<le> mc_current_tick c) (mn_scheduled mn)\<rparr>"
  note ok = cluster_ofD [OF tracksD(2) [OF assms(1)] Some]
  have "tracks cd ns x (set_node k ?mn c) (put_engine k (mn_engine ?mn) {} s)"
    by (rule tracks_put [OF assms(1) Some]) (use ok in auto)
  moreover have "put_engine k (mn_engine ?mn) {} s = s"
    using tracksD(5) [OF assms(1) Some] by (simp add: put_engine_def fun_upd_idem)
  ultimately have start: "tracks cd ns x (set_node k ?mn c) s" by simp
  have due: "Sync (sa_message a) \<in> sys_net s" if "a \<in> set ?due" for a
    using that tracksD(4) [OF assms(1)] Some by (auto simp: carries_def)
  have "tracks cd ns x (fold (\<lambda>a c. c\<lparr>mc_transport := transport_broadcast cd k (Sync (sa_message a)) (all_node_ids c)
      (mc_transport c)\<rparr>) as c) s" if "tracks cd ns x c s" "\<And>a. a \<in> set as \<Longrightarrow> Sync (sa_message a) \<in> sys_net s" for as c
    using that by (induction as arbitrary: c) (auto intro: tracks_broadcast)
  from this [OF start, of ?due] due show ?thesis using assms(2) Some by (simp add: tick_scheduled_def Let_def)
qed (use assms in \<open>simp add: tick_scheduled_def\<close>)

lemma feed_tracks:
  assumes "tracks cd ns x c s" and "tick_feed cd k c = Inr c'"
  shows "\<exists>s'. sys_quiet sp s s' \<and> tracks cd ns x c' s'"
proof (cases "bt_get (mc_nodes c) k")
  case (Some mn)
  note ok = cluster_ofD [OF tracksD(2) [OF assms(1)] Some]
  have engine: "put_engine k (mn_engine mn) {} s = s"
    using tracksD(5) [OF assms(1) Some] by (simp add: put_engine_def fun_upd_idem)
  have counter: "\<exists>s'. sys_quiet sp s s' \<and> tracks cd ns x (set_node k (mn\<lparr>mn_feed_flush_counter := i\<rparr>) c) s'" for i
    using tracks_put [OF assms(1) Some, of "mn\<lparr>mn_feed_flush_counter := i\<rparr>" "{}"] ok engine
    by (intro exI [of _ s]) simp
  obtain e batch where fl: "flush_change_feed (mn_engine mn) = (e, batch)" by fastforce
  then have e: "engine_wf e" "eng_node_id e = k"
    using ok flush_ok [of "mn_engine mn"] engine_params_node [OF flush_frame(3) [of "mn_engine mn"]] by simp_all
  let ?mn = "mn\<lparr>mn_feed_flush_counter := 0, mn_engine := e\<rparr>" and ?s = "put_engine k e (Feed ` set_option batch) s"
  have "tracks cd ns x (set_node k ?mn c) ?s"
    using tracks_put [OF assms(1) Some, of ?mn] e by simp
  moreover have "sys_step sp s ?s" using tracksD(5) [OF assms(1) Some] fl by (intro sys_flush) auto
  moreover have "Feed f \<in> sys_net ?s" if "batch = Some f" for f using that by (simp add: put_engine_def)
  ultimately have flushed: "\<exists>s'. sys_quiet sp s s' \<and> tracks cd ns x (case batch of None \<Rightarrow> set_node k ?mn c
      | Some f \<Rightarrow> (set_node k ?mn c)\<lparr>mc_transport := transport_broadcast cd k (Feed f) (all_node_ids (set_node k ?mn c))
          (mc_transport (set_node k ?mn c))\<rparr>) s'"
    by (intro exI [of _ ?s]) (auto split: option.split intro: sys_quiet_put tracks_broadcast)
  show ?thesis
    using assms(2) Some fl flushed counter [of 0] counter [of "mn_feed_flush_counter mn + 1"]
    by (auto simp: tick_feed_def Let_def split: if_splits option.splits)
qed (use assms in \<open>simp add: tick_feed_def\<close>)

lemma tick_tracks:
  assumes "tracks cd ns x c s" and "tick cd c = Inr c'"
  shows "\<exists>s'. sys_quiet sp s s' \<and> tracks cd ns x c' s'"
proof -
  obtain c1 c2 c3 where c1: "tick_deliver cd c = Inr c1"
    and c2: "fold_result (tick_scheduled cd) (all_node_ids c1) c1 = Inr c2"
    and c3: "fold_result (tick_feed cd) (all_node_ids c1) c2 = Inr c3" and c': "c' = tick_advance c3"
    using assms(2) by (auto simp: tick_def Let_def result_bind_def split: sum.splits)
  obtain s1 where s1: "sys_quiet sp s s1" "tracks cd ns x c1 s1"
    using tick_deliver_tracks [OF assms(1) c1] by blast
  have "tracks cd ns x c2 s1"
    by (rule fold_result_keeps [where P = "\<lambda>c. tracks cd ns x c s1", OF c2 s1(2)]) (rule scheduled_tracks)
  then obtain s2 where s2: "sys_quiet sp s1 s2" "tracks cd ns x c3 s2"
    using fold_result_follow [where R = "tracks cd ns x" and S = "sys_quiet sp", OF c3 _ _ sys_quiet_order] feed_tracks
    by metis
  have "carries cd (sys_net s2) c'"
    using tracksD(4) [OF s2(2)] by (simp add: c' carries_def tick_advance_def net_sound_def advance_tick_def)
  then have "tracks cd ns x c' s2" using s2(2) tick_advance_ok [of ns c3] by (simp add: c' tracks_def)
  with sys_quiet_trans [OF s1(1) s2(1)] show ?thesis by blast
qed

subsection \<open>Mutations\<close>

lemma mutate_tracks:
  assumes "tracks cd ns x c s" and "cluster_mutate cd n f (rs_project sp) u c = Inr c'"
    and "node_engine c n = Some e" and "age (so_generation (eng_state e)) \<noteq> - 1"
    and "mutate (cluster_reading c) f (rs_project sp) u e = (e', r)"
  shows "\<exists>s'. sys_step sp s s' \<and> tracks cd ns x c' s' \<and>
    sys_log s' = publish n (mr_generation r) (mr_view r) (sys_log s)"
proof -
  obtain mn where mn: "bt_get (mc_nodes c) n = Some mn" "mn_engine mn = e"
    using assms(3) by (auto simp: node_engine_def)
  note ok = cluster_ofD [OF tracksD(2) [OF assms(1)] mn(1)]
  have e': "engine_wf e'" "eng_node_id e' = n"
    using ok mn(2) mutate_wf(1) [of e "cluster_reading c" f "rs_project sp" u]
      engine_params_node [OF mutate_frame(3) [of "cluster_reading c" f "rs_project sp" u e]] assms(5) by simp_all
  let ?s = "(put_engine n e' (sent (mr_actions r)) s)\<lparr>sys_log := publish n (mr_generation r) (mr_view r) (sys_log s)\<rparr>"
  have "sys_step sp s ?s" using tracksD(5) [OF assms(1) mn(1)] assms(4,5) mn(2) by (intro sys_mutate) auto
  moreover have "tracks cd ns x c' ?s"
  proof (rule route_actions_tracks)
    have "tracks cd ns x (set_node n (mn\<lparr>mn_engine := e'\<rparr>) c) (put_engine n e' (sent (mr_actions r)) s)"
      using tracks_put [OF assms(1) mn(1), of "mn\<lparr>mn_engine := e'\<rparr>"] e' by simp
    then show "tracks cd ns x (set_node n (mn\<lparr>mn_engine := e'\<rparr>) c) ?s" by (simp add: tracks_def)
    show "sent (mr_actions r) \<subseteq> sys_net ?s" by (simp add: put_engine_def)
    show "route_actions cd n (mr_actions r) (set_node n (mn\<lparr>mn_engine := e'\<rparr>) c) = Inr c'"
      using assms(2,5) mn by (simp add: cluster_mutate_def)
  qed
  ultimately show ?thesis by (intro exI [of _ ?s]) simp
qed

subsection \<open>Membership\<close>

lemma announce_to_tracks:
  assumes "announce_to_existing n dv k acc = Inr acc'" and "tracks cd ns x (fst acc) s \<and> pending_sent (snd acc) s"
  shows "\<exists>s'. sys_quiet sp s s' \<and> tracks cd ns x (fst acc') s' \<and> pending_sent (snd acc') s'"
proof -
  obtain mn where mn: "bt_get (mc_nodes (fst acc)) k = Some mn"
    using assms(1) by (cases acc) (auto simp: announce_to_existing_def split: option.splits)
  have t: "tracks cd ns x (fst acc) s" using assms(2) by simp
  note ok = cluster_ofD [OF tracksD(2) [OF t] mn]
  obtain e acts where e: "on_node_joined (cluster_reading (fst acc)) n dv (mn_engine mn) = Inr (e, acts)"
    "engine_wf e" "eng_node_id e = k"
    using joined_ok [OF ok(1)] ok(2) engine_params_node by metis
  let ?s = "put_engine k e (sent acts) s"
  have "sys_step sp s ?s" using tracksD(5) [OF t mn] e(1) by (intro sys_join) auto
  moreover have "tracks cd ns x (set_node k (mn\<lparr>mn_engine := e\<rparr>) (fst acc)) ?s"
    using tracks_put [OF t mn, of "mn\<lparr>mn_engine := e\<rparr>" "sent acts"] e by simp
  moreover have "acc' = (set_node k (mn\<lparr>mn_engine := e\<rparr>) (fst acc), if acts = [] then snd acc else snd acc @ [(k, acts)])"
    using assms(1) mn e(1) by (cases acc) (auto simp: announce_to_existing_def)
  ultimately show ?thesis
    using sys_quiet_put pending_sent_append [of "snd acc" s acts k k e] assms(2) by (intro exI [of _ ?s]) auto
qed

text \<open>The engine that is about to be added moves on its own.\<close>

lemma tracks_extra:
  "tracks cd ns [n \<mapsto> e] c s \<Longrightarrow> tracks cd ns [n \<mapsto> e'] c (put_engine n e' ms s)"
  by (auto simp: tracks_def put_engine_def intro: carries_mono)

definition newcomer_tracks where
  "newcomer_tracks cd ns n c acc s \<longleftrightarrow> tracks cd ns [n \<mapsto> fst acc] c s \<and> engine_wf (fst acc) \<and> eng_node_id (fst acc) = n \<and>
     (\<forall>acts \<in> set (snd acc). sent acts \<subseteq> sys_net s)"

lemma announce_existing_tracks:
  assumes "announce_existing clk dv k acc = Inr acc'" and "newcomer_tracks cd ns n c acc s"
  shows "\<exists>s'. sys_quiet sp s s' \<and> newcomer_tracks cd ns n c acc' s'"
proof -
  have t: "tracks cd ns [n \<mapsto> fst acc] c s" "engine_wf (fst acc)" "eng_node_id (fst acc) = n"
    using assms(2) by (simp_all add: newcomer_tracks_def)
  obtain e acts where e: "on_node_joined clk k dv (fst acc) = Inr (e, acts)" "engine_wf e" "eng_node_id e = n"
    using joined_ok [OF t(2)] t(3) engine_params_node by metis
  let ?s = "put_engine n e (sent acts) s"
  have "sys_engines s n = Some (fst acc)" using t(1) by (simp add: tracks_def)
  then have "sys_step sp s ?s" using e(1) by (rule sys_join)
  moreover have "acc' = (e, if acts = [] then snd acc else snd acc @ [acts])"
    using assms(1) e(1) by (cases acc) (auto simp: announce_existing_def)
  ultimately show ?thesis
    using sys_quiet_put tracks_extra [OF t(1), of e "sent acts"] e(2,3) assms(2)
    by (intro exI [of _ ?s]) (auto simp: newcomer_tracks_def put_engine_def)
qed

lemma tracks_insert:
  assumes "tracks cd ns [n \<mapsto> mn_engine mn] c s" and "engine_wf (mn_engine mn)" "eng_node_id (mn_engine mn) = n"
    and "mn_scheduled mn = []"
  shows "tracks cd (insert n ns) Map.empty (set_node n mn c) s"
proof -
  note t = tracksD [OF assms(1)]
  have "node_engine (set_node n mn c) = node_engine c ++ [n \<mapsto> mn_engine mn]"
    using t(3) by (auto simp: node_engine_def set_node_def lookup_simps cluster_wfD)
  moreover have "carries cd (sys_net s) (set_node n mn c)"
    using t(3,4) assms(4) by (auto simp: carries_def set_node_def lookup_simps cluster_wfD split: if_splits)
  ultimately show ?thesis
    using assms(1) cluster_of_set_node [OF t(2) assms(2,3)] by (simp add: tracks_def)
qed

lemma add_tracks:
  assumes "tracks cd ns [n \<mapsto> e] c s" and "engine_wf e" and "eng_node_id e = n" and "add_node cd e dv c = Inr c'"
  shows "\<exists>s'. sys_quiet sp s s' \<and> tracks cd (insert n ns) Map.empty c' s'"
proof -
  let ?ids = "bt_keys (mc_nodes c)"
  obtain c1 acts c2 i e4 acts4 where
    1: "fold_result (announce_to_existing n dv) ?ids (c, []) = Inr (c1, acts)"
    and 2: "route_all cd acts c1 = Inr c2"
    and 4: "fold_result (announce_existing (cluster_reading c2) dv) ?ids (e, []) = Inr (e4, acts4)"
    and 5: "route_all cd (map (\<lambda>actions. (n, actions)) acts4) (set_node n \<lparr>mn_engine = e4, mn_scheduled = [],
      mn_feed_flush_counter = 0, mn_feed_flush_interval = i\<rparr> c2) = Inr c'"
    using assms(3,4) by (auto simp: add_node_def Let_def result_bind_def split: if_splits sum.splits)
  have "\<exists>s'. sys_quiet sp s s' \<and> tracks cd ns [n \<mapsto> e] (fst (c1, acts)) s' \<and> pending_sent (snd (c1, acts)) s'"
    by (rule fold_result_follow [where R = "\<lambda>acc s. tracks cd ns [n \<mapsto> e] (fst acc) s \<and> pending_sent (snd acc) s",
          OF 1 _ _ sys_quiet_order])
      (use assms(1) in \<open>simp add: pending_sent_def\<close>, rule announce_to_tracks)
  then obtain s1 where s1: "sys_quiet sp s s1" "tracks cd ns [n \<mapsto> e] c1 s1" "pending_sent acts s1" by auto
  have c2: "tracks cd ns [n \<mapsto> e] c2 s1"
    by (rule route_all_tracks [OF s1(2) s1(3) [unfolded pending_sent_def] 2])
  then have "newcomer_tracks cd ns n c2 (e, []) s1" using assms(2,3) by (simp add: newcomer_tracks_def)
  then have "\<exists>s'. sys_quiet sp s1 s' \<and> newcomer_tracks cd ns n c2 (e4, acts4) s'"
    by (rule fold_result_follow [where R = "newcomer_tracks cd ns n c2", OF 4 _ _ sys_quiet_order])
      (rule announce_existing_tracks)
  then obtain s2 where s2: "sys_quiet sp s1 s2" "newcomer_tracks cd ns n c2 (e4, acts4) s2" by blast
  have "tracks cd (insert n ns) Map.empty c' s2"
    by (rule route_all_tracks [OF tracks_insert _ 5]) (use s2(2) in \<open>auto simp: newcomer_tracks_def\<close>)
  with sys_quiet_trans [OF s1(1) s2(1)] show ?thesis by blast
qed

lemma leave_all:
  assumes "distinct ks"
  shows "\<exists>s'. sys_quiet sp s s' \<and> sys_net s' = sys_net s \<and>
    (\<forall>j. sys_engines s' j = (if j \<in> set ks then map_option (on_node_left k) (sys_engines s j) else sys_engines s j))"
  using assms
proof (induction ks arbitrary: s)
  case (Cons j ks)
  obtain s1 where s1: "sys_quiet sp s s1" "sys_net s1 = sys_net s"
    "sys_engines s1 = (sys_engines s)(j := map_option (on_node_left k) (sys_engines s j))"
  proof (cases "sys_engines s j")
    case None
    then show ?thesis using that [of s] by (simp add: fun_upd_idem)
  next
    case (Some e)
    then show ?thesis
      using that [of "put_engine j (on_node_left k e) {} s"] sys_quiet_put [OF sys_leave [where k = k and sp = sp, OF Some]]
      by (simp add: put_engine_def)
  qed
  obtain s2 where "sys_quiet sp s1 s2" "sys_net s2 = sys_net s1"
    "\<forall>i. sys_engines s2 i = (if i \<in> set ks then map_option (on_node_left k) (sys_engines s1 i) else sys_engines s1 i)"
    using Cons.IH [of s1] Cons.prems by auto
  with s1 Cons.prems show ?case by (intro exI [of _ s2]) (auto intro: sys_quiet_trans)
qed (auto intro: sys_quiet_refl)

lemma removed_tracks:
  assumes "tracks cd ns Map.empty c s" and "cluster_of (ns - {n}) c'"
    and "mc_nodes c' = mc_nodes (remove_node n c)" and "net_sound cd (sys_net s) (mc_transport c')"
  shows "\<exists>s'. sys_quiet sp s s' \<and> tracks cd (ns - {n}) Map.empty c' s'"
proof -
  note t = tracksD [OF assms(1)]
  let ?s = "s\<lparr>sys_engines := (sys_engines s)(n := None)\<rparr>"
  have crash: "sys_quiet sp s ?s" using sys_crash [of sp s n] by (auto simp: sys_quiet_def)
  obtain s' where s': "sys_quiet sp ?s s'" "sys_net s' = sys_net s"
    "\<forall>j. sys_engines s' j = (if j \<in> set (bt_keys (mc_nodes c)) then map_option (on_node_left n) (sys_engines ?s j)
       else sys_engines ?s j)"
    using leave_all [of "bt_keys (mc_nodes c)" sp ?s n] cluster_wfD(1) [OF t(3)]
    by (auto simp: bt_wf_def bt_keys_def strict_sorted_iff)
  have get: "bt_get (mc_nodes c') j = (if j = n then None
      else map_option (\<lambda>mn. mn\<lparr>mn_engine := on_node_left n (mn_engine mn)\<rparr>) (bt_get (mc_nodes c) j))" for j
    using t(3) by (simp add: assms(3) remove_node_def all_node_left_def bt_get_map_values lookup_simps cluster_wfD)
  have "sys_engines s' = node_engine c'"
  proof
    fix j show "sys_engines s' j = node_engine c' j"
      using s'(3) assms(1) node_set_iff [OF t(3), of j]
      by (cases "bt_get (mc_nodes c) j") (auto simp: get tracks_def node_engine_def node_set_def all_node_ids_def)
  qed
  moreover have "carries cd (sys_net s) c'"
    using t(4) assms(4) by (auto simp: carries_def get split: if_splits)
  ultimately have "tracks cd (ns - {n}) Map.empty c' s'" using t(1) assms(2) s'(2) by (simp add: tracks_def)
  with sys_quiet_trans [OF crash s'(1)] show ?thesis by blast
qed

lemma remove_tracks:
  assumes "tracks cd ns Map.empty c s" and "c' = remove_node n c \<or> c' = remove_node_hard n c"
  shows "\<exists>s'. sys_quiet sp s s' \<and> tracks cd (ns - {n}) Map.empty c' s'"
proof (rule removed_tracks [OF assms(1)])
  show "cluster_of (ns - {n}) c'" using assms(2) remove_ok [OF tracksD(2) [OF assms(1)]] by auto
  show "mc_nodes c' = mc_nodes (remove_node n c)"
    using assms(2) by (auto simp: remove_node_def remove_node_hard_def all_node_left_def)
  show "net_sound cd (sys_net s) (mc_transport c')"
    using assms(2) tracksD(4) [OF assms(1)]
    by (auto simp: remove_node_def remove_node_hard_def all_node_left_def carries_def net_sound_def
        drop_in_flight_for_def list_all_iff)
qed

subsection \<open>The simulation\<close>

text \<open>
  The steps of the cluster with the newest incarnation given to each node id. A node is added with a freshly
  started engine whose clock reading is newer than that of any earlier engine of its id; a mutation does not
  overflow the age of its node; an interceptor is honest.
\<close>

inductive cluster_step ::
    "('s, 'v, 'dc, 'vd) replica_spec \<Rightarrow> wire_codec \<Rightarrow> ('s, 'v) mock_cluster \<times> (node_id \<Rightarrow> u64) \<Rightarrow>
     ('s, 'v) mock_cluster \<times> (node_id \<Rightarrow> u64) \<Rightarrow> bool" for sp cd where
  cluster_add: "cluster_apply cd (OpAdd (start_engine sp n v clk) dv) c = Inr c' \<Longrightarrow> inc n < clk_unix_ms clk \<Longrightarrow>
    cluster_step sp cd (c, inc) (c', inc(n := clk_unix_ms clk))"
| cluster_mutation: "cluster_apply cd (OpMutate n f (rs_project sp) u) c = Inr c' \<Longrightarrow> node_engine c n = Some e \<Longrightarrow>
    age (so_generation (eng_state e)) \<noteq> - 1 \<Longrightarrow> cluster_step sp cd (c, inc) (c', inc)"
| cluster_removal: "cluster_apply cd op c = Inr c' \<Longrightarrow> op = OpRemove n \<or> op = OpRemoveHard n \<Longrightarrow>
    cluster_step sp cd (c, inc) (c', inc)"
| cluster_tick: "cluster_apply cd OpTick c = Inr c' \<Longrightarrow> cluster_step sp cd (c, inc) (c', inc)"
| cluster_intercept: "cluster_apply cd (OpIntercept i) c = Inr c' \<Longrightarrow> honest cd i \<Longrightarrow>
    cluster_step sp cd (c, inc) (c', inc)"
| cluster_heal: "cluster_apply cd OpHeal c = Inr c' \<Longrightarrow> cluster_step sp cd (c, inc) (c', inc)"

definition cluster_start :: "wire_codec \<Rightarrow> ('s, 'v) mock_cluster \<times> (node_id \<Rightarrow> u64) \<Rightarrow> bool" where
  "cluster_start cd st \<longleftrightarrow> wire_ok cd \<and> tick_ms (fst st) \<noteq> 0 \<and> (\<exists>clock d seed. fst st = cluster_new clock d seed) \<and>
     snd st = (\<lambda>_. 0)"

definition cluster_match ::
    "('s, 'v, 'dc, 'vd) replica_spec \<Rightarrow> wire_codec \<Rightarrow> ('s, 'v) mock_cluster \<times> (node_id \<Rightarrow> u64) \<Rightarrow> ('s, 'v) system \<Rightarrow> bool" where
  "cluster_match sp cd st s \<longleftrightarrow> tracks cd (node_set (fst st)) Map.empty (fst st) s \<and>
     incarnations_bound (sys_log s) (snd st)"

lemma match_quiet:
  assumes "sys_quiet sp s s'" and "tracks cd ns Map.empty c' s'" and "cluster_match sp cd (c, inc) s"
  shows "\<exists>s'. (sys_step sp)\<^sup>*\<^sup>* s s' \<and> cluster_match sp cd (c', inc) s'"
  using assms by (intro exI [of _ s']) (auto simp: cluster_match_def sys_quiet_def tracks_def cluster_of_def)

lemma match_add:
  assumes "cluster_match sp cd (c, inc) s" and "add_node cd (start_engine sp n v clk) dv c = Inr c'"
    and "inc n < clk_unix_ms clk"
  shows "\<exists>s'. (sys_step sp)\<^sup>*\<^sup>* s s' \<and> cluster_match sp cd (c', inc(n := clk_unix_ms clk)) s'"
proof -
  let ?e = "start_engine sp n v clk" and ?s = "started sp n v clk s"
  have t: "tracks cd (node_set c) Map.empty c s" and inc: "incarnations_bound (sys_log s) inc"
    using assms(1) by (auto simp: cluster_match_def)
  have e: "engine_wf ?e" "eng_node_id ?e = n"
    by (simp_all add: start_engine_def wf_intros) (simp add: engine_new_def shard_new_def Let_def)
  have new: "bt_get (mc_nodes c) n = None" using assms(2) e(2) by (auto simp: add_node_def Let_def split: if_splits)
  then have "sys_engines s n = None" using t by (simp add: tracks_def node_engine_def)
  moreover have "incarnation g < clk_unix_ms clk" if "g \<in> dom (sys_log s n)" for g
    using incarnations_boundD [OF inc that] assms(3) by simp
  ultimately have start: "sys_step sp s ?s"
    unfolding started_def using assms(3) by (intro sys_start) auto
  have "n \<notin> node_set c" using new node_set_iff [OF tracksD(3) [OF t]] by simp
  then have "tracks cd (node_set c) [n \<mapsto> ?e] c ?s"
    using t by (auto simp: tracks_def started_def put_engine_def)
  from add_tracks [OF this e assms(2)] obtain s' where s': "sys_quiet sp ?s s'"
    "tracks cd (insert n (node_set c)) Map.empty c' s'" by blast
  have "incarnations_bound (sys_log ?s) (inc(n := clk_unix_ms clk))"
    unfolding started_def using assms(3) by (auto intro!: incarnations_bound_publish [OF inc])
  then have "incarnations_bound (sys_log s') (inc(n := clk_unix_ms clk))" using s'(1) by (simp add: sys_quiet_def)
  moreover have "(sys_step sp)\<^sup>*\<^sup>* s s'" using start s'(1) by (auto simp: sys_quiet_def)
  ultimately show ?thesis
    using s'(2) by (intro exI [of _ s']) (auto simp: cluster_match_def tracks_def cluster_of_def)
qed

lemma match_mutate:
  assumes "cluster_match sp cd (c, inc) s" and "sys_inv sp s" and "cluster_mutate cd n f (rs_project sp) u c = Inr c'"
    and "node_engine c n = Some e" and "age (so_generation (eng_state e)) \<noteq> - 1"
  shows "\<exists>s'. (sys_step sp)\<^sup>*\<^sup>* s s' \<and> cluster_match sp cd (c', inc) s'"
proof -
  have t: "tracks cd (node_set c) Map.empty c s" and inc: "incarnations_bound (sys_log s) inc"
    using assms(1) by (auto simp: cluster_match_def)
  have "sys_engines s n = Some e" using t assms(4) by (simp add: tracks_def)
  then have node: "node_ok sp (sys_log s) n e" by (rule sys_invD(1) [OF assms(2)])
  obtain e' r where m: "mutate (cluster_reading c) f (rs_project sp) u e = (e', r)" by fastforce
  obtain s' where s': "sys_step sp s s'" "tracks cd (node_set c) Map.empty c' s'"
    "sys_log s' = publish n (mr_generation r) (mr_view r) (sys_log s)"
    using mutate_tracks [OF t assms(3-5) m] by blast
  have "incarnations_bound (sys_log s') inc" unfolding s'(3) by (rule incarnations_bound_mutate [OF inc node assms(5) m])
  then show ?thesis
    using s'(1,2) by (intro exI [of _ s']) (auto simp: cluster_match_def tracks_def cluster_of_def)
qed

lemma match_any:
  assumes "cluster_match sp cd st s" and "sys_inv sp s" and "cluster_step sp cd st st'"
  shows "\<exists>s'. (sys_step sp)\<^sup>*\<^sup>* s s' \<and> cluster_match sp cd st' s'"
  using assms(3,1,2)
proof (induction rule: cluster_step.induct)
  case (cluster_add n v clk dv c c' inc)
  then show ?case using match_add [of sp cd c inc s n v clk dv c'] by simp
next
  case (cluster_mutation n f u c c' e inc)
  then show ?case using match_mutate [of sp cd c inc s n f u c' e] by simp
next
  case (cluster_removal op c c' n inc)
  then have "tracks cd (node_set c) Map.empty c s" "c' = remove_node n c \<or> c' = remove_node_hard n c"
    by (auto simp: cluster_match_def)
  from remove_tracks [OF this] show ?case using match_quiet cluster_removal.prems(1) by blast
next
  case (cluster_tick c c' inc)
  then have "tracks cd (node_set c) Map.empty c s" "tick cd c = Inr c'" by (auto simp: cluster_match_def)
  from tick_tracks [OF this] show ?case using match_quiet cluster_tick.prems(1) by blast
next
  case (cluster_intercept i c c' inc)
  then have "tracks cd (node_set c) Map.empty c s" by (simp add: cluster_match_def)
  moreover from this cluster_intercept have "net_sound cd (sys_net s) (add_interceptor i (mc_transport c))"
    by (auto simp: tracks_def carries_def net_sound_def add_interceptor_def)
  ultimately have "tracks cd (node_set c) Map.empty c' s"
    using tracks_transport cluster_intercept.hyps(1) by fastforce
  then show ?case using match_quiet [OF sys_quiet_refl] cluster_intercept.prems(1) by blast
next
  case (cluster_heal c c' inc)
  then have "tracks cd (node_set c) Map.empty c s" by (simp add: cluster_match_def)
  moreover from this have "net_sound cd (sys_net s) (clear_interceptors (mc_transport c))"
    by (auto simp: tracks_def carries_def net_sound_def clear_interceptors_def)
  ultimately have "tracks cd (node_set c) Map.empty c' s"
    using tracks_transport cluster_heal.hyps(1) by fastforce
  then show ?case using match_quiet [OF sys_quiet_refl] cluster_heal.prems(1) by blast
qed

lemma match_start:
  assumes "cluster_start cd st" shows "\<exists>s. sys_init s \<and> cluster_match sp cd st s"
proof -
  obtain clock d seed where c: "fst st = cluster_new clock d seed" "wire_ok cd" "tick_ms (fst st) \<noteq> 0"
    using assms by (auto simp: cluster_start_def)
  have "cluster_of {} (fst st)" by (rule cluster_new_of [OF c(3,1)])
  moreover have "carries cd {} (fst st)" "node_engine (fst st) = Map.empty"
    by (simp_all add: c(1) carries_def net_sound_def cluster_new_def transport_new_def bt_get_def node_engine_def fun_eq_iff)
  ultimately show ?thesis
    using c(2) by (intro exI [of _ sys_empty])
      (auto simp: cluster_match_def tracks_def sys_init_def sys_empty_def cluster_of_def incarnations_bound_def)
qed

interpretation refine: forward_simulation "\<lambda>st. codec_ok sp \<and> cluster_start cd st" "cluster_step sp cd" sys_init "sys_step sp"
    "\<lambda>st s. codec_ok sp \<and> cluster_match sp cd st s" for sp cd
  by unfold_locales (metis match_start, metis match_any reachable_sys_inv)

lemma cluster_refined:
  assumes "codec_ok sp" and "reachable (cluster_start cd) (cluster_step sp cd) (c, inc)"
  shows "\<exists>s. reachable sys_init (sys_step sp) s \<and> sys_engines s = node_engine c \<and> net_sound cd (sys_net s) (mc_transport c) \<and>
    cluster_wf c"
  using refine.reachable_match [of sp cd "(c, inc)"] assms
  by (auto simp: cluster_match_def tracks_def carries_def cluster_of_def)

subsection \<open>Consistency of the simulated cluster\<close>

text \<open>
  C11: the mock cluster refines the replication protocol. Take a state that the cluster reaches from an empty one by any
  sequence of node additions (each with an incarnation newer than the earlier ones of its id), removals, mutations, ticks
  and changes of an interceptor pipeline that may drop, delay, duplicate and damage messages but not forge
  them. Then the protocol reaches a state with the same engines, whose network holds every message that bytes in flight
  decode to.
\<close>

theorem cluster_refines_replication:
  assumes "codec_ok sp" and "reachable (cluster_start cd) (cluster_step sp cd) (c, inc)"
  shows "\<exists>s. reachable sys_init (sys_step sp) s \<and> (\<forall>n e. cluster_engine n c = Inr e \<longleftrightarrow> sys_engines s n = Some e) \<and>
    (\<forall>m \<in> set (mt_in_flight (mc_transport c)). \<forall>w. wc_deserialize cd (fm_data m) = Inr w \<longrightarrow> w \<in> sys_net s)"
  using cluster_refined [OF assms]
  by (auto simp: cluster_engine_node net_sound_def list_all_iff decodes_into_def)

text \<open>A codec for wire messages that round-trips: a message is its number, in unary.\<close>

instance generation :: countable by countable_datatype

instance sync_message :: countable by countable_datatype

fun wire_fields :: "wire_message \<Rightarrow> sync_message + node_id \<times> (string \<times> node_id \<times> generation) list" where
  "wire_fields (Sync m) = Inl m"
| "wire_fields (Feed f) = Inr (bf_source_node f,
     map (\<lambda>n. (cn_state_name n, cn_source_node n, cn_generation n)) (bf_notifications f))"

fun fields_wire :: "sync_message + node_id \<times> (string \<times> node_id \<times> generation) list \<Rightarrow> wire_message" where
  "fields_wire (Inl m) = Sync m"
| "fields_wire (Inr (k, ns)) = Feed \<lparr>bf_source_node = k,
     bf_notifications = map (\<lambda>(s, n, g). \<lparr>cn_state_name = s, cn_source_node = n, cn_generation = g\<rparr>) ns\<rparr>"

definition unary_codec :: wire_codec where
  "unary_codec = \<lparr>wc_serialize = (\<lambda>m. replicate (to_nat (wire_fields m)) 0),
     wc_deserialize = (\<lambda>bs. Inr (fields_wire (from_nat (length bs))))\<rparr>"

lemma fields_wire_fields: "fields_wire (wire_fields m) = m"
proof (cases m)
  case (Feed f)
  have "(\<lambda>n. \<lparr>cn_state_name = cn_state_name n, cn_source_node = cn_source_node n, cn_generation = cn_generation n\<rparr>) = id"
    by (simp add: fun_eq_iff)
  then show ?thesis using Feed by (cases f) (simp add: comp_def)
qed simp

lemma unary_codec_ok: "wire_ok unary_codec"
  by (simp add: wire_ok_def unary_codec_def fields_wire_fields)

text \<open>Two nodes: \<open>a\<close> is added, then \<open>b\<close>, and \<open>a\<close> holds a view of \<open>b\<close>.\<close>

definition byte_start :: "(u8, u8) mock_cluster \<times> (node_id \<Rightarrow> u64)" where
  "byte_start = (cluster_new (test_clock_with_base 0 1000000) (from_millis 100) 42, \<lambda>_. 0)"

lemma byte_start_ok: "cluster_start unary_codec byte_start"
  by (auto simp: cluster_start_def byte_start_def unary_codec_ok tick_ms_def cluster_new_def from_millis_def as_millis_def)

lemma byte_start_reachable: "reachable (cluster_start unary_codec) (cluster_step byte_spec unary_codec) byte_start"
  by (rule reachable_init) (rule byte_start_ok)

lemma start_id [simp]: "eng_node_id (start_engine sp n v clk) = n"
  by (simp add: start_engine_def engine_new_def shard_new_def Let_def)

lemma first_node:
  assumes "mc_nodes c = []" and "feed_interval_of e c = Inr i"
  shows "add_node cd e dv c = Inr (c\<lparr>mc_nodes :=
    [(eng_node_id e, \<lparr>mn_engine = e, mn_scheduled = [], mn_feed_flush_counter = 0, mn_feed_flush_interval = i\<rparr>)]\<rparr>)"
  using assms by (simp add: add_node_def Let_def bt_get_def bt_keys_def route_all_def set_node_def bt_insert_def)

lemma second_node:
  assumes "mc_nodes c = [(k, mn)]" and "k < eng_node_id e" and "feed_interval_of e c = Inr i"
    and "on_node_joined (cluster_reading c) (eng_node_id e) dv (mn_engine mn) = Inr (e1, [SendSync (eng_node_id e) m1])"
    and "on_node_joined (cluster_reading c) k dv e = Inr (e2, [SendSync k m2])"
  shows "add_node cd e dv c = Inr (c\<lparr>
    mc_nodes := [(k, mn\<lparr>mn_engine := e1\<rparr>), (eng_node_id e, \<lparr>mn_engine = e2, mn_scheduled = [], mn_feed_flush_counter = 0,
      mn_feed_flush_interval = i\<rparr>)],
    mc_transport := transport_send cd (eng_node_id e) k (Sync m2)
      (transport_send cd k (eng_node_id e) (Sync m1) (mc_transport c))\<rparr>)"
proof -
  have "feed_interval_of e (c\<lparr>mc_nodes := ns, mc_transport := t\<rparr>) = Inr i" for ns t
    using assms(3) by (simp add: feed_interval_of_def tick_ms_def)
  moreover have "cluster_reading (c\<lparr>mc_nodes := ns, mc_transport := t\<rparr>) = cluster_reading c" for ns t
    by (simp add: cluster_reading_def)
  ultimately show ?thesis
    using assms
    by (simp add: add_node_def Let_def bt_get_def bt_keys_def announce_to_existing_def announce_existing_def
        route_all_def route_actions_def set_node_def bt_insert_def)
qed

lemma byte_pair_cluster:
  obtains c inc e owner v where "reachable (cluster_start unary_codec) (cluster_step byte_spec unary_codec) (c, inc)"
    "cluster_engine ''a'' c = Inr e" "cluster_engine ''b'' c = Inr owner" "eng_get_view e ''b'' = Some v"
proof -
  let ?a = "start_engine byte_spec ''a'' 3 demo_clock" and ?b = "start_engine byte_spec ''b'' 4 demo_clock"
  let ?c0 = "fst byte_start"
  have wf: "engine_wf ?a" "engine_wf ?b" by (simp_all add: start_engine_def wf_intros)
  have c0: "cluster_of {} ?c0" using byte_start_ok by (auto simp: cluster_start_def intro: cluster_new_of)
  obtain i where i: "feed_interval_of ?a ?c0 = Inr i" using feed_interval_ok [OF c0] by blast
  define mn where "mn = \<lparr>mn_engine = ?a, mn_scheduled = [], mn_feed_flush_counter = 0, mn_feed_flush_interval = i\<rparr>"
  define c1 where "c1 = ?c0\<lparr>mc_nodes := [(''a'', mn)]\<rparr>"
  have "add_node unary_codec ?a 0 ?c0 = Inr c1"
    using first_node [OF _ i, of unary_codec 0] by (simp add: byte_start_def cluster_new_def c1_def mn_def)
  then have "cluster_step byte_spec unary_codec byte_start (c1, (\<lambda>_. 0)(''a'' := 1000))"
    using cluster_add [of unary_codec byte_spec "''a''" 3 demo_clock 0 ?c0 c1 "\<lambda>_. 0"]
    by (simp add: byte_start_def demo_clock_def)
  with byte_start_reachable have r1: "reachable (cluster_start unary_codec) (cluster_step byte_spec unary_codec)
      (c1, (\<lambda>_. 0)(''a'' := 1000))" by (rule reachable_step)
  obtain ea ma where ea: "on_node_joined (cluster_reading c1) ''b'' 0 ?a = Inr (ea, [SendSync ''b'' ma])"
    "eng_shard ea = shard_on_node_joined (cluster_reading c1) ''b'' 0 (eng_shard ?a)"
    using joined_ok [OF wf(1)] by metis
  obtain eb mb where eb: "on_node_joined (cluster_reading c1) ''a'' 0 ?b = Inr (eb, [SendSync ''a'' mb])"
    using joined_ok [OF wf(2)] by metis
  have "tick_ms c1 \<noteq> 0" using c0 by (simp add: c1_def cluster_of_def cluster_wf_def tick_ms_def)
  then obtain j where "feed_interval_of ?b c1 = Inr j" by (auto simp: feed_interval_of_def div_ceil_def Let_def)
  from second_node [OF _ _ this, of "''a''" mn 0 ea ma eb mb unary_codec] ea(1) eb obtain c where
    c: "add_node unary_codec ?b 0 c1 = Inr c" "node_engine c = [''a'' \<mapsto> ea, ''b'' \<mapsto> eb]"
    by (auto simp: c1_def mn_def node_engine_def bt_get_def fun_eq_iff)
  have "reachable (cluster_start unary_codec) (cluster_step byte_spec unary_codec)
      (c, (\<lambda>_. 0)(''a'' := 1000, ''b'' := 1000))"
    by (rule reachable_step [OF r1]) (use c(1)
      cluster_add [of unary_codec byte_spec "''b''" 4 demo_clock 0 c1 c "(\<lambda>_. 0)(''a'' := 1000)"]
      in \<open>simp add: demo_clock_def\<close>)
  moreover have "\<exists>v. eng_get_view ea ''b'' = Some v"
    using engine_wfD [OF wf(1)] start_id [of byte_spec "''a''" 3 demo_clock]
    by (auto simp: eng_get_view_def ea(2) lookup_simps)
  ultimately show thesis using that c(2) by (auto simp: cluster_engine_node)
qed

text \<open>
  C12: consistency holds in the simulated cluster. In every state the mock cluster reaches that way, the view that
  a node's engine holds of another member is at most at that member's generation, and at the same
  generation it shows exactly the projection of that member's state.
\<close>

theorem cluster_replicas_consistent:
  assumes "codec_ok sp" and "reachable (cluster_start cd) (cluster_step sp cd) (c, inc)"
    and "cluster_engine n c = Inr e" and "cluster_engine k c = Inr owner" and "eng_get_view e k = Some v"
  shows "sv_generation v \<le> so_generation (eng_state owner) \<and>
    (sv_generation v = so_generation (eng_state owner) \<longrightarrow> sv_value v = rs_project sp (so_value (eng_state owner)))"
proof -
  from cluster_refined [OF assms(1,2)] obtain s where s: "reachable sys_init (sys_step sp) s" "sys_engines s = node_engine c"
    by (elim exE conjE)
  show ?thesis
    by (rule owner_bounds_views [OF assms(1) s(1) _ _ assms(5)]) (use assms(3,4) s(2) in \<open>simp_all add: cluster_engine_node\<close>)
qed

theorem cluster_replicas_consistent_witness:
  "\<exists>c inc e owner v. reachable (cluster_start unary_codec) (cluster_step byte_spec unary_codec) (c, inc) \<and>
     cluster_engine ''a'' c = Inr e \<and> cluster_engine ''b'' c = Inr owner \<and> eng_get_view e ''b'' = Some v \<and>
     sv_generation v \<le> so_generation (eng_state owner)"
proof -
  obtain c inc e owner v where *: "reachable (cluster_start unary_codec) (cluster_step byte_spec unary_codec) (c, inc)"
    "cluster_engine ''a'' c = Inr e" "cluster_engine ''b'' c = Inr owner" "eng_get_view e ''b'' = Some v"
    using byte_pair_cluster .
  from cluster_replicas_consistent [OF byte_codec *] * show ?thesis by blast
qed

theorem cluster_refines_replication_witness:
  "\<exists>c inc s e. reachable (cluster_start unary_codec) (cluster_step byte_spec unary_codec) (c, inc) \<and>
     reachable sys_init (sys_step byte_spec) s \<and> cluster_engine ''b'' c = Inr e \<and> sys_engines s ''b'' = Some e"
proof -
  obtain c inc e owner v where *: "reachable (cluster_start unary_codec) (cluster_step byte_spec unary_codec) (c, inc)"
    "cluster_engine ''a'' c = Inr e" "cluster_engine ''b'' c = Inr owner" "eng_get_view e ''b'' = Some v"
    using byte_pair_cluster .
  from cluster_refines_replication [OF byte_codec *(1)] *(1,3) show ?thesis by blast
qed

text \<open>
  C17: the views of a cluster are well-formed. In every state the mock cluster reaches that way, every engine is filed
  under its own id and has a view of itself; a view is filed under the node it came from, an
  announced newer generation is strictly newer than the view's, and no view of a departed node is left.
\<close>

theorem cluster_views_well_formed:
  assumes "codec_ok sp" and "reachable (cluster_start cd) (cluster_step sp cd) (c, inc)" and "cluster_engine n c = Inr e"
  shows "eng_node_id e = n \<and> eng_get_view e n \<noteq> None \<and>
    (\<forall>k v. eng_get_view e k = Some v \<longrightarrow> sv_source_node v = k \<and>
      (\<forall>g. sv_pending_remote_generation v = Some g \<longrightarrow> sv_generation v < g) \<and>
      (k \<noteq> n \<longrightarrow> k \<notin> ll_departed_nodes (eng_lifecycle e)))"
proof -
  obtain mn where mn: "bt_get (mc_nodes c) n = Some mn" "mn_engine mn = e"
    using assms(3) by (auto simp: cluster_engine_def split: option.splits)
  have wf: "cluster_wf c" using cluster_refined [OF assms(1,2)] by blast
  have e: "engine_wf e" "eng_node_id e = n" using cluster_wfD(3,4) [OF wf mn(1)] mn(2) by simp_all
  show ?thesis
    using engine_wfD [OF e(1)] e(2)
    by (auto simp: shard_wf_def view_ok_def no_ghosts_def eng_get_view_def)
qed

theorem cluster_views_well_formed_witness:
  "\<exists>c inc e. reachable (cluster_start unary_codec) (cluster_step byte_spec unary_codec) (c, inc) \<and>
     cluster_engine ''a'' c = Inr e \<and> eng_node_id e = ''a''"
proof -
  obtain c inc e owner v where *: "reachable (cluster_start unary_codec) (cluster_step byte_spec unary_codec) (c, inc)"
    "cluster_engine ''a'' c = Inr e" "cluster_engine ''b'' c = Inr owner" "eng_get_view e ''b'' = Some v"
    using byte_pair_cluster .
  from cluster_views_well_formed [OF byte_codec *(1,2)] *(1,2) show ?thesis by blast
qed

subsection \<open>Members accept each other\<close>

lemma cluster_step_op:
  assumes "cluster_step sp cd st st'"
  shows "\<exists>op. cluster_apply cd op (fst st) = Inr (fst st') \<and> (\<forall>e dv. op = OpAdd e dv \<longrightarrow> engine_wf e \<and> departed e = {})"
  using assms
proof (induction rule: cluster_step.induct)
  case (cluster_add n v clk dv c c' inc)
  moreover have "engine_wf (start_engine sp n v clk) \<and> departed (start_engine sp n v clk) = {}"
    by (simp add: start_engine_def wf_intros) (simp add: engine_new_def lifecycle_new_def Let_def)
  ultimately show ?case by (intro exI [of _ "OpAdd (start_engine sp n v clk) dv"]) simp
next
  case (cluster_mutation n f u c c' e inc)
  then show ?case by (intro exI [of _ "OpMutate n f (rs_project sp) u"]) simp
next
  case (cluster_removal op c c' n inc)
  then show ?case by (intro exI [of _ op]) auto
next
  case (cluster_tick c c' inc)
  then show ?case by (intro exI [of _ OpTick]) simp
next
  case (cluster_intercept i c c' inc)
  then show ?case by (intro exI [of _ "OpIntercept i"]) simp
next
  case (cluster_heal c c' inc)
  then show ?case by (intro exI [of _ OpHeal]) simp
qed

lemma cluster_trusts:
  assumes "reachable (cluster_start cd) (cluster_step sp cd) st"
  shows "trusts (node_set (fst st)) (node_set (fst st)) (fst st)"
  using assms
proof (induction rule: reachable.induct)
  case (reachable_init st)
  then obtain clock d seed where c: "fst st = cluster_new clock d seed" "tick_ms (fst st) \<noteq> 0"
    by (auto simp: cluster_start_def)
  have "cluster_of {} (fst st)" by (rule cluster_new_of [OF c(2,1)])
  moreover from this have "node_set (fst st) = {}" by (simp add: cluster_of_def)
  ultimately show ?case by (simp add: trusts_def)
next
  case (reachable_step st st')
  obtain op where op: "cluster_apply cd op (fst st) = Inr (fst st')"
    "\<forall>e dv. op = OpAdd e dv \<longrightarrow> engine_wf e \<and> departed e = {}"
    using cluster_step_op [OF reachable_step.hyps(2)] by blast
  have "trusts (op_members op (node_set (fst st))) (op_members op (node_set (fst st))) (fst st')"
    by (rule cluster_apply_trusts [OF op(1) reachable_step.IH]) (use op(2) in simp)
  moreover from this have "node_set (fst st') = op_members op (node_set (fst st))" by (simp add: trusts_def cluster_of_def)
  ultimately show ?case by simp
qed

lemma member_accepts:
  assumes "reachable (cluster_start cd) (cluster_step sp cd) (c, inc)" and "node_engine c n = Some e" and "k \<in> node_set c"
  shows "k \<notin> departed e"
  using cluster_trusts [OF assms(1)] assms(2,3) by (auto simp: trusts_def node_engine_def)

text \<open>
  C40: members accept each other. In every state the mock cluster reaches by additions, removals, mutations, ticks and honest
  interceptors, no engine of a member counts a member as departed, and so none of them ignores the messages of another. The departure
  of a node that was removed and added again is forgotten by all of them.
\<close>

theorem cluster_members_accept:
  assumes "reachable (cluster_start cd) (cluster_step sp cd) (c, inc)"
    and "cluster_engine n c = Inr e" and "k \<in> set (all_node_ids c)"
  shows "eng_should_accept_from e k \<and> \<not> is_departed (eng_lifecycle e) k"
  using member_accepts [OF assms(1), of n e k] assms(2,3)
  by (simp add: cluster_engine_node node_set_def eng_should_accept_from_def ll_should_accept_from_def is_departed_def)

subsection \<open>A mutation reaches the reachable cluster\<close>

lemma cluster_ready:
  assumes "codec_ok sp" and "reachable (cluster_start cd) (cluster_step sp cd) (c, inc)"
    and "node_engine c k = Some owner" and "node_engine c j = Some e" and "age (so_generation (eng_state owner)) \<noteq> - 1"
  shows "ready_for f (rs_project sp) owner e"
proof -
  obtain s where s: "reachable sys_init (sys_step sp) s" "sys_engines s = node_engine c" and wf: "cluster_wf c"
    using cluster_refined [OF assms(1,2)] by blast
  have "node_ok sp (sys_log s) n x" if "node_engine c n = Some x" for n x
    using sys_invD(1) [OF reachable_sys_inv [OF s(1) assms(1)], of n x] s(2) that by simp
  note p = node_params [OF node_okD(2) [OF this [OF assms(3)]]] node_params [OF node_okD(2) [OF this [OF assms(4)]]]
  have "k \<in> node_set c" using assms(3) node_set_iff [OF wf] by (auto simp: node_engine_def)
  then have "eng_should_accept_from e k"
    using member_accepts [OF assms(2,4)] by (simp add: eng_should_accept_from_def ll_should_accept_from_def)
  moreover have "sv_generation v < age_inc (so_generation (eng_state owner))" if "eng_get_view e k = Some v" for v
  proof -
    have "sv_generation v \<le> so_generation (eng_state owner)"
      using owner_bounds_views [OF assms(1) s(1) _ _ that, of j owner] assms(3,4) s(2) by simp
    then show ?thesis using age_inc_less [OF assms(5)] by simp
  qed
  ultimately show ?thesis
    using assms(1) by (simp add: ready_for_def p codec_ok_def Let_def split: option.split)
qed

text \<open>
  C7: a mutation reaches every member in two ticks. Take a mock cluster of nodes that replicate one state type, in any state it reaches
  by additions, removals, mutations, ticks and honest interceptors, that is settled and whose interceptors have been removed; view
  and wire codecs round-trip, and the tick counter and the age of the mutated node are not at their maximum. Mutate one member
  with urgency \<open>Immediate\<close>. Nothing panics, and after two ticks the cluster is settled again with the same members, and
  every member, the mutated one included, shows the mutated state at its new generation.
\<close>

theorem cluster_mutation_propagates:
  assumes "codec_ok sp" and "reachable (cluster_start cd) (cluster_step sp cd) (c, inc)"
    and "is_settled c" and "mt_interceptors (mc_transport c) = []" and "mt_current_tick (mc_transport c) \<noteq> - 1"
    and "cluster_engine k c = Inr owner" and "age (so_generation (eng_state owner)) \<noteq> - 1"
  shows "\<exists>c1 c2. cluster_mutate cd k f (rs_project sp) Immediate c = Inr c1 \<and> tick_n cd 2 c1 = Inr c2 \<and>
    is_settled c2 \<and> set (all_node_ids c2) = set (all_node_ids c) \<and>
    (\<forall>j \<in> set (all_node_ids c2). \<exists>e v. cluster_engine j c2 = Inr e \<and> eng_get_view e k = Some v \<and>
      sv_generation v = age_inc (so_generation (eng_state owner)) \<and>
      sv_value v = rs_project sp (f (so_value (eng_state owner))))"
proof -
  have c: "cluster_of (node_set c) c" using cluster_trusts [OF assms(2)] by (simp add: trusts_def)
  have wire: "wire_ok cd"
    using refine.reachable_match [of sp cd "(c, inc)"] assms(1,2) by (auto simp: cluster_match_def tracks_def)
  have "\<forall>j \<in> node_set c - {k}. \<forall>e. cluster_engine j c = Inr e \<longrightarrow> ready_for f (rs_project sp) owner e"
    using cluster_ready [OF assms(1,2) _ _ assms(7)] assms(6) unfolding cluster_engine_node by blast
  from mutation_propagates [OF c assms(3,6,4,5) _ this, of cd] wire show ?thesis
    by (simp add: wire_ok_def node_set_def) metis
qed

text \<open>
  Two nodes that know of each other and are at rest: \<open>a\<close> and \<open>b\<close> are added while every message is dropped, and then the interceptor is
  removed.
\<close>

lemma send_dropped:
  assumes "mt_interceptors t = [boxed drop_all]"
  shows "transport_send cd from to msg t = t\<lparr>mt_message_counter := mt_message_counter t + 1\<rparr>"
  using assms by (simp add: transport_send_def send_bytes_def apply_interceptors_def drop_all_def Let_def)

lemma joined_feed: "on_node_joined c n dv e = Inr (e', acts) \<Longrightarrow> eng_change_feed e' = eng_change_feed e"
  by (auto simp: on_node_joined_def ll_on_node_joined_def Let_def frame_simps split: sum.splits)

lemma byte_quiet_cluster:
  obtains c inc owner where "reachable (cluster_start unary_codec) (cluster_step byte_spec unary_codec) (c, inc)"
    "is_settled c" "mt_interceptors (mc_transport c) = []" "mt_current_tick (mc_transport c) = 0"
    "cluster_engine ''a'' c = Inr owner" "set (all_node_ids c) = {''a'', ''b''}"
    "so_generation (eng_state owner) = Generation 1000 0" "so_value (eng_state owner) = 3"
proof -
  let ?R = "reachable (cluster_start unary_codec) (cluster_step byte_spec unary_codec)"
  let ?a = "start_engine byte_spec ''a'' 3 demo_clock" and ?b = "start_engine byte_spec ''b'' 4 demo_clock"
  have wf: "engine_wf ?a" "engine_wf ?b" by (simp_all add: start_engine_def wf_intros)
  define c0 where "c0 = (fst byte_start)\<lparr>mc_transport := (mc_transport (fst byte_start))\<lparr>mt_interceptors := [boxed drop_all]\<rparr>\<rparr>"
  have t0: "mt_interceptors (mc_transport c0) = [boxed drop_all]" "mt_in_flight (mc_transport c0) = []"
    "mt_current_tick (mc_transport c0) = 0" "mc_nodes c0 = []" "tick_ms c0 \<noteq> 0"
    by (simp_all add: c0_def byte_start_def cluster_new_def transport_new_def tick_ms_def from_millis_def as_millis_def)
  have "cluster_step byte_spec unary_codec byte_start (c0, \<lambda>_. 0)"
    using cluster_intercept [of unary_codec "boxed drop_all" "fst byte_start" c0 byte_spec "\<lambda>_. 0"] builtin_honest(2)
    by (simp add: c0_def byte_start_def add_interceptor_def cluster_new_def transport_new_def)
  with byte_start_reachable have r0: "?R (c0, \<lambda>_. 0)" by (rule reachable_step)
  have interval: "\<exists>i. feed_interval_of e c = Inr i" if "tick_ms c \<noteq> 0" for e :: "(u8, u8) engine" and c
    using that by (auto simp: feed_interval_of_def div_ceil_def Let_def)
  obtain i where i: "feed_interval_of ?a c0 = Inr i" using interval [OF t0(5)] by blast
  define mn where "mn = \<lparr>mn_engine = ?a, mn_scheduled = [], mn_feed_flush_counter = 0, mn_feed_flush_interval = i\<rparr>"
  define c1 where "c1 = c0\<lparr>mc_nodes := [(''a'', mn)]\<rparr>"
  have "add_node unary_codec ?a 0 c0 = Inr c1" using first_node [OF t0(4) i] by (simp add: c1_def mn_def)
  then have "cluster_step byte_spec unary_codec (c0, \<lambda>_. 0) (c1, (\<lambda>_. 0)(''a'' := 1000))"
    using cluster_add [of unary_codec byte_spec "''a''" 3 demo_clock 0 c0 c1 "\<lambda>_. 0"] by (simp add: demo_clock_def)
  with r0 have r1: "?R (c1, (\<lambda>_. 0)(''a'' := 1000))" by (rule reachable_step)
  obtain ea ma where ea: "on_node_joined (cluster_reading c1) ''b'' 0 ?a = Inr (ea, [SendSync ''b'' ma])"
    "eng_shard ea = shard_on_node_joined (cluster_reading c1) ''b'' 0 (eng_shard ?a)"
    using joined_ok [OF wf(1)] by metis
  obtain eb mb where eb: "on_node_joined (cluster_reading c1) ''a'' 0 ?b = Inr (eb, [SendSync ''a'' mb])"
    using joined_ok [OF wf(2)] by metis
  have "tick_ms c1 \<noteq> 0" using t0(5) by (simp add: c1_def tick_ms_def)
  then obtain j where j: "feed_interval_of ?b c1 = Inr j" using interval by blast
  define c2 where "c2 = c1\<lparr>mc_nodes := [(''a'', mn\<lparr>mn_engine := ea\<rparr>), (''b'', \<lparr>mn_engine = eb, mn_scheduled = [],
      mn_feed_flush_counter = 0, mn_feed_flush_interval = j\<rparr>)],
    mc_transport := (mc_transport c0)\<lparr>mt_message_counter := mt_message_counter (mc_transport c0) + 2\<rparr>\<rparr>"
  have "add_node unary_codec ?b 0 c1 = Inr c2"
    using second_node [OF _ _ j, of "''a''" mn 0 ea ma eb mb unary_codec] ea(1) eb t0(1)
    by (simp add: c1_def c2_def mn_def send_dropped)
  then have r2: "?R (c2, (\<lambda>_. 0)(''a'' := 1000, ''b'' := 1000))"
    using cluster_add [of unary_codec byte_spec "''b''" 4 demo_clock 0 c1 c2 "(\<lambda>_. 0)(''a'' := 1000)"]
    by (intro reachable_step [OF r1]) (simp add: demo_clock_def)
  define c where "c = c2\<lparr>mc_transport := clear_interceptors (mc_transport c2)\<rparr>"
  have "?R (c, (\<lambda>_. 0)(''a'' := 1000, ''b'' := 1000))"
    by (rule reachable_step [OF r2]) (rule cluster_heal, simp add: c_def)
  moreover have "pending_change_feed_count ea = 0" "pending_change_feed_count eb = 0"
    by (simp_all add: pending_change_feed_count_def joined_feed [OF ea(1)] joined_feed [OF eb])
      (simp_all add: start_engine_def engine_new_def cf_pending_count_def cf_new_def Let_def)
  then have "is_settled c"
    using t0 by (simp add: is_settled_def c_def c2_def mn_def clear_interceptors_def in_flight_count_def)
  moreover have "cluster_engine ''a'' c = Inr ea"
    by (simp add: cluster_engine_def c_def c2_def bt_get_def)
  moreover have "eng_state ea = new_state_object 3 1000 demo_clock"
    by (simp add: eng_state_def ea(2) frame_simps) (simp add: start_engine_def engine_new_def shard_new_def demo_clock_def Let_def)
  ultimately show thesis
    using that [of c _ ea] t0(3)
    by (simp add: c_def c2_def clear_interceptors_def all_node_ids_def bt_keys_def new_state_object_def generation_new_def)
qed

theorem cluster_mutation_propagates_witness:
  "\<exists>c inc c1 c2 e v. reachable (cluster_start unary_codec) (cluster_step byte_spec unary_codec) (c, inc) \<and>
     cluster_mutate unary_codec ''a'' ((+) 1) (rs_project byte_spec) Immediate c = Inr c1 \<and> tick_n unary_codec 2 c1 = Inr c2 \<and>
     cluster_engine ''b'' c2 = Inr e \<and> eng_get_view e ''a'' = Some v \<and> sv_generation v = Generation 1000 1 \<and> sv_value v = 4"
proof -
  obtain c inc owner where *: "reachable (cluster_start unary_codec) (cluster_step byte_spec unary_codec) (c, inc)"
    "is_settled c" "mt_interceptors (mc_transport c) = []" "mt_current_tick (mc_transport c) = 0"
    "cluster_engine ''a'' c = Inr owner" "set (all_node_ids c) = {''a'', ''b''}"
    "so_generation (eng_state owner) = Generation 1000 0" "so_value (eng_state owner) = 3"
    using byte_quiet_cluster .
  have "mt_current_tick (mc_transport c) \<noteq> - 1" "age (so_generation (eng_state owner)) \<noteq> - 1" using *(4,7) by simp_all
  from cluster_mutation_propagates [OF byte_codec *(1-3) this(1) *(5) this(2), of "(+) 1"] *(1,6-8) show ?thesis
    by (fastforce simp: age_inc_def byte_spec_def)
qed

theorem cluster_members_accept_witness:
  "\<exists>c inc e. reachable (cluster_start unary_codec) (cluster_step byte_spec unary_codec) (c, inc) \<and>
     cluster_engine ''a'' c = Inr e \<and> eng_should_accept_from e ''b''"
proof -
  obtain c inc owner where *: "reachable (cluster_start unary_codec) (cluster_step byte_spec unary_codec) (c, inc)"
    "cluster_engine ''a'' c = Inr owner" "set (all_node_ids c) = {''a'', ''b''}"
    using byte_quiet_cluster by metis
  from cluster_members_accept [OF *(1,2), of "''b''"] * show ?thesis by blast
qed

end
