(* ===== verification/In_Process.thy ===== *)
theory In_Process
  imports Test_States
begin

text \<open>
  The example \<open>dstate/examples/engine_demo.rs\<close>: a cluster of engines in one process that replicates a counter. Actions
  are routed by calling the target engines, and the responses recursively, so that a mutation returns when every
  effect of it is applied. \<open>SystemClock\<close> is a sequence \<open>now\<close> of readings, one for each call of an engine.
\<close>

subsection \<open>The counter\<close>

record counter =
  cnt_value :: u64
  cnt_label :: string

definition counter_default :: counter where
  "counter_default = \<lparr>cnt_value = 0, cnt_label = ''''\<rparr>"

definition counter_name :: string where
  "counter_name = ''counter''"

definition counter_wire_version :: u32 where
  "counter_wire_version = 1"

definition counter_serialize_state :: "counter bincode \<Rightarrow> counter \<Rightarrow> bytes" where
  "counter_serialize_state bc s = bc_serialize bc s"

definition counter_deserialize_state :: "counter bincode \<Rightarrow> bytes \<Rightarrow> u32 \<Rightarrow> deserialize_error + counter" where
  "counter_deserialize_state bc bs version =
     (if version \<noteq> counter_wire_version then Inl (unknown_version version)
      else case bc_deserialize bc bs of Inr x \<Rightarrow> Inr x | Inl e \<Rightarrow> Inl (Malformed e))"

subsection \<open>The cluster\<close>

text \<open>\<open>ipc_calls\<close> counts the engine calls so far; it selects the next clock reading.\<close>

record in_process_cluster =
  ipc_engines :: "(node_id, (counter, counter) engine) hmap"
  ipc_calls :: nat

datatype demo_panic =
    NoEngine node_id
  | DemoEngine engine_panic
  | DemoAssert string

type_synonym clock_stream = "nat \<Rightarrow> clock_reading"

definition ipc_now :: "clock_stream \<Rightarrow> in_process_cluster \<Rightarrow> clock_reading" where
  "ipc_now now c = now (ipc_calls c)"

definition ipc_get :: "node_id \<Rightarrow> in_process_cluster \<Rightarrow> demo_panic + (counter, counter) engine" where
  "ipc_get node c = (case hm_get (ipc_engines c) node of None \<Rightarrow> Inl (NoEngine node) | Some e \<Rightarrow> Inr e)"

definition ipc_put :: "node_id \<Rightarrow> (counter, counter) engine \<Rightarrow> in_process_cluster \<Rightarrow> in_process_cluster" where
  "ipc_put node e c = c\<lparr>ipc_engines := hm_insert node e (ipc_engines c), ipc_calls := Suc (ipc_calls c)\<rparr>"

subsection \<open>Routing\<close>

text \<open>The first loop of \<open>route_actions\<close>: the messages an action stands for. A delayed broadcast is delivered at once.\<close>

fun deliveries_of :: "node_id list \<Rightarrow> node_id \<Rightarrow> engine_action \<Rightarrow> (node_id \<times> wire_message) list" where
  "deliveries_of all_ids from (BroadcastSync msg) = map (\<lambda>peer. (peer, Sync msg)) (filter (\<lambda>peer. peer \<noteq> from) all_ids)"
| "deliveries_of all_ids from (SendSync target msg) = [(target, Sync msg)]"
| "deliveries_of all_ids from (ScheduleDelayed delay msg) =
     map (\<lambda>peer. (peer, Sync msg)) (filter (\<lambda>peer. peer \<noteq> from) all_ids)"

definition deliveries :: "node_id \<Rightarrow> engine_action list \<Rightarrow> in_process_cluster \<Rightarrow> (node_id \<times> wire_message) list" where
  "deliveries from actions c = concat (map (deliveries_of (hm_keys (ipc_engines c)) from) actions)"

text \<open>How many messages a message can lead to: a snapshot is answered by nothing, a request by a snapshot, a delta at most
  by a request.\<close>

fun message_weight :: "wire_message \<Rightarrow> nat" where
  "message_weight (Sync (DeltaUpdate _ _ _ _ _)) = 3"
| "message_weight (Sync (RequestSnapshot _ _)) = 2"
| "message_weight _ = 1"

abbreviation total_weight :: "(node_id \<times> wire_message) list \<Rightarrow> nat" where
  "total_weight ds \<equiv> sum_list (map (message_weight \<circ> snd) ds)"

lemma delta_response:
  "snd (handle_delta_update c name src gen wire data e) \<in>
     {[], [SendSync src (RequestSnapshot (eng_state_name e) (eng_node_id e))]}"
  by (auto simp: handle_delta_update_def make_snapshot_request_def Let_def case_prod_unfold frame_simps
      on_deserialize_error_def
      split: option.splits sum.splits delta_accept_result.splits version_mismatch_policy.splits)

lemma response_shape:
  assumes "handle_inbound c m e = Inr (e', acts)"
  shows "acts = [] \<or> (\<exists>t r. acts = [SendSync t r] \<and> message_weight (Sync r) < message_weight m)"
proof (cases m)
  case (Sync s)
  then show ?thesis
  proof (cases s)
    case (FullSnapshot name src gen wire data)
    then show ?thesis using assms Sync full_snapshot_frame(1) [of c name src gen wire data e] by simp
  next
    case (DeltaUpdate name src gen wire data)
    then show ?thesis using assms Sync delta_response [of c name src gen wire data e] by auto
  next
    case (RequestSnapshot name r)
    then show ?thesis
      using assms Sync
      by (auto simp: handle_request_snapshot_def own_full_snapshot_def Let_def split: if_splits sum.splits)
  qed
qed (use assms in auto)

lemma response_weight:
  assumes "handle_inbound c m e = Inr (e', acts)"
  shows "total_weight (deliveries from acts cl) < message_weight m"
proof -
  have "0 < message_weight m" by (cases m rule: message_weight.cases) simp_all
  then show ?thesis using response_shape [OF assms] by (auto simp: deliveries_def)
qed

text \<open>\<open>route_actions\<close> and its second loop, which delivers and routes the responses recursively.\<close>

function ipc_route_actions :: "clock_stream \<Rightarrow> node_id \<Rightarrow> engine_action list \<Rightarrow> in_process_cluster \<Rightarrow>
     demo_panic + in_process_cluster"
  and ipc_deliver :: "clock_stream \<Rightarrow> (node_id \<times> wire_message) list \<Rightarrow> in_process_cluster \<Rightarrow>
     demo_panic + in_process_cluster" where
  "ipc_route_actions now from actions c = ipc_deliver now (deliveries from actions c) c"
| "ipc_deliver now [] c = Inr c"
| "ipc_deliver now ((target, wire_msg) # rest) c =
     (case ipc_get target c of
        Inl p \<Rightarrow> Inl p
      | Inr e \<Rightarrow>
          (case handle_inbound (ipc_now now c) wire_msg e of
             Inl p \<Rightarrow> Inl (DemoEngine p)
           | Inr (e', response_actions) \<Rightarrow>
               (case (if response_actions \<noteq> [] then ipc_route_actions now target response_actions (ipc_put target e' c)
                      else Inr (ipc_put target e' c)) of
                  Inl p \<Rightarrow> Inl p
                | Inr c' \<Rightarrow> ipc_deliver now rest c')))"
  by pat_completeness auto

termination
proof (relation "measure (\<lambda>x. case x of Inl (now, from, actions, c) \<Rightarrow> 2 * total_weight (deliveries from actions c) + 1
    | Inr (now, ds, c) \<Rightarrow> 2 * total_weight ds)", goal_cases)
  case (3 now target wire_msg rest c e x e' response_actions)
  then have "total_weight (deliveries target response_actions (ipc_put target e' c)) < message_weight wire_msg"
    by (intro response_weight) auto
  then show ?case by simp
next
  case (4 now target wire_msg rest c)
  have "0 < message_weight wire_msg" by (cases wire_msg rule: message_weight.cases) simp_all
  then show ?case by simp
qed auto

subsection \<open>Operations\<close>

definition demo_node_id :: "nat \<Rightarrow> node_id" where
  "demo_node_id i = ''node-'' @ show_nat i"

definition demo_node_engine ::
    "counter bincode \<Rightarrow> state_config \<Rightarrow> clock_reading \<Rightarrow> node_id \<Rightarrow> (counter, counter) engine" where
  "demo_node_engine bc config clock node =
     engine_new counter_name node counter_default (\<lambda>s. s) config counter_wire_version clock
       (bc_serialize bc) (counter_deserialize_state bc) None"

definition create_engines ::
    "counter bincode \<Rightarrow> clock_stream \<Rightarrow> state_config \<Rightarrow> node_id list \<Rightarrow> in_process_cluster" where
  "create_engines bc now config ids =
     fold (\<lambda>node c. ipc_put node (demo_node_engine bc config (ipc_now now c) node) c) ids
       \<lparr>ipc_engines = [], ipc_calls = 0\<rparr>"

text \<open>The body of the two announcement loops, for the pair of indices \<open>i \<noteq> j\<close>.\<close>

definition announce_pair ::
    "clock_stream \<Rightarrow> node_id \<times> node_id \<Rightarrow> in_process_cluster \<times> (node_id \<times> engine_action list) list \<Rightarrow>
     demo_panic + in_process_cluster \<times> (node_id \<times> engine_action list) list" where
  "announce_pair now p acc =
     (case (p, acc) of ((node, peer_id), (c, join_actions)) \<Rightarrow>
        (case ipc_get node c of
           Inl p \<Rightarrow> Inl p
         | Inr e \<Rightarrow>
             (case on_node_joined (ipc_now now c) peer_id counter_default e of
                Inl p \<Rightarrow> Inl (DemoEngine p)
              | Inr (e', actions) \<Rightarrow>
                  Inr (ipc_put node e' c,
                       if actions \<noteq> [] then join_actions @ [(node, actions)] else join_actions))))"

definition index_pairs :: "nat \<Rightarrow> (nat \<times> nat) list" where
  "index_pairs n = [(i, j) \<leftarrow> List.product [0..<n] [0..<n]. i \<noteq> j]"

definition ipc_new ::
    "counter bincode \<Rightarrow> clock_stream \<Rightarrow> nat \<Rightarrow> state_config \<Rightarrow> demo_panic + in_process_cluster" where
  "ipc_new bc now node_count config =
     (let ids = map demo_node_id [0..<node_count];
          c = create_engines bc now config ids
      in result_bind (fold_result (announce_pair now) (map (\<lambda>(i, j). (ids ! i, ids ! j)) (index_pairs node_count)) (c, []))
           (\<lambda>(c, join_actions).
         fold_result (\<lambda>(from, actions) c. ipc_route_actions now from actions c) join_actions c))"

definition ipc_mutate ::
    "clock_stream \<Rightarrow> node_id \<Rightarrow> (counter \<Rightarrow> counter) \<Rightarrow> in_process_cluster \<Rightarrow> demo_panic + in_process_cluster" where
  "ipc_mutate now node f c =
     (case ipc_get node c of
        Inl p \<Rightarrow> Inl p
      | Inr e \<Rightarrow>
          (let (e', result) = mutate (ipc_now now c) f (\<lambda>s. s) DefaultUrgency e
           in ipc_route_actions now node (mr_actions result) (ipc_put node e' c)))"

text \<open>The map is computed before the requests to stale peers are routed.\<close>

definition ipc_query ::
    "clock_stream \<Rightarrow> node_id \<Rightarrow> in_process_cluster \<Rightarrow> demo_panic + in_process_cluster \<times> (node_id, u64) hmap" where
  "ipc_query now node c =
     (case ipc_get node c of
        Inl p \<Rightarrow> Inl p
      | Inr e \<Rightarrow>
          (let (result, actions) = query (ipc_now now c) (from_secs 60) (map (\<lambda>(id, vo). (id, cnt_value (sv_value vo)))) e;
               c' = ipc_put node e c;
               views = (case result of EngineFresh m \<Rightarrow> m | EngineStale m _ \<Rightarrow> m)
           in result_bind (if actions \<noteq> [] then ipc_route_actions now node actions c' else Inr c')
                (\<lambda>c''. Inr (c'', views))))"

text \<open>\<open>cluster.engines.get_mut(node).unwrap().on_node_left(gone)\<close> and \<open>cluster.engines.remove(gone)\<close>.\<close>

definition ipc_node_left :: "node_id \<Rightarrow> node_id \<Rightarrow> in_process_cluster \<Rightarrow> demo_panic + in_process_cluster" where
  "ipc_node_left gone node c =
     (case ipc_get node c of Inl p \<Rightarrow> Inl p | Inr e \<Rightarrow> Inr (ipc_put node (on_node_left gone e) c))"

definition ipc_remove :: "node_id \<Rightarrow> in_process_cluster \<Rightarrow> in_process_cluster" where
  "ipc_remove gone c = c\<lparr>ipc_engines := hm_remove gone (ipc_engines c)\<rparr>"

subsection \<open>The demo\<close>

definition demo_assert :: "bool \<Rightarrow> string \<Rightarrow> in_process_cluster \<Rightarrow> demo_panic + in_process_cluster" where
  "demo_assert b msg c = (if b then Inr c else Inl (DemoAssert msg))"

text \<open>\<open>main\<close> up to its last assertion: what follows reads the metrics and the health of a node and prints them.\<close>

definition demo_main :: "counter bincode \<Rightarrow> clock_stream \<Rightarrow> demo_panic + in_process_cluster" where
  "demo_main bc now =
     (let n0 = demo_node_id 0; n1 = demo_node_id 1; n2 = demo_node_id 2;
          config = state_config_default\<lparr>sc_sync_strategy := active_push\<rparr>
      in result_bind (ipc_new bc now 3 config) (\<lambda>c.
         result_bind (ipc_mutate now n0 (\<lambda>s. s\<lparr>cnt_value := 42, cnt_label := ''hello from node-0''\<rparr>) c) (\<lambda>c.
         result_bind (fold_result (\<lambda>node c. result_bind (ipc_query now node c) (\<lambda>(c, views). Inr c)) [n0, n1, n2] c) (\<lambda>c.
         result_bind (ipc_mutate now n1 (\<lambda>s. s\<lparr>cnt_value := 100, cnt_label := ''node-1 reporting''\<rparr>) c) (\<lambda>c.
         result_bind (ipc_mutate now n2 (\<lambda>s. s\<lparr>cnt_value := 200, cnt_label := ''node-2 active''\<rparr>) c) (\<lambda>c.
         result_bind (ipc_query now n0 c) (\<lambda>(c, views).
         result_bind (demo_assert (hm_get views n0 = Some 42) ''views[&n0] == 42'' c) (\<lambda>c.
         result_bind (demo_assert (hm_get views n1 = Some 100) ''views[&n1] == 100'' c) (\<lambda>c.
         result_bind (demo_assert (hm_get views n2 = Some 200) ''views[&n2] == 200'' c) (\<lambda>c.
         result_bind (fold_result (ipc_node_left n2) [n0, n1] c) (\<lambda>c.
         let c = ipc_remove n2 c
         in result_bind (ipc_query now n0 c) (\<lambda>(c, views).
            demo_assert (\<not> hm_contains_key views n2) ''departed node should be removed'' c))))))))))))"

subsection \<open>What the cluster keeps\<close>

text \<open>The generation and the value a node owns.\<close>

definition owned :: "in_process_cluster \<Rightarrow> node_id \<Rightarrow> (generation \<times> counter) option" where
  "owned c n = map_option (\<lambda>e. (so_generation (eng_state e), so_value (eng_state e))) (hm_get (ipc_engines c) n)"

definition demo_params where
  "demo_params bc config n = (counter_name, counter_wire_version, n,
     sync_logic_new counter_name (sc_sync_strategy config) False,
     versioning_new counter_name (sc_version_mismatch_policy config) counter_wire_version 1,
     bc_serialize bc, counter_deserialize_state bc, None)"

text \<open>No engine counts a member as departed, and a view is never ahead of what its node owns.\<close>

definition engine_sane where
  "engine_sane bc config ow n e \<longleftrightarrow> engine_wf e \<and> engine_params e = demo_params bc config n \<and>
     ll_departed_nodes (eng_lifecycle e) \<inter> dom ow = {} \<and> content_of (eng_shard e) n = ow n \<and>
     (\<forall>j g v. content_of (eng_shard e) j = Some (g, v) \<longrightarrow>
        (\<exists>g' v'. ow j = Some (g', v') \<and> g \<le> g' \<and> (g = g' \<longrightarrow> v = v')))"

definition sane :: "counter bincode \<Rightarrow> state_config \<Rightarrow> in_process_cluster \<Rightarrow> bool" where
  "sane bc config c \<longleftrightarrow> hm_wf (ipc_engines c) \<and>
     (\<forall>n e. hm_get (ipc_engines c) n = Some e \<longrightarrow> engine_sane bc config (owned c) n e)"

definition shown :: "in_process_cluster \<Rightarrow> node_id \<Rightarrow> node_id \<Rightarrow> bool" where
  "shown c i j \<longleftrightarrow> owned c j \<noteq> None \<and>
     (\<exists>e. hm_get (ipc_engines c) i = Some e \<and> content_of (eng_shard e) j = owned c j)"

fun msg_current :: "counter bincode \<Rightarrow> in_process_cluster \<Rightarrow> wire_message \<Rightarrow> bool" where
  "msg_current bc c (Sync (FullSnapshot name src g w data)) \<longleftrightarrow> name = counter_name \<and> w = counter_wire_version \<and>
     (\<exists>v. owned c src = Some (g, v) \<and> data = bc_serialize bc v)"
| "msg_current bc c (Sync (RequestSnapshot name r)) \<longleftrightarrow> owned c r \<noteq> None"
| "msg_current bc c _ \<longleftrightarrow> False"

fun snapshot_of :: "wire_message \<Rightarrow> node_id option" where
  "snapshot_of (Sync (FullSnapshot name src g w data)) = Some src"
| "snapshot_of _ = None"

lemma demo_node_params: "engine_params (demo_node_engine bc config clk n) = demo_params bc config n"
  by (simp add: engine_params_def demo_params_def demo_node_engine_def engine_new_def shard_new_def Let_def)

lemma owned_dom: "hm_wf (ipc_engines c) \<Longrightarrow> set (hm_keys (ipc_engines c)) = dom (owned c)"
  by (auto simp: hm.keys_law owned_def)

lemma ipc_put_get:
  "hm_wf (ipc_engines c) \<Longrightarrow> hm_get (ipc_engines (ipc_put n e c)) = (hm_get (ipc_engines c))(n \<mapsto> e)"
  by (simp add: ipc_put_def hm.lookup_put_law)

lemma ipc_put_wf: "hm_wf (ipc_engines c) \<Longrightarrow> hm_wf (ipc_engines (ipc_put n e c))"
  by (simp add: ipc_put_def hm.invar_put)

lemma owned_put:
  "hm_wf (ipc_engines c) \<Longrightarrow> owned (ipc_put n e c) =
     (owned c)(n \<mapsto> (so_generation (eng_state e), so_value (eng_state e)))"
  by (auto simp: owned_def ipc_put_get)

text \<open>An engine that keeps its own state and whose views are as before or not ahead.\<close>

lemma sane_update:
  assumes "sane bc config c" and e: "hm_get (ipc_engines c) n = Some e" and "engine_wf e'"
    and "engine_params e' = engine_params e" "ll_departed_nodes (eng_lifecycle e') \<subseteq> ll_departed_nodes (eng_lifecycle e)"
    and "eng_state e' = eng_state e" and "content_of (eng_shard e') n = content_of (eng_shard e) n"
    and step: "\<And>j g v. content_of (eng_shard e') j = Some (g, v) \<Longrightarrow> content_of (eng_shard e) j = Some (g, v) \<or>
      (\<exists>g' v'. owned c j = Some (g', v') \<and> g \<le> g' \<and> (g = g' \<longrightarrow> v = v'))"
  shows "sane bc config (ipc_put n e' c)" "owned (ipc_put n e' c) = owned c"
proof -
  have wf: "hm_wf (ipc_engines c)" and ok: "engine_sane bc config (owned c) n e"
    using assms(1) e by (auto simp: sane_def)
  show ow: "owned (ipc_put n e' c) = owned c"
    using e by (auto simp: owned_put [OF wf] assms(6) owned_def)
  have "engine_sane bc config (owned c) n e'"
    unfolding engine_sane_def
  proof (intro conjI allI impI)
    fix j g v assume "content_of (eng_shard e') j = Some (g, v)"
    then show "\<exists>g' v'. owned c j = Some (g', v') \<and> g \<le> g' \<and> (g = g' \<longrightarrow> v = v')"
      using step [of j g v] ok by (auto simp: engine_sane_def)
  qed (use ok assms(3-7) in \<open>auto simp: engine_sane_def\<close>)
  then show "sane bc config (ipc_put n e' c)"
    using assms(1) by (auto simp: sane_def ow ipc_put_get [OF wf] ipc_put_wf)
qed

text \<open>An engine that shows, of each node, what it did before or what the node owns.\<close>

lemma sane_put:
  assumes "sane bc config c" and e: "hm_get (ipc_engines c) n = Some e" and "engine_wf e'"
    and "engine_params e' = engine_params e" "ll_departed_nodes (eng_lifecycle e') \<subseteq> ll_departed_nodes (eng_lifecycle e)"
    and "eng_state e' = eng_state e" and "content_of (eng_shard e') n = content_of (eng_shard e) n"
    and step: "\<And>j. content_of (eng_shard e') j = content_of (eng_shard e) j \<or>
      owned c j \<noteq> None \<and> content_of (eng_shard e') j = owned c j"
  shows "sane bc config (ipc_put n e' c)" "owned (ipc_put n e' c) = owned c"
    "shown c i j \<Longrightarrow> shown (ipc_put n e' c) i j"
proof -
  have "content_of (eng_shard e) j = Some (g, v) \<or> (\<exists>g' v'. owned c j = Some (g', v') \<and> g \<le> g' \<and> (g = g' \<longrightarrow> v = v'))"
    if "content_of (eng_shard e') j = Some (g, v)" for j g v
    using that step [of j] by auto
  note put = sane_update [OF assms(1-7) this]
  show "sane bc config (ipc_put n e' c)" "owned (ipc_put n e' c) = owned c" using put by blast+
  have "hm_wf (ipc_engines c)" using assms(1) by (simp add: sane_def)
  then show "shown c i j \<Longrightarrow> shown (ipc_put n e' c) i j"
    using e step [of j] by (auto simp: shown_def put(2) ipc_put_get)
qed

lemma saneD:
  assumes "sane bc config c" and "hm_get (ipc_engines c) n = Some e"
  shows "hm_wf (ipc_engines c)" "engine_wf e" "engine_params e = demo_params bc config n" "eng_node_id e = n"
    "ll_departed_nodes (eng_lifecycle e) \<inter> dom (owned c) = {}"
    "content_of (eng_shard e) n = Some (so_generation (eng_state e), so_value (eng_state e))"
    "owned c n = Some (so_generation (eng_state e), so_value (eng_state e))"
    "content_of (eng_shard e) j = Some (g, v) \<Longrightarrow> \<exists>g' v'. owned c j = Some (g', v') \<and> g \<le> g' \<and> (g = g' \<longrightarrow> v = v')"
  using assms by (auto simp: sane_def engine_sane_def engine_params_def demo_params_def) (simp_all add: owned_def)

lemma demo_paramsD:
  assumes "engine_params e = demo_params bc config n"
  shows "eng_state_name e = counter_name" "eng_wire_version e = counter_wire_version"
    "eng_versioning e = versioning_new counter_name (sc_version_mismatch_policy config) counter_wire_version 1"
    "eng_serialize_view e = bc_serialize bc" "eng_deserialize_view e = counter_deserialize_state bc"
    "eng_sync_logic e = sync_logic_new counter_name (sc_sync_strategy config) False"
  using assms by (simp_all add: engine_params_def demo_params_def)

text \<open>What the engine sends of itself is current.\<close>

lemma own_snapshot_current:
  assumes "sane bc config c" and "hm_get (ipc_engines c) n = Some e"
  shows "own_view_value e = Inr (so_value (eng_state e))"
    "msg_current bc c (Sync (own_full_snapshot e (eng_serialize_view e (so_value (eng_state e)))))"
  using saneD(3,4,6,7) [OF assms]
  by (auto simp: own_view_value_def own_full_snapshot_def content_of_def demo_paramsD eng_state_def)

lemma ipc_deliver_snapshot:
  assumes "sane bc config c" and "bincode_ok bc" and e: "hm_get (ipc_engines c) n = Some e"
    and "owned c src = Some (g, v)"
    and e': "e' = fst (handle_full_snapshot clk counter_name src g counter_wire_version (bc_serialize bc v) e)"
  shows "sane bc config (ipc_put n e' c)" "owned (ipc_put n e' c) = owned c"
    "\<And>i j. shown c i j \<Longrightarrow> shown (ipc_put n e' c) i j" "shown (ipc_put n e' c) n src"
proof -
  note ok = saneD [OF assms(1) e]
  have vm: "vm_wf (sh_views (eng_shard e))" using ok(2) by (simp add: engine_wfD shard_wf_vm)
  have acc: "ll_should_accept_from (eng_lifecycle e) src" using ok(5) assms(4) by (auto simp: ll_should_accept_from_def)
  have inb: "on_inbound (eng_versioning e) (bc_serialize bc v) counter_wire_version (eng_deserialize_view e) = InboundOk v"
    using assms(2) by (simp add: on_inbound_def demo_paramsD [OF ok(3)] counter_deserialize_state_def bincode_ok_def)
  have sh: "eng_shard e' = fst (accept_inbound_snapshot clk \<lparr>is_source = src, is_generation = g,
      is_wire_version = counter_wire_version, is_view = v, is_created_time = clk_unix_ms clk,
      is_modified_time = clk_unix_ms clk\<rparr> (eng_shard e))"
    by (simp add: e' full_snapshot_shard acc inb demo_paramsD(1) [OF ok(3)])
  have here: "content_of (eng_shard e') src = owned c src"
  proof (cases "get_view (eng_shard e) src")
    case None
    then show ?thesis using assms(4) by (simp add: sh content_of_accept_snapshot [OF vm])
  next
    case (Some w)
    then have "sv_generation w \<le> g" "sv_generation w = g \<longrightarrow> sv_value w = v"
      using ok(8) [of src "sv_generation w" "sv_value w"] assms(4) by (auto simp: content_of_def)
    then show ?thesis
      using assms(4) Some content_of_def [of "eng_shard e" src] by (auto simp: sh content_of_accept_snapshot [OF vm] not_less)
  qed
  have there: "content_of (eng_shard e') j = content_of (eng_shard e) j" if "j \<noteq> src" for j
    using that by (simp add: sh content_of_accept_snapshot [OF vm])
  have n: "content_of (eng_shard e') n = content_of (eng_shard e) n"
    using here there [of n] ok(6,7) by (cases "n = src") auto
  have step: "content_of (eng_shard e') j = content_of (eng_shard e) j \<or>
      owned c j \<noteq> None \<and> content_of (eng_shard e') j = owned c j" for j
    using here there [of j] assms(4) by (cases "j = src") auto
  have frame: "engine_wf e'" "engine_params e' = engine_params e" "eng_lifecycle e' = eng_lifecycle e"
    "eng_state e' = eng_state e"
    using ok(2) by (simp_all add: e' wf_intros frame_simps) (simp add: eng_state_def sh [unfolded e'] frame_simps)
  note put = sane_put [OF assms(1) e frame(1,2) _ frame(4) n step]
  show "sane bc config (ipc_put n e' c)" "owned (ipc_put n e' c) = owned c" "\<And>i j. shown c i j \<Longrightarrow> shown (ipc_put n e' c) i j"
    using put frame(3) by simp_all
  then show "shown (ipc_put n e' c) n src"
    using here assms(4) by (simp add: shown_def ipc_put_get [OF ok(1)])
qed

lemma deliver_request:
  assumes "sane bc config c" and e: "hm_get (ipc_engines c) n = Some e" and "owned c r \<noteq> None"
    and h: "handle_request_snapshot name r e = Inr (e', acts)"
  shows "sane bc config (ipc_put n e' c)" "owned (ipc_put n e' c) = owned c"
    "\<And>i j. shown c i j \<Longrightarrow> shown (ipc_put n e' c) i j"
    "acts = [] \<or> (\<exists>m. acts = [SendSync r m] \<and> msg_current bc c (Sync m))"
proof -
  note ok = saneD [OF assms(1) e] and own = own_snapshot_current [OF assms(1) e]
  have "eng_shard e' = eng_shard e" "engine_wf e'" "engine_params e' = engine_params e" "eng_lifecycle e' = eng_lifecycle e"
    using h ok(2) own(1) by (auto simp: handle_request_snapshot_def Let_def wf_intros engine_wfD split: if_splits)
  then show "sane bc config (ipc_put n e' c)" "owned (ipc_put n e' c) = owned c"
    "\<And>i j. shown c i j \<Longrightarrow> shown (ipc_put n e' c) i j"
    using sane_put [OF assms(1) e, of e'] by (simp_all add: eng_state_def)
  show "acts = [] \<or> (\<exists>m. acts = [SendSync r m] \<and> msg_current bc c (Sync m))"
    using h own by (auto simp: handle_request_snapshot_def Let_def split: if_splits)
qed

lemma deliver_step:
  assumes "bincode_ok bc" and "sane bc config c" and e: "hm_get (ipc_engines c) t = Some e" and "msg_current bc c m"
    and h: "handle_inbound clk m e = Inr (e', acts)"
  shows "sane bc config (ipc_put t e' c)" "owned (ipc_put t e' c) = owned c"
    "\<And>i j. shown c i j \<Longrightarrow> shown (ipc_put t e' c) i j"
    "snapshot_of m = Some src \<Longrightarrow> shown (ipc_put t e' c) t src"
    "\<forall>(r, s) \<in> set (deliveries t acts (ipc_put t e' c)). owned c r \<noteq> None \<and> msg_current bc c s"
proof -
  have "sane bc config (ipc_put t e' c) \<and> owned (ipc_put t e' c) = owned c \<and>
    (\<forall>i j. shown c i j \<longrightarrow> shown (ipc_put t e' c) i j) \<and>
    (\<forall>src. snapshot_of m = Some src \<longrightarrow> shown (ipc_put t e' c) t src) \<and>
    (\<forall>(r, s) \<in> set (deliveries t acts (ipc_put t e' c)). owned c r \<noteq> None \<and> msg_current bc c s)"
    using assms(4)
  proof (cases "(bc, c, m)" rule: msg_current.cases)
    case (1 bc' c' name src g w data)
    then obtain v where v: "owned c src = Some (g, v)" "data = bc_serialize bc v" "name = counter_name" "w = counter_wire_version"
      using assms(4) by auto
    have "e' = fst (handle_full_snapshot clk counter_name src g counter_wire_version (bc_serialize bc v) e)" "acts = []"
      using h 1 v full_snapshot_frame(1) [of clk name src g w data e] by simp_all
    then show ?thesis using ipc_deliver_snapshot [OF assms(2,1) e v(1)] 1 by (simp add: deliveries_def)
  next
    case (2 bc' c' name r)
    then show ?thesis
      using deliver_request [OF assms(2) e, of r name e' acts] assms(4) h by (auto simp: deliveries_def)
  qed auto
  then show "sane bc config (ipc_put t e' c)" "owned (ipc_put t e' c) = owned c"
    "\<And>i j. shown c i j \<Longrightarrow> shown (ipc_put t e' c) i j"
    "snapshot_of m = Some src \<Longrightarrow> shown (ipc_put t e' c) t src"
    "\<forall>(r, s) \<in> set (deliveries t acts (ipc_put t e' c)). owned c r \<noteq> None \<and> msg_current bc c s"
    by blast+
qed

lemma msg_current_cong: "owned c' = owned c \<Longrightarrow> msg_current bc c' m = msg_current bc c m"
  by (cases "(bc, c, m)" rule: msg_current.cases) simp_all

text \<open>Delivering current messages to members returns, and what is delivered is shown.\<close>

lemma deliver_current:
  assumes "bincode_ok bc" and "sane bc config c"
    and "\<forall>(t, m) \<in> set ds. owned c t \<noteq> None \<and> msg_current bc c m"
  shows "\<exists>c'. ipc_deliver now ds c = Inr c' \<and> sane bc config c' \<and> owned c' = owned c \<and>
    (\<forall>i j. shown c i j \<longrightarrow> shown c' i j) \<and>
    (\<forall>(t, m) \<in> set ds. \<forall>src. snapshot_of m = Some src \<longrightarrow> shown c' t src)"
  using assms(2,3)
proof (induction "total_weight ds" arbitrary: ds c rule: less_induct)
  case less
  show ?case
  proof (cases ds)
    case Nil
    then show ?thesis using less.prems by simp
  next
    case (Cons d rest)
    obtain t m where d: "d = (t, m)" by fastforce
    have "owned c t \<noteq> None" and m: "msg_current bc c m" using less.prems(2) Cons d by auto
    then obtain e where e: "hm_get (ipc_engines c) t = Some e" by (auto simp: owned_def)
    obtain e' acts where h: "handle_inbound (ipc_now now c) m e = Inr (e', acts)"
      using inbound_ok [OF saneD(2) [OF less.prems(1) e]] by blast
    let ?c = "ipc_put t e' c" and ?resp = "deliveries t acts (ipc_put t e' c)"
    note st = deliver_step [OF assms(1) less.prems(1) e m h]
    have w: "total_weight ?resp < total_weight ds" "total_weight rest < total_weight ds"
      using response_weight [OF h, of t ?c] by (simp_all add: Cons d)
    have "\<forall>(t, m) \<in> set ?resp. owned ?c t \<noteq> None \<and> msg_current bc ?c m"
      using st(5) by (simp add: st(2) msg_current_cong [OF st(2)])
    from less.hyps [OF w(1) st(1) this] obtain c2 where c2: "ipc_deliver now ?resp ?c = Inr c2" "sane bc config c2"
      "owned c2 = owned c" "\<And>i j. shown ?c i j \<Longrightarrow> shown c2 i j" using st(2) by auto
    have "\<forall>(t, m) \<in> set rest. owned c2 t \<noteq> None \<and> msg_current bc c2 m"
      using less.prems(2) by (simp add: Cons c2(3) msg_current_cong [OF c2(3)])
    from less.hyps [OF w(2) c2(2) this] obtain c3 where c3: "ipc_deliver now rest c2 = Inr c3" "sane bc config c3"
      "owned c3 = owned c" "\<And>i j. shown c2 i j \<Longrightarrow> shown c3 i j"
      "\<forall>(t, m) \<in> set rest. \<forall>src. snapshot_of m = Some src \<longrightarrow> shown c3 t src"
      using c2(3) by auto
    have "ipc_deliver now ds c = Inr c3"
      using c2(1) c3(1) e h by (auto simp: Cons d ipc_get_def deliveries_def)
    then show ?thesis
      using c3 c2(4) st(3,4) by (intro exI [of _ c3]) (auto simp: Cons d)
  qed
qed

subsection \<open>Mutations, queries and departures\<close>

definition current :: "counter bincode \<Rightarrow> state_config \<Rightarrow> in_process_cluster \<Rightarrow> bool" where
  "current bc config c \<longleftrightarrow> sane bc config c \<and> (\<forall>i \<in> dom (owned c). \<forall>j \<in> dom (owned c). shown c i j)"

lemma engine_sane_newer:
  assumes "engine_sane bc config ow i e" and "i \<noteq> n" and "ow n = Some (g, v)" and "g < g'"
  shows "engine_sane bc config (ow(n \<mapsto> (g', v'))) i e"
  using assms by (fastforce simp: engine_sane_def insert_absorb domI)

lemma sane_mutate:
  assumes "sane bc config c" and e: "hm_get (ipc_engines c) n = Some e" and age: "age (so_generation (eng_state e)) \<noteq> - 1"
    and m: "mutate clk f (\<lambda>s. s) u e = (e', r)"
  shows "sane bc config (ipc_put n e' c)"
    "owned (ipc_put n e' c) = (owned c)(n \<mapsto> (age_inc (so_generation (eng_state e)), f (so_value (eng_state e))))"
    "content_of (eng_shard e') n = Some (age_inc (so_generation (eng_state e)), f (so_value (eng_state e)))"
    "\<And>j. j \<noteq> n \<Longrightarrow> content_of (eng_shard e') j = content_of (eng_shard e) j"
proof -
  note ok = saneD [OF assms(1) e]
  let ?g = "age_inc (so_generation (eng_state e))" and ?v = "f (so_value (eng_state e))"
  have sh: "eng_shard e' = fst (apply_mutation clk f (\<lambda>s. s) (eng_shard e))"
    using mutate_frame(1) [of clk f "\<lambda>s. s" u e] m by simp
  have st: "so_generation (eng_state e') = ?g" "so_value (eng_state e') = ?v"
    by (simp_all add: eng_state_def sh apply_mutation_eq Let_def frame_simps mutated_state_def)
  show ow: "owned (ipc_put n e' c) = (owned c)(n \<mapsto> (?g, ?v))" by (simp add: owned_put [OF ok(1)] st)
  show own: "content_of (eng_shard e') n = Some (?g, ?v)"
    using mutate_own_content [OF ok(2) m] ok(4) by simp
  show other: "content_of (eng_shard e') j = content_of (eng_shard e) j" if "j \<noteq> n" for j
    using that ok(2,4) by (simp add: sh content_of_def get_view_apply_mutation engine_wfD)
  have frame: "engine_wf e'" "engine_params e' = engine_params e" "eng_lifecycle e' = eng_lifecycle e"
    using mutate_frame(2,3) [of clk f "\<lambda>s. s" u e] mutate_wf(1) [OF ok(2), of clk f "\<lambda>s. s" u] m by simp_all
  have n: "engine_sane bc config ((owned c)(n \<mapsto> (?g, ?v))) n e'"
    unfolding engine_sane_def
  proof (intro conjI allI impI)
    fix j g v assume "content_of (eng_shard e') j = Some (g, v)"
    then show "\<exists>g' v'. ((owned c)(n \<mapsto> (?g, ?v))) j = Some (g', v') \<and> g \<le> g' \<and> (g = g' \<longrightarrow> v = v')"
      using own other [of j] ok(8) [of j g v] by (cases "j = n") auto
  qed (use ok(3,5,7) frame own in \<open>auto simp: domI insert_absorb\<close>)
  have rest: "engine_sane bc config ((owned c)(n \<mapsto> (?g, ?v))) i ei" if "hm_get (ipc_engines c) i = Some ei" "i \<noteq> n" for i ei
    using that assms(1) engine_sane_newer [of bc config "owned c" i ei n] ok(7) age_inc_less [OF age]
    by (auto simp: sane_def)
  then show "sane bc config (ipc_put n e' c)"
    using n ok(1) unfolding sane_def ow by (auto simp: ipc_put_get ipc_put_wf split: if_splits)
qed

lemma mutate_current:
  assumes "bincode_ok bc" and "st_push_mode (sc_sync_strategy config) = Some ActivePush" and "current bc config c"
    and ow: "owned c n = Some (g, v)" and "age g \<noteq> - 1"
  shows "\<exists>c'. ipc_mutate now n f c = Inr c' \<and> current bc config c' \<and> owned c' = (owned c)(n \<mapsto> (age_inc g, f v))"
proof -
  have sane: "sane bc config c" using assms(3) by (simp add: current_def)
  obtain e where e: "hm_get (ipc_engines c) n = Some e" "so_generation (eng_state e) = g" "so_value (eng_state e) = v"
    using ow by (auto simp: owned_def)
  note ok = saneD [OF sane e(1)]
  obtain e' r where m: "mutate (ipc_now now c) f (\<lambda>s. s) DefaultUrgency e = (e', r)" by fastforce
  let ?c = "ipc_put n e' c"
  note c1 = sane_mutate [OF sane e(1) _ m, unfolded e, OF assms(5)]
  have acts: "mr_actions r = [BroadcastSync (FullSnapshot counter_name n (age_inc g) counter_wire_version (bc_serialize bc (f v)))]"
    using mutate_acts [OF m] assms(2) ok(4) e(2,3)
    by (simp add: demo_paramsD [OF ok(3)] sync_logic_new_def eng_sync_strategy_def)
  have keys: "set (hm_keys (ipc_engines ?c)) = insert n (dom (owned c))"
    using owned_dom [OF saneD(1) [OF c1(1)], of n e'] ok(1) c1(2) by (simp add: ipc_put_get)
  have ds: "\<forall>(t, m) \<in> set (deliveries n (mr_actions r) ?c). owned ?c t \<noteq> None \<and> msg_current bc ?c m"
    using keys by (auto simp: acts deliveries_def c1(2))
  obtain c' where c': "ipc_deliver now (deliveries n (mr_actions r) ?c) ?c = Inr c'" "sane bc config c'" "owned c' = owned ?c"
    "\<And>i j. shown ?c i j \<Longrightarrow> shown c' i j"
    "\<forall>(t, m) \<in> set (deliveries n (mr_actions r) ?c). \<forall>src. snapshot_of m = Some src \<longrightarrow> shown c' t src"
    using deliver_current [OF assms(1) c1(1) ds] by blast
  have "shown c' i j" if ij: "i \<in> dom (owned c')" "j \<in> dom (owned c')" for i j
  proof (cases "j = n \<and> i \<noteq> n")
    case True
    then show ?thesis using c'(5) keys ij by (auto simp: acts deliveries_def c'(3) c1(2))
  next
    case False
    have "j = n \<or> shown c i j" using False assms(3) ij ow by (auto simp: current_def c'(3) c1(2))
    then have "shown ?c i j"
      using False c1(3,4) e(1) by (auto simp: shown_def ipc_put_get [OF ok(1)] c1(2))
    then show ?thesis by (rule c'(4))
  qed
  then have "current bc config c'" using c'(2) by (simp add: current_def)
  moreover have "ipc_mutate now n f c = Inr c'" using e(1) m c'(1) by (simp add: ipc_mutate_def ipc_get_def)
  ultimately show ?thesis using c'(3) c1(2) by auto
qed

lemma snapshot_lookup: "hm_get (map (\<lambda>(k, vo). (k, f vo)) m) j = map_option f (hm_get m j)"
  by (induction m) (auto simp: hm_get_def)

lemma query_outcome:
  assumes "engine_wf e" and "query c d p e = (result, actions)"
  shows "(case result of EngineFresh m \<Rightarrow> m | EngineStale m _ \<Rightarrow> m) = p (shard_snapshot (eng_shard e))"
    "\<forall>a \<in> set actions. \<exists>k. a = SendSync k (RequestSnapshot (eng_state_name e) (eng_node_id e)) \<and>
       get_view (eng_shard e) k \<noteq> None"
proof -
  note sound = query_local_sound [OF engine_wfD(1) [OF assms(1)], where d = d and c = c and project = p]
  have "(case result of EngineFresh m \<Rightarrow> m | EngineStale m _ \<Rightarrow> m) = p (shard_snapshot (eng_shard e)) \<and>
    (\<forall>a \<in> set actions. \<exists>k. a = SendSync k (RequestSnapshot (eng_state_name e) (eng_node_id e)) \<and>
       get_view (eng_shard e) k \<noteq> None)"
  proof (cases "query_local (eng_shard e) d c p")
    case (Fresh r)
    then show ?thesis using sound assms(2) by (auto simp: query_def)
  next
    case (StalePeersDetected ps r)
    then have "\<forall>k \<in> set ps. get_view (eng_shard e) k \<noteq> None" "r = p (shard_snapshot (eng_shard e))"
      using sound by (auto simp: stale_nodes_def)
    then show ?thesis using StalePeersDetected assms(2) by (auto simp: query_def Let_def)
  qed
  then show "(case result of EngineFresh m \<Rightarrow> m | EngineStale m _ \<Rightarrow> m) = p (shard_snapshot (eng_shard e))"
    "\<forall>a \<in> set actions. \<exists>k. a = SendSync k (RequestSnapshot (eng_state_name e) (eng_node_id e)) \<and>
       get_view (eng_shard e) k \<noteq> None" by simp_all
qed

lemma current_content:
  assumes "current bc config c" and "hm_get (ipc_engines c) n = Some e"
  shows "content_of (eng_shard e) j = owned c j"
proof (cases "owned c j")
  case None
  then show ?thesis
    using saneD(8) [OF _ assms(2)] assms(1) by (cases "content_of (eng_shard e) j") (fastforce simp: current_def)+
next
  case (Some p)
  moreover have "n \<in> dom (owned c)" using assms(2) by (simp add: owned_def dom_def)
  ultimately have "shown c n j" using assms(1) by (auto simp: current_def)
  then show ?thesis using assms(2) by (simp add: shown_def)
qed

lemma query_current:
  assumes "bincode_ok bc" and "current bc config c" and "owned c n \<noteq> None"
  shows "\<exists>c' views. ipc_query now n c = Inr (c', views) \<and> current bc config c' \<and> owned c' = owned c \<and>
    (\<forall>j. hm_get views j = map_option (cnt_value \<circ> snd) (owned c j))"
proof -
  have sane: "sane bc config c" using assms(2) by (simp add: current_def)
  obtain e where e: "hm_get (ipc_engines c) n = Some e" using assms(3) by (auto simp: owned_def)
  note ok = saneD [OF sane e]
  have wf: "shard_wf (eng_shard e)" using ok(2) by (simp add: engine_wfD)
  let ?p = "map (\<lambda>(id, vo). (id, cnt_value (sv_value vo)))"
  let ?views = "?p (shard_snapshot (eng_shard e))"
  obtain result actions where q: "query (ipc_now now c) (from_secs 60) ?p e = (result, actions)" by fastforce
  have local: "(case result of EngineFresh m \<Rightarrow> m | EngineStale m _ \<Rightarrow> m) = ?views"
    and acts: "\<forall>a \<in> set actions. \<exists>k. a = SendSync k (RequestSnapshot counter_name n) \<and> get_view (eng_shard e) k \<noteq> None"
    using query_outcome [OF ok(2) q] ok(4) by (simp_all add: demo_paramsD(1) [OF ok(3)])
  let ?c = "ipc_put n e c"
  note c1 = sane_put [OF sane e ok(2) refl order_refl refl refl, simplified]
  have "\<forall>(t, m) \<in> set (deliveries n actions ?c). owned ?c t \<noteq> None \<and> msg_current bc ?c m"
  proof -
    have "owned c k \<noteq> None" if "get_view (eng_shard e) k \<noteq> None" for k
      using that ok(8) [of k] by (auto simp: content_of_def)
    then show ?thesis using acts assms(3) by (fastforce simp: deliveries_def c1(2))
  qed
  from deliver_current [OF assms(1) c1(1) this, of now] obtain c' where c': "ipc_deliver now (deliveries n actions ?c) ?c = Inr c'"
    "sane bc config c'" "owned c' = owned c" "\<And>i j. shown ?c i j \<Longrightarrow> shown c' i j" using c1(2) by auto
  have "current bc config c'" using c'(2-4) c1(3) assms(2) by (auto simp: current_def)
  moreover have "hm_get ?views j = map_option (cnt_value \<circ> snd) (owned c j)" for j
  proof -
    note same = current_content [OF assms(2) e, of j, symmetric]
    show ?thesis
      by (simp add: same snapshot_lookup content_of_def shard_snapshot_def lookup_simps get_view_def option.map_comp comp_def)
  qed
  moreover have "ipc_query now n c = Inr (c', ?views)"
    using e q c'(1) local by (auto simp: ipc_query_def ipc_get_def deliveries_def Let_def)
  ultimately show ?thesis using c'(3) by blast
qed

text \<open>The departure in \<open>main\<close>: every remaining node is told, then the engine is dropped.\<close>

lemma leave_all_engines:
  assumes "hm_wf (ipc_engines c)" and "distinct ns" and "\<forall>n \<in> set ns. hm_get (ipc_engines c) n \<noteq> None"
  shows "\<exists>c'. fold_result (ipc_node_left gone) ns c = Inr c' \<and> hm_wf (ipc_engines c') \<and>
    (\<forall>i. hm_get (ipc_engines c') i = (if i \<in> set ns then map_option (on_node_left gone) (hm_get (ipc_engines c) i)
       else hm_get (ipc_engines c) i))"
  using assms
proof (induction ns arbitrary: c)
  case (Cons n ns)
  then obtain e where e: "hm_get (ipc_engines c) n = Some e" by auto
  let ?c = "ipc_put n (on_node_left gone e) c"
  have "hm_wf (ipc_engines ?c)" "\<forall>i \<in> set ns. hm_get (ipc_engines ?c) i \<noteq> None"
    using Cons.prems by (simp_all add: ipc_put_wf ipc_put_get)
  from Cons.IH [OF this(1) _ this(2)] Cons.prems(2) obtain c' where "fold_result (ipc_node_left gone) ns ?c = Inr c'"
    "hm_wf (ipc_engines c')" "\<forall>i. hm_get (ipc_engines c') i =
      (if i \<in> set ns then map_option (on_node_left gone) (hm_get (ipc_engines ?c) i) else hm_get (ipc_engines ?c) i)" by auto
  then show ?case
    using e Cons.prems by (intro exI [of _ c']) (auto simp: ipc_node_left_def [of gone n c] ipc_get_def ipc_put_get)
qed simp

lemma departure_current:
  assumes "current bc config c" and "distinct ns" and "set ns = dom (owned c) - {gone}"
  shows "\<exists>c'. fold_result (ipc_node_left gone) ns c = Inr c' \<and> current bc config (ipc_remove gone c') \<and>
    owned (ipc_remove gone c') = (owned c)(gone := None)"
proof -
  have sane: "sane bc config c" and wf: "hm_wf (ipc_engines c)" using assms(1) by (auto simp: current_def sane_def)
  have "\<forall>n \<in> set ns. hm_get (ipc_engines c) n \<noteq> None" using assms(3) by (auto simp: owned_def)
  from leave_all_engines [OF wf assms(2) this, of gone] obtain c' where c': "fold_result (ipc_node_left gone) ns c = Inr c'"
    "hm_wf (ipc_engines c')" "\<And>i. hm_get (ipc_engines c') i =
      (if i \<in> set ns then map_option (on_node_left gone) (hm_get (ipc_engines c) i) else hm_get (ipc_engines c) i)" by auto
  let ?c = "ipc_remove gone c'"
  have get: "hm_get (ipc_engines ?c) i = (if i = gone then None else map_option (on_node_left gone) (hm_get (ipc_engines c) i))" for i
    using assms(3) by (auto simp: ipc_remove_def hm.lookup_drop_law [OF c'(2)] c'(3) owned_def dom_def)
  have state: "eng_state (on_node_left gone e) = eng_state e" for e :: "(counter, counter) engine"
    by (simp add: eng_state_def frame_simps)
  have ow: "owned ?c = (owned c)(gone := None)"
    by (auto simp: owned_def get state option.map_comp comp_def)
  have left: "content_of (eng_shard (on_node_left gone e)) j = ((owned c)(gone := None)) j"
    if e: "hm_get (ipc_engines c) i = Some e" "i \<noteq> gone" for i j e
    using saneD(2,4) [OF sane e(1)] e(2) current_content [OF assms(1) e(1), of j]
    by (simp add: frame_simps content_of_left engine_wfD shard_wf_vm)
  have "engine_sane bc config (owned ?c) i e" if here: "hm_get (ipc_engines ?c) i = Some e" for i e
  proof -
    obtain e0 where e0: "hm_get (ipc_engines c) i = Some e0" "e = on_node_left gone e0" "i \<noteq> gone"
      using here by (auto simp: get split: if_splits)
    have "ll_departed_nodes (eng_lifecycle e) \<inter> dom (owned ?c) = {}"
      using saneD(5) [OF sane e0(1)] by (auto simp: ow e0(2) frame_simps)
    then show ?thesis
      using saneD(2,3) [OF sane e0(1)] left [OF e0(1,3)] by (auto simp: engine_sane_def ow e0(2) wf_intros frame_simps)
  qed
  moreover have "hm_wf (ipc_engines ?c)" using c'(2) by (simp add: ipc_remove_def hm.invar_drop)
  ultimately have "sane bc config ?c" by (simp add: sane_def)
  moreover have "shown ?c i j" if ij: "i \<in> dom (owned ?c)" "j \<in> dom (owned ?c)" for i j
  proof -
    obtain e where e: "hm_get (ipc_engines c) i = Some e" "i \<noteq> gone"
      using ij(1) by (auto simp: ow owned_def split: if_splits)
    then show ?thesis using left [OF e, of j] ij(2) by (auto simp: shown_def get ow)
  qed
  ultimately show ?thesis using c'(1) ow by (auto simp: current_def)
qed

subsection \<open>Construction\<close>

text \<open>While the cluster is built every state is the default, so the placeholder of a peer is never wrong.\<close>

definition fresh_cluster :: "counter bincode \<Rightarrow> state_config \<Rightarrow> in_process_cluster \<Rightarrow> bool" where
  "fresh_cluster bc config c \<longleftrightarrow> sane bc config c \<and> 
     (\<forall>n g v. owned c n = Some (g, v) \<longrightarrow> v = counter_default \<and> age g = 0)"

lemma demo_node_content:
  "content_of (eng_shard (demo_node_engine bc config clk n)) j =
     (if j = n then Some (Generation (clk_unix_ms clk) 0, counter_default) else None)"
  by (simp add: demo_node_engine_def engine_new_def content_of_def lookup_simps new_state_object_def
      generation_new_def Let_def)

lemma demo_node_state:
  "eng_state (demo_node_engine bc config clk n) = new_state_object counter_default (clk_unix_ms clk) clk"
  "ll_departed_nodes (eng_lifecycle (demo_node_engine bc config clk n)) = {}"
  "engine_wf (demo_node_engine bc config clk n)"
  by (simp_all add: demo_node_engine_def wf_intros)
    (simp_all add: engine_new_def eng_state_def shard_new_def lifecycle_new_def Let_def)

lemma engine_sane_extend:
  assumes "engine_sane bc config ow i e" and "i \<noteq> n" and "n \<notin> ll_departed_nodes (eng_lifecycle e)" and "ow n = None"
  shows "engine_sane bc config (ow(n \<mapsto> p)) i e"
  using assms by (fastforce simp: engine_sane_def)

lemma add_fresh:
  assumes "fresh_cluster bc config c" and "owned c n = None"
    and "\<forall>i e. hm_get (ipc_engines c) i = Some e \<longrightarrow> ll_departed_nodes (eng_lifecycle e) = {}"
  shows "fresh_cluster bc config (ipc_put n (demo_node_engine bc config clk n) c)"
    "dom (owned (ipc_put n (demo_node_engine bc config clk n) c)) = insert n (dom (owned c))"
proof -
  let ?e = "demo_node_engine bc config clk n"
  have wf: "hm_wf (ipc_engines c)" using assms(1) by (simp add: fresh_cluster_def sane_def)
  have ow: "owned (ipc_put n ?e c) = (owned c)(n \<mapsto> (Generation (clk_unix_ms clk) 0, counter_default))"
    by (simp add: owned_put [OF wf] demo_node_state new_state_object_def generation_new_def)
  have "engine_sane bc config (owned (ipc_put n ?e c)) n ?e"
    by (simp add: engine_sane_def demo_node_params demo_node_content demo_node_state ow)
  moreover have "engine_sane bc config (owned (ipc_put n ?e c)) i e" if "hm_get (ipc_engines c) i = Some e" "i \<noteq> n" for i e
    unfolding ow using that assms by (intro engine_sane_extend) (auto simp: fresh_cluster_def sane_def)
  ultimately show "fresh_cluster bc config (ipc_put n ?e c)"
    using assms(1) ow by (auto simp: fresh_cluster_def sane_def ipc_put_get [OF wf] ipc_put_wf [OF wf] split: if_splits)
  show "dom (owned (ipc_put n ?e c)) = insert n (dom (owned c))" by (simp add: ow)
qed

lemma created:
  assumes "distinct ids"
  shows "fresh_cluster bc config (create_engines bc now config ids) \<and> dom (owned (create_engines bc now config ids)) = set ids"
proof -
  let ?f = "\<lambda>node c. ipc_put node (demo_node_engine bc config (ipc_now now c) node) c"
  have "fresh_cluster bc config (fold ?f ns c) \<and> dom (owned (fold ?f ns c)) = set ns \<union> dom (owned c)"
    if "fresh_cluster bc config c" "distinct ns" "set ns \<inter> dom (owned c) = {}"
      "\<forall>i e. hm_get (ipc_engines c) i = Some e \<longrightarrow> ll_departed_nodes (eng_lifecycle e) = {}" for ns c
    using that
  proof (induction ns arbitrary: c)
    case (Cons n ns)
    then have "owned c n = None" by auto
    note add = add_fresh [OF Cons.prems(1) this Cons.prems(4), of "ipc_now now c"]
    have "\<forall>i e. hm_get (ipc_engines (?f n c)) i = Some e \<longrightarrow> ll_departed_nodes (eng_lifecycle e) = {}"
      using Cons.prems(1,4) by (auto simp: fresh_cluster_def sane_def ipc_put_get demo_node_state split: if_splits)
    with Cons.IH [OF add(1) _ _ this] Cons.prems(2,3) add(2) show ?case by auto
  qed simp
  note step = this
  let ?c = "\<lparr>ipc_engines = [], ipc_calls = 0\<rparr> :: in_process_cluster"
  have none: "owned ?c = Map.empty" by (simp add: owned_def hm_get_def fun_eq_iff)
  then have "fresh_cluster bc config ?c" by (simp add: fresh_cluster_def sane_def hm_wf_def hm_get_def)
  from step [OF this assms] none show ?thesis by (simp add: create_engines_def hm_get_def)
qed

lemma announce_one:
  assumes "fresh_cluster bc config c" and "owned c i \<noteq> None" and "owned c j \<noteq> None" and "i \<noteq> j"
  shows "\<exists>c' m. announce_pair now (i, j) (c, ja) = Inr (c', ja @ [(i, [SendSync j m])]) \<and> fresh_cluster bc config c' \<and>
    owned c' = owned c \<and> msg_current bc c (Sync m) \<and> snapshot_of (Sync m) = Some i"
proof -
  have sane: "sane bc config c" using assms(1) by (simp add: fresh_cluster_def)
  obtain e where e: "hm_get (ipc_engines c) i = Some e" using assms(2) by (auto simp: owned_def)
  note ok = saneD [OF sane e]
  let ?clk = "ipc_now now c"
  let ?j = "joined_engine ?clk j counter_default e" and ?v = "so_value (eng_state e)"
  let ?e = "with_diagnostics record_snapshot_sent ?j" and ?m = "own_full_snapshot ?j (eng_serialize_view e ?v)"
  have vm: "vm_wf (sh_views (eng_shard e))" using ok(2) by (simp add: engine_wfD shard_wf_vm)
  have content: "content_of (eng_shard ?j) k = (if k = j \<and> get_view (eng_shard e) j = None then Some (generation_zero, counter_default)
      else content_of (eng_shard e) k)" for k
    using assms(4) ok(4) by (simp add: frame_simps content_of_joined [OF vm])
  have state: "eng_state ?e = eng_state e" "eng_state ?j = eng_state e" by (simp_all add: eng_state_def frame_simps)
  have wf: "engine_wf ?j" "engine_wf ?e" using ok(2) by (simp_all add: wf_intros engine_wfD joined_engine_wf)
  have "eng_node_id ?j = i" using ok(4) by (simp add: frame_simps)
  then have own: "own_view_value ?j = Inr ?v" and m: "msg_current bc c (Sync ?m)" "snapshot_of (Sync ?m) = Some i"
    using content [of i] ok(3,6,7) assms(4) state(2)
    by (auto simp: own_view_value_def content_of_def own_full_snapshot_def demo_paramsD eng_state_def joined_engine_def)
  have join: "on_node_joined ?clk j counter_default e = Inr (?e, [SendSync j ?m])" by (rule on_node_joined_eq [OF own])
  obtain g' v' where "owned c j = Some (g', v')" "v' = counter_default"
    using assms(1,3) by (auto simp: fresh_cluster_def)
  moreover have "generation_zero \<le> g'" by (rule generation_zero_least)
  ultimately have "sane bc config (ipc_put i ?e c)" "owned (ipc_put i ?e c) = owned c"
    by (intro sane_update [OF sane e wf(2)];
        use content assms(4) state in \<open>auto simp: frame_simps split: if_splits\<close>)+
  then show ?thesis
    using e join m assms(1)
    by (intro exI [of _ "ipc_put i ?e c"] exI [of _ ?m]) (simp add: announce_pair_def ipc_get_def fresh_cluster_def)
qed

definition join_messages where
  "join_messages bc c ja \<longleftrightarrow> (\<forall>(from, acts) \<in> set ja. \<exists>t m. acts = [SendSync t m] \<and> owned c t \<noteq> None \<and>
     msg_current bc c (Sync m) \<and> snapshot_of (Sync m) = Some from)"

lemma join_messages_cong: "owned c' = owned c \<Longrightarrow> join_messages bc c' ja = join_messages bc c ja"
  unfolding join_messages_def using msg_current_cong [of c' c] by simp

lemma announce_all:
  assumes "fresh_cluster bc config c" and "\<forall>(i, j) \<in> set ps. owned c i \<noteq> None \<and> owned c j \<noteq> None \<and> i \<noteq> j"
    and "join_messages bc c ja"
  shows "\<exists>c' ja'. fold_result (announce_pair now) ps (c, ja) = Inr (c', ja') \<and> fresh_cluster bc config c' \<and>
    owned c' = owned c \<and> join_messages bc c ja' \<and> set ja \<subseteq> set ja' \<and> (\<forall>(i, j) \<in> set ps. \<exists>m. (i, [SendSync j m]) \<in> set ja')"
  using assms
proof (induction ps arbitrary: c ja)
  case (Cons p ps)
  obtain i j where p: "p = (i, j)" by fastforce
  have "owned c i \<noteq> None" "owned c j \<noteq> None" "i \<noteq> j" using Cons.prems(2) p by auto
  from announce_one [OF Cons.prems(1) this, of now ja] obtain c1 m where
    c1: "announce_pair now (i, j) (c, ja) = Inr (c1, ja @ [(i, [SendSync j m])])" "fresh_cluster bc config c1" "owned c1 = owned c"
    and m: "msg_current bc c (Sync m)" "snapshot_of (Sync m) = Some i" by blast
  let ?ja = "ja @ [(i, [SendSync j m])]"
  have "join_messages bc c ?ja" using Cons.prems(3) m \<open>owned c j \<noteq> None\<close> by (auto simp: join_messages_def)
  then obtain c' ja' where "fold_result (announce_pair now) ps (c1, ?ja) = Inr (c', ja')" "fresh_cluster bc config c'"
    "owned c' = owned c" "join_messages bc c ja'" "set ?ja \<subseteq> set ja'" "\<forall>(i, j) \<in> set ps. \<exists>m. (i, [SendSync j m]) \<in> set ja'"
    using Cons.IH [OF c1(2), of ?ja] Cons.prems(2) by (auto simp: c1(3) join_messages_cong [OF c1(3)])
  then show ?case using c1(1) p by (intro exI [of _ c'] exI [of _ ja']) auto
qed auto

lemma route_joins:
  assumes "bincode_ok bc" and "sane bc config c" and "join_messages bc c ja"
  shows "\<exists>c'. fold_result (\<lambda>(from, actions) c. ipc_route_actions now from actions c) ja c = Inr c' \<and> sane bc config c' \<and>
    owned c' = owned c \<and> (\<forall>i j. shown c i j \<longrightarrow> shown c' i j) \<and>
    (\<forall>i j m. (i, [SendSync j m]) \<in> set ja \<longrightarrow> shown c' j i)"
  using assms(2,3)
proof (induction ja arbitrary: c)
  case (Cons p ja)
  obtain i t m where p: "p = (i, [SendSync t m])" "owned c t \<noteq> None" "msg_current bc c (Sync m)" "snapshot_of (Sync m) = Some i"
    using Cons.prems(2) by (auto simp: join_messages_def)
  then have ds: "deliveries i [SendSync t m] c = [(t, Sync m)]" by (simp add: deliveries_def)
  obtain c1 where c1: "ipc_deliver now [(t, Sync m)] c = Inr c1" "sane bc config c1" "owned c1 = owned c"
    "\<forall>i j. shown c i j \<longrightarrow> shown c1 i j" "shown c1 t i"
    using deliver_current [OF assms(1) Cons.prems(1), of "[(t, Sync m)]" now] p by auto
  have "join_messages bc c1 ja" using Cons.prems(2) by (simp add: join_messages_cong [OF c1(3)]) (simp add: join_messages_def)
  from Cons.IH [OF c1(2) this] obtain c' where
    "fold_result (\<lambda>(from, actions) c. ipc_route_actions now from actions c) ja c1 = Inr c'" "sane bc config c'"
    "owned c' = owned c" "\<forall>i j. shown c1 i j \<longrightarrow> shown c' i j" "\<forall>i j m. (i, [SendSync j m]) \<in> set ja \<longrightarrow> shown c' j i"
    using c1(3) by auto
  then show ?case using c1(1,4,5) p(1) ds by (intro exI [of _ c']) (auto simp del: ipc_deliver.simps)
qed simp

lemma demo_node_id_inject: "demo_node_id i = demo_node_id j \<longleftrightarrow> i = j"
  by (auto simp: demo_node_id_def dest: show_nat_inject)

lemma new_current:
  assumes "bincode_ok bc"
  shows "\<exists>c. ipc_new bc now n config = Inr c \<and> current bc config c \<and> dom (owned c) = demo_node_id ` {..<n} \<and>
    (\<forall>k g v. owned c k = Some (g, v) \<longrightarrow> v = counter_default \<and> age g = 0)"
proof -
  let ?ids = "map demo_node_id [0..<n]"
  let ?c = "create_engines bc now config ?ids" and ?ps = "map (\<lambda>(i, j). (?ids ! i, ?ids ! j)) (index_pairs n)"
  have "distinct ?ids" by (simp add: distinct_map inj_on_def demo_node_id_inject)
  from created [OF this, of bc config now] have c: "fresh_cluster bc config ?c" "dom (owned ?c) = demo_node_id ` {..<n}"
    by (auto simp: atLeast0LessThan)
  have pairs: "set ?ps = {(i, j). i \<in> dom (owned ?c) \<and> j \<in> dom (owned ?c) \<and> i \<noteq> j}"
    by (force simp: c(2) index_pairs_def demo_node_id_inject)
  then have "\<forall>(i, j) \<in> set ?ps. owned ?c i \<noteq> None \<and> owned ?c j \<noteq> None \<and> i \<noteq> j" by auto
  from announce_all [OF c(1) this, of "[]" now] obtain c1 ja where
    c1: "fold_result (announce_pair now) ?ps (?c, []) = Inr (c1, ja)" "fresh_cluster bc config c1" "owned c1 = owned ?c"
      "join_messages bc ?c ja" "\<forall>(i, j) \<in> set ?ps. \<exists>m. (i, [SendSync j m]) \<in> set ja"
    by (auto simp: join_messages_def)
  have "sane bc config c1" "join_messages bc c1 ja"
    using c1(2,4) by (simp_all add: fresh_cluster_def join_messages_cong [OF c1(3)])
  from route_joins [OF assms this, of now] obtain c2 where
    c2: "fold_result (\<lambda>(from, actions) c. ipc_route_actions now from actions c) ja c1 = Inr c2" "sane bc config c2"
      "owned c2 = owned ?c" "\<forall>i j m. (i, [SendSync j m]) \<in> set ja \<longrightarrow> shown c2 j i"
    unfolding c1(3) by blast
  have "shown c2 i j" if "i \<in> dom (owned c2)" "j \<in> dom (owned c2)" for i j
  proof (cases "i = j")
    case True
    then obtain e where e: "hm_get (ipc_engines c2) i = Some e" using \<open>i \<in> dom (owned c2)\<close> by (auto simp: owned_def)
    from saneD(6,7) [OF c2(2) e] e True show ?thesis by (simp add: shown_def)
  next
    case False
    then have "(j, i) \<in> set ?ps" using that pairs by (simp add: c2(3))
    then show ?thesis using c1(5) c2(4) by blast
  qed
  then have "current bc config c2" using c2(2) by (simp add: current_def)
  moreover have "ipc_new bc now n config = Inr c2"
    using c1(1) c2(1) by (simp add: ipc_new_def Let_def)
  ultimately show ?thesis using c c2(3) by (auto simp: fresh_cluster_def)
qed

subsection \<open>Scripts\<close>

datatype ipc_op =
    IpcMutate node_id "counter \<Rightarrow> counter"
  | IpcQuery node_id
  | IpcDepart node_id

fun ipc_apply :: "clock_stream \<Rightarrow> ipc_op \<Rightarrow> in_process_cluster \<Rightarrow> demo_panic + in_process_cluster" where
  "ipc_apply now (IpcMutate n f) c = ipc_mutate now n f c"
| "ipc_apply now (IpcQuery n) c = result_bind (ipc_query now n c) (\<lambda>(c, views). Inr c)"
| "ipc_apply now (IpcDepart n) c =
     result_bind (fold_result (ipc_node_left n) (filter (\<lambda>k. k \<noteq> n) (hm_keys (ipc_engines c))) c) (\<lambda>c. Inr (ipc_remove n c))"

text \<open>The specification: one map from the members to their counters, on which every operation is atomic.\<close>

type_synonym counters = "node_id \<rightharpoonup> counter"

fun spec_apply :: "ipc_op \<Rightarrow> counters \<Rightarrow> counters" where
  "spec_apply (IpcMutate n f) s = s(n := map_option f (s n))"
| "spec_apply (IpcQuery n) s = s"
| "spec_apply (IpcDepart n) s = s(n := None)"

fun spec_valid :: "ipc_op list \<Rightarrow> counters \<Rightarrow> bool" where
  "spec_valid [] s \<longleftrightarrow> True"
| "spec_valid (op # ops) s \<longleftrightarrow>
     (case op of IpcMutate n f \<Rightarrow> s n \<noteq> None | IpcQuery n \<Rightarrow> s n \<noteq> None | IpcDepart n \<Rightarrow> True) \<and> spec_valid ops (spec_apply op s)"

definition spec_new :: "nat \<Rightarrow> counters" where
  "spec_new n k = (if k \<in> demo_node_id ` {..<n} then Some counter_default else None)"

text \<open>The members own what the specification says, everybody shows it, and \<open>t\<close> bounds the mutations so far.\<close>

definition implements where
  "implements bc config t c s \<longleftrightarrow> current bc config c \<and> s = map_option snd \<circ> owned c \<and>
     (\<forall>k g v. owned c k = Some (g, v) \<longrightarrow> unat (age g) \<le> t)"

lemma implements_apply:
  assumes "bincode_ok bc" and "st_push_mode (sc_sync_strategy config) = Some ActivePush"
    and "implements bc config t c s" and "spec_valid [op] s" and "Suc t < 2 ^ 64"
  shows "\<exists>c'. ipc_apply now op c = Inr c' \<and> implements bc config (Suc t) c' (spec_apply op s)"
proof (cases op)
  case (IpcMutate n f)
  then obtain g v where ow: "owned c n = Some (g, v)" using assms(3,4) by (auto simp: implements_def)
  then have g: "unat (age g) \<le> t" using assms(3) by (auto simp: implements_def)
  then have lt: "unat (age g) + 1 < 2 ^ 64" using assms(5) by simp
  then have "age g \<noteq> - 1" by (auto simp: unsigned_minus_1_eq_mask mask_eq_exp_minus_1)
  moreover have "unat (age g + 1) = Suc (unat (age g))" using lt by (simp add: unat_add_lem [THEN iffD1])
  ultimately show ?thesis
    using mutate_current [OF assms(1,2) _ ow, of now f] assms(3) g ow IpcMutate
    by (auto simp: implements_def fun_eq_iff le_Suc_eq)
next
  case (IpcQuery n)
  then have "owned c n \<noteq> None" using assms(3,4) by (auto simp: implements_def)
  then show ?thesis
    using query_current [OF assms(1), of config c n now] assms(3) IpcQuery by (auto simp: implements_def le_Suc_eq)
next
  case (IpcDepart n)
  let ?ns = "filter (\<lambda>k. k \<noteq> n) (hm_keys (ipc_engines c))"
  have "hm_wf (ipc_engines c)" using assms(3) by (simp add: implements_def current_def sane_def)
  then have "distinct ?ns" "set ?ns = dom (owned c) - {n}" using owned_dom by (auto simp: hm.distinct_law)
  from departure_current [OF _ this, of bc config] assms(3) obtain c' where
    "fold_result (ipc_node_left n) ?ns c = Inr c'" "current bc config (ipc_remove n c')"
    "owned (ipc_remove n c') = (owned c)(n := None)" by (auto simp: implements_def)
  then show ?thesis using IpcDepart assms(3) by (auto simp: implements_def fun_eq_iff le_Suc_eq split: if_splits)
qed

lemma implements_run:
  assumes "bincode_ok bc" and "st_push_mode (sc_sync_strategy config) = Some ActivePush"
    and "implements bc config t c s" and "spec_valid ops s" and "t + length ops < 2 ^ 64"
  shows "\<exists>c'. fold_result (ipc_apply now) ops c = Inr c' \<and> implements bc config (t + length ops) c' (fold spec_apply ops s)"
  using assms(3-5)
proof (induction ops arbitrary: t c s)
  case (Cons op ops)
  then obtain c1 where "ipc_apply now op c = Inr c1" "implements bc config (Suc t) c1 (spec_apply op s)"
    using implements_apply [OF assms(1,2) Cons.prems(1), of op now] by auto
  then show ?case using Cons.IH [of "Suc t" c1 "spec_apply op s"] Cons.prems(2,3) by auto
qed simp

lemma implements_new:
  assumes "bincode_ok bc" shows "\<exists>c. ipc_new bc now n config = Inr c \<and> implements bc config 0 c (spec_new n)"
proof -
  obtain c where c: "ipc_new bc now n config = Inr c" "current bc config c" "dom (owned c) = demo_node_id ` {..<n}"
    "\<forall>k g v. owned c k = Some (g, v) \<longrightarrow> v = counter_default \<and> age g = 0"
    using new_current [OF assms, of now n config] by (elim exE conjE)
  have "spec_new n k = map_option snd (owned c k)" for k
  proof (cases "owned c k")
    case None
    then show ?thesis using c(3) by (auto simp: spec_new_def)
  next
    case (Some p)
    then have "k \<in> demo_node_id ` {..<n}" using c(3) by blast
    then show ?thesis using Some c(4) by (cases p) (auto simp: spec_new_def)
  qed
  then show ?thesis using c by (auto simp: implements_def fun_eq_iff)
qed

lemma implements_query:
  assumes "bincode_ok bc" and "implements bc config t c s" and "s n \<noteq> None"
  shows "\<exists>c' views. ipc_query now n c = Inr (c', views) \<and> implements bc config t c' s \<and>
    (\<forall>k. hm_get views k = map_option cnt_value (s k))"
  using query_current [OF assms(1), of config c n now] assms(2,3)
  by (auto simp: implements_def option.map_comp comp_def)

text \<open>
  C15: the in-process cluster implements one atomic map. With the active-push strategy and a codec that round-trips, a new
  cluster on which any script of mutations and queries at members and of departures runs (fewer than \<open>2 ^ 64 - 1\<close> operations,
  so that no age wraps) returns without a panic, whatever the clock reads, and afterwards a query at any remaining member returns
  exactly the counters that the script, run atomically on one map, gives: every effect is routed to every node before the
  next operation, and a departed node is shown nowhere.
\<close>

theorem in_process_refines_map:
  assumes "bincode_ok bc" and "st_push_mode (sc_sync_strategy config) = Some ActivePush"
    and "spec_valid ops (spec_new n)" and "length ops < 2 ^ 64 - 1"
  shows "\<exists>c0 c. ipc_new bc now n config = Inr c0 \<and> fold_result (ipc_apply now) ops c0 = Inr c \<and>
    (\<forall>j \<in> dom (fold spec_apply ops (spec_new n)). \<exists>c' views. ipc_query now j c = Inr (c', views) \<and>
      (\<forall>k. hm_get views k = map_option cnt_value (fold spec_apply ops (spec_new n) k)))"
proof -
  obtain c0 where c0: "ipc_new bc now n config = Inr c0" "implements bc config 0 c0 (spec_new n)"
    using implements_new [OF assms(1), of now n config] by (elim exE conjE)
  then obtain c where "fold_result (ipc_apply now) ops c0 = Inr c"
    "implements bc config (length ops) c (fold spec_apply ops (spec_new n))"
    using implements_run [OF assms(1,2) c0(2) assms(3), of now] assms(4) by auto
  then show ?thesis using c0(1) implements_query [OF assms(1)] by blast
qed

text \<open>A codec that round-trips: the value in unary, then the label.\<close>

definition demo_bincode :: "counter bincode" where
  "demo_bincode = \<lparr>bc_serialize = (\<lambda>c. replicate (unat (cnt_value c)) 1 @ 0 # map (\<lambda>ch. of_nat (of_char ch)) (cnt_label c)),
     bc_deserialize = (\<lambda>bs. Inr \<lparr>cnt_value = of_nat (length (takeWhile (\<lambda>b. b = 1) bs)),
       cnt_label = map (\<lambda>b. char_of (unat b)) (tl (dropWhile (\<lambda>b. b = 1) bs))\<rparr>)\<rparr>"

lemma unary_prefix:
  "takeWhile (\<lambda>b. b = 1) (replicate n 1 @ 0 # bs) = replicate n (1 :: u8)"
  "dropWhile (\<lambda>b. b = 1) (replicate n 1 @ 0 # bs) = (0 :: u8) # bs"
  by (induction n) simp_all

lemma demo_bincode_ok: "bincode_ok demo_bincode"
proof -
  have "char_of (unat (of_nat (of_char ch) :: u8)) = ch" for ch
    by (simp add: unsigned_of_nat take_bit_nat_eq_self)
  then show ?thesis
    by (simp add: bincode_ok_def demo_bincode_def unary_prefix comp_def)
qed

theorem in_process_refines_map_witness:
  "\<exists>c0 c c' views. ipc_new demo_bincode (\<lambda>_. demo_clock) 2 state_config_default = Inr c0 \<and>
     fold_result (ipc_apply (\<lambda>_. demo_clock)) [IpcMutate (demo_node_id 1) (cnt_value_update (\<lambda>_. 7)), IpcQuery (demo_node_id 0)] c0 =
       Inr c \<and> ipc_query (\<lambda>_. demo_clock) (demo_node_id 0) c = Inr (c', views) \<and> hm_get views (demo_node_id 1) = Some 7"
proof -
  let ?ops = "[IpcMutate (demo_node_id 1) (cnt_value_update (\<lambda>_. 7)), IpcQuery (demo_node_id 0)]"
  have "st_push_mode (sc_sync_strategy state_config_default) = Some ActivePush"
    by (simp add: state_config_default_def active_push_def)
  moreover have new: "spec_new 2 (demo_node_id 0) = Some counter_default" "spec_new 2 (demo_node_id 1) = Some counter_default"
    by (auto simp: spec_new_def)
  then have "spec_valid ?ops (spec_new 2)" by (simp add: demo_node_id_inject)
  ultimately obtain c0 c where "ipc_new demo_bincode (\<lambda>_. demo_clock) 2 state_config_default = Inr c0"
    "fold_result (ipc_apply (\<lambda>_. demo_clock)) ?ops c0 = Inr c"
    "\<forall>j \<in> dom (fold spec_apply ?ops (spec_new 2)). \<exists>c' views. ipc_query (\<lambda>_. demo_clock) j c = Inr (c', views) \<and>
      (\<forall>k. hm_get views k = map_option cnt_value (fold spec_apply ?ops (spec_new 2) k))"
    using in_process_refines_map [OF demo_bincode_ok, of state_config_default ?ops 2 "\<lambda>_. demo_clock"] by auto
  moreover have "demo_node_id 0 \<in> dom (fold spec_apply ?ops (spec_new 2))" using new by auto
  ultimately show ?thesis using new by fastforce
qed

text \<open>The assertions of the demo, one step at a time.\<close>

lemma implements_mutate:
  assumes "bincode_ok bc" and "st_push_mode (sc_sync_strategy config) = Some ActivePush"
    and "implements bc config t c s" and "s n = Some v" and "Suc t < 2 ^ 64"
  shows "\<exists>c'. ipc_mutate now n f c = Inr c' \<and> implements bc config (Suc t) c' (s(n \<mapsto> f v))"
  using implements_apply [OF assms(1-3), of "IpcMutate n f" now] assms(4,5) by simp

lemma implements_queries:
  assumes "bincode_ok bc" and "implements bc config t c s" and "\<forall>n \<in> set ns. s n \<noteq> None"
  shows "\<exists>c'. fold_result (\<lambda>node c. result_bind (ipc_query now node c) (\<lambda>(c, views). Inr c)) ns c = Inr c' \<and>
    implements bc config t c' s"
  using assms(2,3)
proof (induction ns arbitrary: c)
  case (Cons n ns)
  obtain c1 views where "ipc_query now n c = Inr (c1, views)" "implements bc config t c1 s"
    using implements_query [OF assms(1) Cons.prems(1), of n now] Cons.prems(2) by auto
  then show ?case using Cons.IH [of c1] Cons.prems(2) by auto
qed simp

lemma implements_depart:
  assumes "implements bc config t c s" and "distinct ns" and "set ns = dom s - {gone}"
  shows "\<exists>c'. fold_result (ipc_node_left gone) ns c = Inr c' \<and> implements bc config t (ipc_remove gone c') (s(gone := None))"
proof -
  have "dom s = dom (owned c)" using assms(1) by (auto simp: implements_def)
  with departure_current [of bc config c ns gone] assms obtain c' where
    "fold_result (ipc_node_left gone) ns c = Inr c'" "current bc config (ipc_remove gone c')"
    "owned (ipc_remove gone c') = (owned c)(gone := None)" by (auto simp: implements_def)
  then show ?thesis using assms(1) by (auto simp: implements_def fun_eq_iff split: if_splits)
qed

text \<open>
  C16: the demo passes. For every codec that round-trips and whatever the system clock reads, \<open>main\<close> of the
  example runs to its end: no engine is missing, no engine panics, the recursive routing returns, and each of its
  assertions (the three counters a query at node 0 shows, and the absence of the departed node 2 after it left) holds.
\<close>

theorem demo_main_passes:
  assumes "bincode_ok bc"
  shows "\<exists>c. demo_main bc now = Inr c"
proof -
  let ?config = "state_config_default\<lparr>sc_sync_strategy := active_push\<rparr>"
  let ?n0 = "demo_node_id 0" and ?n1 = "demo_node_id 1" and ?n2 = "demo_node_id 2"
  let ?f0 = "\<lambda>s. s\<lparr>cnt_value := 42, cnt_label := ''hello from node-0''\<rparr>"
  let ?f1 = "\<lambda>s. s\<lparr>cnt_value := 100, cnt_label := ''node-1 reporting''\<rparr>"
  let ?f2 = "\<lambda>s. s\<lparr>cnt_value := 200, cnt_label := ''node-2 active''\<rparr>"
  have push: "st_push_mode (sc_sync_strategy ?config) = Some ActivePush" by (simp add: active_push_def)
  note mutate = implements_mutate [OF assms push] and query = implements_query [OF assms]
  define d where "d = counter_default"
  have "{..<3 :: nat} = {0, 1, 2}" by auto
  then have s0: "spec_new 3 = [?n0 \<mapsto> d, ?n1 \<mapsto> d, ?n2 \<mapsto> d]" by (auto simp: spec_new_def d_def fun_eq_iff)
  define s where "s = [?n0 \<mapsto> ?f0 d, ?n1 \<mapsto> ?f1 d, ?n2 \<mapsto> ?f2 d]"
  note ids = demo_node_id_inject
  obtain c0 where c0: "ipc_new bc now 3 ?config = Inr c0" "implements bc ?config 0 c0 (spec_new 3)"
    using implements_new [OF assms, of now 3 ?config] by (elim exE conjE)
  obtain c1 where c1: "ipc_mutate now ?n0 ?f0 c0 = Inr c1" "implements bc ?config 1 c1 ((spec_new 3)(?n0 \<mapsto> ?f0 d))"
    using mutate [OF c0(2), of ?n0 d now ?f0] by (auto simp: s0 ids)
  obtain c2 where c2: "fold_result (\<lambda>node c. result_bind (ipc_query now node c) (\<lambda>(c, views). Inr c)) [?n0, ?n1, ?n2] c1 = Inr c2"
    "implements bc ?config 1 c2 ((spec_new 3)(?n0 \<mapsto> ?f0 d))"
    using implements_queries [OF assms c1(2), of "[?n0, ?n1, ?n2]" now] by (auto simp: s0 ids simp del: fold_result.simps)
  obtain c3 where c3: "ipc_mutate now ?n1 ?f1 c2 = Inr c3" "implements bc ?config (Suc 1) c3 ((spec_new 3)(?n0 \<mapsto> ?f0 d, ?n1 \<mapsto> ?f1 d))"
    using mutate [OF c2(2), of ?n1 d now ?f1] by (auto simp: s0 ids)
  obtain c4 where c4: "ipc_mutate now ?n2 ?f2 c3 = Inr c4" "implements bc ?config (Suc (Suc 1)) c4 s"
    using mutate [OF c3(2), of ?n2 d now ?f2] by (auto simp: s0 s_def ids fun_upd_twist)
  obtain c5 views where c5: "ipc_query now ?n0 c4 = Inr (c5, views)" "implements bc ?config (Suc (Suc 1)) c5 s"
    "\<forall>k. hm_get views k = map_option cnt_value (s k)"
    using query [OF c4(2), of ?n0 now] by (auto simp: s_def ids)
  obtain c6 where c6: "fold_result (ipc_node_left ?n2) [?n0, ?n1] c5 = Inr c6"
    "implements bc ?config (Suc (Suc 1)) (ipc_remove ?n2 c6) (s(?n2 := None))"
    using implements_depart [OF c5(2), of "[?n0, ?n1]" ?n2] by (auto simp: s_def ids simp del: fold_result.simps)
  obtain c7 views' where c7: "ipc_query now ?n0 (ipc_remove ?n2 c6) = Inr (c7, views')"
    "\<forall>k. hm_get views' k = map_option cnt_value ((s(?n2 := None)) k)"
    using query [OF c6(2), of ?n0 now] by (auto simp: s_def ids)
  have "hm_get views ?n0 = Some 42" "hm_get views ?n1 = Some 100" "hm_get views ?n2 = Some 200" "\<not> hm_contains_key views' ?n2"
    using c5(3) c7(2) by (simp_all add: s_def ids hm_contains_key_def hm_get_def [symmetric])
  then have "demo_main bc now = Inr c7"
    unfolding demo_main_def Let_def
    by (simp add: c0(1) c1(1) c2(1) c3(1) c4(1) c5(1) c6(1) c7(1) demo_assert_def del: fold_result.simps One_nat_def)
  then show ?thesis ..
qed

theorem demo_main_passes_witness: "\<exists>c. demo_main demo_bincode (\<lambda>_. demo_clock) = Inr c"
  using demo_main_passes [OF demo_bincode_ok] .

end
