(* ===== verification/Float64.thy ===== *)
theory Float64
  imports Prelude Complex_Main "HOL-Library.Log_Nat"
begin

text \<open>
  The \<open>f64\<close> of Rust as far as the repository computes with it: IEEE 754 binary64 numbers as exact rationals, with rounding
  to nearest, ties to even, 53 bits of precision, gradual underflow and overflow to infinity. \<open>Finite 0\<close> is the positive
  zero, \<open>MinusZero\<close> the negative one; the payload of a NaN is not kept.
\<close>

datatype f64 = NaN | Infinity (negative: bool) | Finite rat | MinusZero

subsection \<open>Rounding\<close>

definition round_half_even :: "rat \<Rightarrow> int" where
  "round_half_even x = (let f = \<lfloor>x\<rfloor>; r = x - of_int f
     in if r < 1 / 2 \<or> r = 1 / 2 \<and> even f then f else f + 1)"

text \<open>The exponent of the binade of a positive number.\<close>

definition binade :: "rat \<Rightarrow> int" where
  "binade x = (let (n, d) = quotient_of x; e = bitlen n - bitlen d in if 2 powi e \<le> x then e else e - 1)"

definition quantum :: "rat \<Rightarrow> int" where
  "quantum x = max (binade x - 52) (- 1074)"

definition round_to :: "int \<Rightarrow> rat \<Rightarrow> rat" where
  "round_to q x = of_int (round_half_even (x / 2 powi q)) * 2 powi q"

definition zero_of :: "bool \<Rightarrow> f64" where
  "zero_of sign = (if sign then MinusZero else Finite 0)"

definition f64_round :: "rat \<Rightarrow> f64" where
  "f64_round x =
     (let r = (if x = 0 then 0 else if x < 0 then - round_to (quantum (- x)) (- x) else round_to (quantum x) x)
      in if \<bar>r\<bar> \<ge> 2 ^ 1024 then Infinity (x < 0) else if r = 0 then zero_of (x < 0) else Finite r)"

subsection \<open>Operations\<close>

text \<open>The sign bit, and the number of a value that is one.\<close>

fun f64_sign :: "f64 \<Rightarrow> bool" where
  "f64_sign NaN = False"
| "f64_sign (Infinity s) = s"
| "f64_sign (Finite x) = (x < 0)"
| "f64_sign MinusZero = True"

fun f64_num :: "f64 \<Rightarrow> rat option" where
  "f64_num (Finite x) = Some x"
| "f64_num MinusZero = Some 0"
| "f64_num _ = None"

definition u64_as_f64 :: "u64 \<Rightarrow> f64" where
  "u64_as_f64 w = f64_round (of_nat (unat w))"

fun f64_neg :: "f64 \<Rightarrow> f64" where
  "f64_neg NaN = NaN"
| "f64_neg (Infinity s) = Infinity (\<not> s)"
| "f64_neg (Finite x) = (if x = 0 then MinusZero else Finite (- x))"
| "f64_neg MinusZero = Finite 0"

definition f64_add :: "f64 \<Rightarrow> f64 \<Rightarrow> f64" where
  "f64_add a b =
     (if a = NaN \<or> b = NaN then NaN
      else case (f64_num a, f64_num b) of
        (Some x, Some y) \<Rightarrow> if a = MinusZero \<and> b = MinusZero then MinusZero else f64_round (x + y)
      | (Some x, None) \<Rightarrow> b
      | (None, Some y) \<Rightarrow> a
      | (None, None) \<Rightarrow> if a = b then a else NaN)"

definition f64_sub :: "f64 \<Rightarrow> f64 \<Rightarrow> f64" where
  "f64_sub x y = f64_add x (f64_neg y)"

definition f64_mul :: "f64 \<Rightarrow> f64 \<Rightarrow> f64" where
  "f64_mul a b =
     (let sign = (f64_sign a \<noteq> f64_sign b)
      in if a = NaN \<or> b = NaN then NaN
      else case (f64_num a, f64_num b) of
        (Some x, Some y) \<Rightarrow> if x * y = 0 then zero_of sign else f64_round (x * y)
      | (Some x, None) \<Rightarrow> if x = 0 then NaN else Infinity sign
      | (None, Some y) \<Rightarrow> if y = 0 then NaN else Infinity sign
      | (None, None) \<Rightarrow> Infinity sign)"

definition f64_div :: "f64 \<Rightarrow> f64 \<Rightarrow> f64" where
  "f64_div a b =
     (let sign = (f64_sign a \<noteq> f64_sign b)
      in if a = NaN \<or> b = NaN then NaN
      else case (f64_num a, f64_num b) of
        (Some x, Some y) \<Rightarrow>
          if y = 0 then (if x = 0 then NaN else Infinity sign)
          else if x = 0 then zero_of sign else f64_round (x / y)
      | (Some x, None) \<Rightarrow> zero_of sign
      | (None, Some y) \<Rightarrow> Infinity sign
      | (None, None) \<Rightarrow> NaN)"

fun f64_abs :: "f64 \<Rightarrow> f64" where
  "f64_abs NaN = NaN"
| "f64_abs (Infinity s) = Infinity False"
| "f64_abs (Finite x) = Finite \<bar>x\<bar>"
| "f64_abs MinusZero = Finite 0"

text \<open>\<open><\<close>, \<open>>=\<close> and \<open>==\<close>; all are false when an operand is not a number, and the zeros are equal.\<close>

definition f64_less :: "f64 \<Rightarrow> f64 \<Rightarrow> bool" where
  "f64_less a b \<longleftrightarrow> a \<noteq> NaN \<and> b \<noteq> NaN \<and>
     (case (f64_num a, f64_num b) of
        (Some x, Some y) \<Rightarrow> x < y
      | (Some x, None) \<Rightarrow> \<not> f64_sign b
      | (None, Some y) \<Rightarrow> f64_sign a
      | (None, None) \<Rightarrow> f64_sign a \<and> \<not> f64_sign b)"

definition f64_eq :: "f64 \<Rightarrow> f64 \<Rightarrow> bool" where
  "f64_eq a b \<longleftrightarrow> a \<noteq> NaN \<and> b \<noteq> NaN \<and>
     (case (f64_num a, f64_num b) of
        (Some x, Some y) \<Rightarrow> x = y
      | (None, None) \<Rightarrow> f64_sign a = f64_sign b
      | _ \<Rightarrow> False)"

definition f64_ge :: "f64 \<Rightarrow> f64 \<Rightarrow> bool" where
  "f64_ge a b \<longleftrightarrow> f64_less b a \<or> f64_eq a b"

text \<open>The \<open>Display\<close> of a number with one decimal: exact, ties to even, with the sign bit shown even on a zero.\<close>

definition show_tenths :: "nat \<Rightarrow> string" where
  "show_tenths n = show_nat (n div 10) @ ''.'' @ show_nat (n mod 10)"

definition f64_tenths :: "rat \<Rightarrow> nat" where
  "f64_tenths x = nat (round_half_even (\<bar>x\<bar> * 10))"

definition f64_show1 :: "f64 \<Rightarrow> string" where
  "f64_show1 a =
     (if a = NaN then ''NaN''
      else (if f64_sign a then ''-'' else '''') @
        (case f64_num a of None \<Rightarrow> ''inf'' | Some x \<Rightarrow> show_tenths (f64_tenths x)))"

lemma f64_finite_ops [simp]:
  "f64_add (Finite x) (Finite y) = f64_round (x + y)"
  "f64_sub (Finite x) (Finite y) = f64_round (x - y)"
  "f64_sub NaN a = NaN"
  "\<not> f64_less NaN a"
  "0 \<le> x \<Longrightarrow> 0 \<le> y \<Longrightarrow> f64_mul (Finite x) (Finite y) = f64_round (x * y)"
  "0 < y \<Longrightarrow> 0 \<le> x \<Longrightarrow> f64_div (Finite x) (Finite y) = f64_round (x / y)"
  "f64_less (Finite x) (Finite y) \<longleftrightarrow> x < y"
  "f64_ge (Finite x) (Finite y) \<longleftrightarrow> y \<le> x"
  by (auto simp: f64_add_def f64_sub_def f64_mul_def f64_div_def f64_less_def f64_ge_def f64_eq_def f64_round_def zero_of_def Let_def)

subsection \<open>Rounding is monotone\<close>

lemma round_half_even_of_int [simp]: "round_half_even (of_int n) = n"
  by (simp add: round_half_even_def)

lemma round_half_even_bounds: "\<lfloor>x\<rfloor> \<le> round_half_even x" "round_half_even x \<le> \<lfloor>x\<rfloor> + 1"
  by (simp_all add: round_half_even_def Let_def)

lemma round_half_even_mono: "x \<le> y \<Longrightarrow> round_half_even x \<le> round_half_even y"
proof (cases "\<lfloor>x\<rfloor> = \<lfloor>y\<rfloor>")
  case True
  then show "x \<le> y \<Longrightarrow> ?thesis" by (auto simp: round_half_even_def Let_def)
next
  case False
  assume "x \<le> y"
  then have "\<lfloor>x\<rfloor> < \<lfloor>y\<rfloor>" using False floor_mono [of x y] by linarith
  then show ?thesis using round_half_even_bounds [of x] round_half_even_bounds [of y] by linarith
qed

lemma power_int_as_int: "q \<le> k \<Longrightarrow> (2 :: rat) powi k = of_int (2 ^ nat (k - q)) * 2 powi q"
proof -
  assume "q \<le> k"
  then have "(2 :: rat) powi k = 2 powi (k - q) * 2 powi q" by (simp flip: power_int_add)
  also have "(2 :: rat) powi (k - q) = of_int (2 ^ nat (k - q))" using \<open>q \<le> k\<close> by (simp add: power_int_def)
  finally show ?thesis .
qed

lemma round_to_mono: "x \<le> y \<Longrightarrow> round_to q x \<le> round_to q y"
  by (auto simp: round_to_def intro!: mult_right_mono round_half_even_mono divide_right_mono)

lemma round_to_power: "q \<le> k \<Longrightarrow> round_to q (2 powi k) = 2 powi k"
  using round_half_even_of_int [of "2 ^ nat (k - q)"] by (simp add: round_to_def power_int_as_int)

lemma round_to_nonneg: "0 \<le> x \<Longrightarrow> 0 \<le> round_to q x"
  using round_to_mono [of 0 x q] round_half_even_of_int [of 0] by (simp add: round_to_def)

lemma binade_bounds:
  assumes "0 < x" shows "2 powi binade x \<le> x" "x < 2 powi (binade x + 1)"
proof -
  obtain n d where nd: "quotient_of x = (n, d)" by fastforce
  have d: "0 < d" and x: "x = of_int n / of_int d" using quotient_of_denom_pos [OF nd] quotient_of_div [OF nd] by auto
  then have n: "0 < n" using assms by (simp add: zero_less_divide_iff)
  have pow: "(2 :: rat) powi (bitlen m - 1) \<le> of_int m" "of_int m < (2 :: rat) powi bitlen m" if "0 < m" for m
  proof -
    have len: "0 \<le> bitlen m - 1" using bitlen_eq_zero_iff [of m] bitlen_nonneg [of m] that by linarith
    have "of_int (2 ^ nat (bitlen m - 1)) \<le> (of_int m :: rat)" "(of_int m :: rat) < of_int (2 ^ nat (bitlen m))"
      using bitlen_bounds [OF that] by (simp_all only: of_int_le_iff of_int_less_iff)
    then show "(2 :: rat) powi (bitlen m - 1) \<le> of_int m" "of_int m < (2 :: rat) powi bitlen m"
      using len by (simp_all add: power_int_def)
  qed
  let ?e = "bitlen n - bitlen d"
  have "x < 2 powi bitlen n / 2 powi (bitlen d - 1)"
    unfolding x using pow [OF n] pow [OF d] n d by (intro frac_less) auto
  also have "\<dots> = 2 powi (?e + 1)" by (simp flip: power_int_diff add: algebra_simps)
  finally have upper: "x < 2 powi (?e + 1)" .
  have "2 powi (?e - 1) = (2 :: rat) powi (bitlen n - 1) / 2 powi bitlen d" by (simp flip: power_int_diff add: algebra_simps)
  also have "\<dots> \<le> x" unfolding x using pow [OF n] pow [OF d] n d by (intro frac_le) auto
  finally have lower: "2 powi (?e - 1) \<le> x" .
  show "2 powi binade x \<le> x" "x < 2 powi (binade x + 1)"
    using upper lower by (simp_all add: binade_def nd not_le Let_def)
qed

lemma binade_mono:
  assumes "0 < x" and "x \<le> y" shows "binade x \<le> binade y"
proof (rule ccontr)
  assume "\<not> binade x \<le> binade y"
  then have "(2 :: rat) powi (binade y + 1) \<le> 2 powi binade x" by (intro power_int_increasing) auto
  then show False using binade_bounds [of x] binade_bounds [of y] assms by linarith
qed

text \<open>The rounded magnitude, and that rounding keeps order: below a power of two it stays below it.\<close>

lemma round_below_power:
  assumes "0 < x" and "x \<le> 2 powi k" and "- 1074 \<le> k" shows "round_to (quantum x) x \<le> 2 powi k"
proof -
  have "binade x \<le> k"
  proof (rule ccontr)
    assume "\<not> binade x \<le> k"
    then have "(2 :: rat) powi (k + 1) \<le> 2 powi binade x" by (intro power_int_increasing) auto
    moreover have "(2 :: rat) powi k < 2 powi (k + 1)" by (intro power_int_strict_increasing) auto
    ultimately show False using binade_bounds(1) [OF assms(1)] assms(2) by linarith
  qed
  then have "quantum x \<le> k" using assms(3) by (simp add: quantum_def)
  then show ?thesis using round_to_mono [OF assms(2), of "quantum x"] round_to_power by simp
qed

lemma round_mag_mono:
  assumes "0 < x" and "x \<le> y" shows "round_to (quantum x) x \<le> round_to (quantum y) y"
proof (cases "quantum x = quantum y")
  case True
  then show ?thesis using round_to_mono [OF assms(2)] by simp
next
  case False
  then have q: "quantum y = binade y - 52" "- 1074 \<le> binade y" "binade x < binade y"
    using binade_mono [OF assms] by (auto simp: quantum_def max_def split: if_splits)
  have "x < 2 powi (binade x + 1)" by (rule binade_bounds(2) [OF assms(1)])
  also have "\<dots> \<le> 2 powi binade y" using q(3) by (intro power_int_increasing) auto
  finally have "round_to (quantum x) x \<le> 2 powi binade y" using round_below_power [OF assms(1) _ q(2)] by simp
  also have "\<dots> = round_to (quantum y) (2 powi binade y)" using round_to_power [of "quantum y" "binade y"] q(1) by simp
  also have "\<dots> \<le> round_to (quantum y) y" using binade_bounds(1) [of y] assms by (intro round_to_mono) auto
  finally show ?thesis .
qed

lemma f64_round_pos:
  assumes "0 \<le> x" and "x \<le> 2 ^ 64" shows "f64_round x = Finite (if x = 0 then 0 else round_to (quantum x) x)"
    and "0 \<le> (if x = 0 then 0 else round_to (quantum x) x)"
proof -
  have "round_to (quantum x) x \<le> 2 powi 64" if "x \<noteq> 0"
    using round_below_power [of x 64] assms that by (simp add: power_int_def)
  moreover have "(2 :: rat) powi 64 < 2 ^ 1024" by simp
  ultimately show "f64_round x = Finite (if x = 0 then 0 else round_to (quantum x) x)"
    using assms(1) round_to_nonneg [OF assms(1), of "quantum x"] by (auto simp: f64_round_def zero_of_def Let_def)
  show "0 \<le> (if x = 0 then 0 else round_to (quantum x) x)" using round_to_nonneg [OF assms(1)] by simp
qed

text \<open>What rounding does to the numbers between zero and \<open>2 ^ 64\<close>.\<close>

lemma f64_round_between:
  assumes "0 \<le> x" and "x \<le> y" and "y \<le> 2 ^ 64"
  obtains r t where "f64_round x = Finite r" "f64_round y = Finite t" "0 \<le> r" "r \<le> t"
proof -
  have "(if x = 0 then 0 else round_to (quantum x) x) \<le> (if y = 0 then 0 else round_to (quantum y) y)"
    using assms round_mag_mono [of x y] round_to_nonneg [of y "quantum y"] by auto
  then show thesis using that f64_round_pos [of x] f64_round_pos [of y] assms by auto
qed

lemma f64_round_exactI:
  assumes "0 < x" and "x \<le> 2 ^ 64" and "round_to (quantum x) x = x" shows "f64_round x = Finite x"
  using f64_round_pos(1) [of x] assms by simp

lemma round_to_exact:
  "round_to (quantum 1) 1 = 1" "round_to (quantum 2) 2 = 2" "round_to (quantum 10) 10 = 10" "round_to (quantum 100) 100 = 100"
  by code_simp+

lemma f64_round_exact [simp]:
  "f64_round 0 = Finite 0" "f64_round 1 = Finite 1" "f64_round 2 = Finite 2" "f64_round 10 = Finite 10"
  "f64_round 100 = Finite 100"
  using f64_round_pos(1) [of 0] by (simp_all add: f64_round_exactI round_to_exact)

end
