(* ===== verification/Node_Resource.thy ===== *)
theory Node_Resource
  imports Test_States Float64 "HOL-Library.Countable"
begin

text \<open>
  The example \<open>dstate/examples/node_resource.rs\<close>: a \<open>DeltaDistributedState\<close> that monitors the resources of a node. The running
  average of the CPU samples and the sample count are private; the view has the metrics only, and the urgency of a
  synchronisation depends on how far a metric moved. Arithmetic on \<open>f64\<close> is that of \<open>Float64\<close>; counters are \<open>u64\<close> and
  wrap.
\<close>

subsection \<open>Types\<close>

record node_resource_state =
  nr_sample_count :: u64
  nr_cpu_accumulator :: f64
  nr_cpu_usage_pct :: f64
  nr_memory_used_bytes :: u64
  nr_memory_total_bytes :: u64
  nr_disk_used_bytes :: u64
  nr_disk_total_bytes :: u64

definition node_resource_state_default :: node_resource_state where
  "node_resource_state_default = \<lparr>nr_sample_count = 0, nr_cpu_accumulator = Finite 0, nr_cpu_usage_pct = Finite 0,
     nr_memory_used_bytes = 0, nr_memory_total_bytes = 8 * 1024 * 1024 * 1024,
     nr_disk_used_bytes = 0, nr_disk_total_bytes = 100 * 1024 * 1024 * 1024\<rparr>"

definition record_cpu_sample :: "f64 \<Rightarrow> node_resource_state \<Rightarrow> node_resource_state" where
  "record_cpu_sample cpu_pct s =
     (let s = s\<lparr>nr_sample_count := nr_sample_count s + 1\<rparr>;
          s = s\<lparr>nr_cpu_accumulator := f64_add (nr_cpu_accumulator s) cpu_pct\<rparr>
      in s\<lparr>nr_cpu_usage_pct := f64_div (nr_cpu_accumulator s) (u64_as_f64 (nr_sample_count s))\<rparr>)"

definition set_memory :: "u64 \<Rightarrow> u64 \<Rightarrow> node_resource_state \<Rightarrow> node_resource_state" where
  "set_memory used_bytes total_bytes s = s\<lparr>nr_memory_used_bytes := used_bytes, nr_memory_total_bytes := total_bytes\<rparr>"

definition set_disk :: "u64 \<Rightarrow> u64 \<Rightarrow> node_resource_state \<Rightarrow> node_resource_state" where
  "set_disk used_bytes total_bytes s = s\<lparr>nr_disk_used_bytes := used_bytes, nr_disk_total_bytes := total_bytes\<rparr>"

definition usage_pct :: "u64 \<Rightarrow> u64 \<Rightarrow> f64" where
  "usage_pct used_bytes total_bytes =
     (if total_bytes = 0 then Finite 0
      else f64_mul (f64_div (u64_as_f64 used_bytes) (u64_as_f64 total_bytes)) (Finite 100))"

definition state_memory_usage_pct :: "node_resource_state \<Rightarrow> f64" where
  "state_memory_usage_pct s = usage_pct (nr_memory_used_bytes s) (nr_memory_total_bytes s)"

record node_resource_view =
  nv_cpu_usage_pct :: f64
  nv_memory_used_bytes :: u64
  nv_memory_total_bytes :: u64
  nv_disk_used_bytes :: u64
  nv_disk_total_bytes :: u64

definition node_resource_view_default :: node_resource_view where
  "node_resource_view_default = \<lparr>nv_cpu_usage_pct = Finite 0, nv_memory_used_bytes = 0,
     nv_memory_total_bytes = 8 * 1024 * 1024 * 1024, nv_disk_used_bytes = 0,
     nv_disk_total_bytes = 100 * 1024 * 1024 * 1024\<rparr>"

definition view_memory_usage_pct :: "node_resource_view \<Rightarrow> f64" where
  "view_memory_usage_pct v = usage_pct (nv_memory_used_bytes v) (nv_memory_total_bytes v)"

definition show_view :: "node_resource_view \<Rightarrow> string" where
  "show_view v = ''CPU: '' @ f64_show1 (nv_cpu_usage_pct v) @ ''%, Mem: '' @
     show_u64 (nv_memory_used_bytes v div (1024 * 1024)) @ ''/'' @ show_u64 (nv_memory_total_bytes v div (1024 * 1024)) @
     '' ('' @ f64_show1 (view_memory_usage_pct v) @ ''%), Disk: '' @
     show_u64 (nv_disk_used_bytes v div (1024 * 1024)) @ ''/'' @ show_u64 (nv_disk_total_bytes v div (1024 * 1024))"

record node_resource_delta =
  nd_cpu_usage_pct :: "f64 option"
  nd_memory_used_bytes :: "u64 option"
  nd_memory_total_bytes :: "u64 option"
  nd_disk_used_bytes :: "u64 option"
  nd_disk_total_bytes :: "u64 option"

datatype node_resource_change =
    CpuSample f64
  | MemoryUpdate u64 u64
  | DiskUpdate u64 u64

subsection \<open>The delta state\<close>

definition memory_spike_threshold_pct :: f64 where
  "memory_spike_threshold_pct = Finite 10"

definition cpu_suppress_threshold_pct :: f64 where
  "cpu_suppress_threshold_pct = Finite 2"

definition node_resource_wire_version :: u32 where
  "node_resource_wire_version = 1"

definition node_resource_storage_version :: u32 where
  "node_resource_storage_version = 1"

definition resource_project_view :: "node_resource_state \<Rightarrow> node_resource_view" where
  "resource_project_view state = \<lparr>nv_cpu_usage_pct = nr_cpu_usage_pct state,
     nv_memory_used_bytes = nr_memory_used_bytes state, nv_memory_total_bytes = nr_memory_total_bytes state,
     nv_disk_used_bytes = nr_disk_used_bytes state, nv_disk_total_bytes = nr_disk_total_bytes state\<rparr>"

fun resource_project_delta :: "node_resource_change \<Rightarrow> node_resource_delta" where
  "resource_project_delta (CpuSample new_cpu_usage_pct) = \<lparr>nd_cpu_usage_pct = Some new_cpu_usage_pct,
     nd_memory_used_bytes = None, nd_memory_total_bytes = None, nd_disk_used_bytes = None, nd_disk_total_bytes = None\<rparr>"
| "resource_project_delta (MemoryUpdate used_bytes total_bytes) = \<lparr>nd_cpu_usage_pct = None,
     nd_memory_used_bytes = Some used_bytes, nd_memory_total_bytes = Some total_bytes, nd_disk_used_bytes = None,
     nd_disk_total_bytes = None\<rparr>"
| "resource_project_delta (DiskUpdate used_bytes total_bytes) = \<lparr>nd_cpu_usage_pct = None,
     nd_memory_used_bytes = None, nd_memory_total_bytes = None, nd_disk_used_bytes = Some used_bytes,
     nd_disk_total_bytes = Some total_bytes\<rparr>"

definition unwrap_or :: "'a option \<Rightarrow> 'a \<Rightarrow> 'a" where
  "unwrap_or x d = (case x of Some v \<Rightarrow> v | None \<Rightarrow> d)"

definition resource_apply_delta :: "node_resource_view \<Rightarrow> node_resource_delta \<Rightarrow> node_resource_view" where
  "resource_apply_delta view delta = \<lparr>
     nv_cpu_usage_pct = unwrap_or (nd_cpu_usage_pct delta) (nv_cpu_usage_pct view),
     nv_memory_used_bytes = unwrap_or (nd_memory_used_bytes delta) (nv_memory_used_bytes view),
     nv_memory_total_bytes = unwrap_or (nd_memory_total_bytes delta) (nv_memory_total_bytes view),
     nv_disk_used_bytes = unwrap_or (nd_disk_used_bytes delta) (nv_disk_used_bytes view),
     nv_disk_total_bytes = unwrap_or (nd_disk_total_bytes delta) (nv_disk_total_bytes view)\<rparr>"

fun resource_sync_urgency :: "node_resource_view \<Rightarrow> node_resource_view \<Rightarrow> node_resource_change \<Rightarrow> sync_urgency" where
  "resource_sync_urgency old_view new_view (MemoryUpdate used_bytes total_bytes) =
     (let old_pct = view_memory_usage_pct old_view;
          new_pct = view_memory_usage_pct new_view;
          diff = f64_abs (f64_sub new_pct old_pct)
      in if f64_ge diff memory_spike_threshold_pct then Immediate else DefaultUrgency)"
| "resource_sync_urgency old_view new_view (CpuSample new_cpu_usage_pct) =
     (let diff = f64_abs (f64_sub (nv_cpu_usage_pct new_view) (nv_cpu_usage_pct old_view))
      in if f64_less diff cpu_suppress_threshold_pct then SuppressUrgency else DefaultUrgency)"
| "resource_sync_urgency old_view new_view (DiskUpdate used_bytes total_bytes) = DefaultUrgency"

definition resource_serialize_view :: "node_resource_view bincode \<Rightarrow> node_resource_view \<Rightarrow> bytes" where
  "resource_serialize_view bc view = bc_serialize bc view"

definition resource_deserialize_view ::
    "node_resource_view bincode \<Rightarrow> bytes \<Rightarrow> u32 \<Rightarrow> deserialize_error + node_resource_view" where
  "resource_deserialize_view bc bs wire_version = versioned_deserialize node_resource_wire_version bc bs wire_version"

definition resource_serialize_delta :: "node_resource_delta bincode \<Rightarrow> node_resource_delta \<Rightarrow> bytes" where
  "resource_serialize_delta bc delta = bc_serialize bc delta"

definition resource_deserialize_delta ::
    "node_resource_delta bincode \<Rightarrow> bytes \<Rightarrow> u32 \<Rightarrow> deserialize_error + node_resource_delta" where
  "resource_deserialize_delta bc bs wire_version = versioned_deserialize node_resource_wire_version bc bs wire_version"

definition resource_serialize_state :: "node_resource_state bincode \<Rightarrow> node_resource_state \<Rightarrow> bytes" where
  "resource_serialize_state bc state = bc_serialize bc state"

definition resource_deserialize_state ::
    "node_resource_state bincode \<Rightarrow> bytes \<Rightarrow> u32 \<Rightarrow> deserialize_error + node_resource_state" where
  "resource_deserialize_state bc bs storage_version =
     versioned_deserialize node_resource_storage_version bc bs storage_version"

subsection \<open>The query helper\<close>

text \<open>\<open>Iterator::min_by\<close> returns the first of the minimal elements.\<close>

fun min_by :: "('a \<Rightarrow> 'b :: linorder) \<Rightarrow> 'a list \<Rightarrow> 'a option" where
  "min_by key [] = None"
| "min_by key (x # xs) =
     (case min_by key xs of None \<Rightarrow> Some x | Some y \<Rightarrow> if key x \<le> key y then Some x else Some y)"

definition find_lowest_memory_node ::
    "(node_id, node_resource_view state_view_object) hmap \<Rightarrow> node_id option" where
  "find_lowest_memory_node views = map_option fst (min_by (\<lambda>e. nv_memory_used_bytes (sv_value (snd e))) views)"

subsection \<open>Percentages\<close>

lemma u64_as_f64_mono:
  assumes "a \<le> b"
  obtains r t where "u64_as_f64 a = Finite r" "u64_as_f64 b = Finite t" "0 \<le> r" "r \<le> t"
proof -
  have b: "unat b < 2 ^ 64" using unsigned_less [of b, where ?'a = nat] by simp
  then have "rat_of_nat (unat b) < rat_of_nat (2 ^ 64)" by (simp only: of_nat_less_iff)
  then have "of_nat (unat b) \<le> (2 ^ 64 :: rat)" by simp
  moreover have "(of_nat (unat a) :: rat) \<le> of_nat (unat b)" using assms unfolding word_le_nat_alt by (simp only: of_nat_le_iff)
  ultimately obtain r t where "f64_round (of_nat (unat a)) = Finite r" "f64_round (of_nat (unat b)) = Finite t" "0 \<le> r" "r \<le> t"
    using f64_round_between [OF of_nat_0_le_iff] by blast
  then show thesis using that unfolding u64_as_f64_def by blast
qed

lemma u64_as_f64_1: "u64_as_f64 1 = Finite 1"
  by (simp add: u64_as_f64_def)

lemma u64_as_f64_pos: "t \<noteq> 0 \<Longrightarrow> \<exists>r. u64_as_f64 t = Finite r \<and> 1 \<le> r"
proof -
  assume "t \<noteq> 0"
  then have "1 \<le> t" by (simp add: word_le_nat_alt unat_gt_0 Suc_le_eq)
  then show ?thesis using u64_as_f64_mono [of 1 t] by (auto simp: u64_as_f64_1)
qed

lemma usage_pct_bounds:
  assumes "u \<le> t" obtains p where "usage_pct u t = Finite p" "0 \<le> p" "p \<le> 100"
proof (cases "t = 0")
  case True
  then show ?thesis using that [of 0] by (simp add: usage_pct_def)
next
  case False
  obtain ru rt where r: "u64_as_f64 u = Finite ru" "u64_as_f64 t = Finite rt" "0 \<le> ru" "ru \<le> rt"
    using u64_as_f64_mono [OF assms] .
  have rt: "1 \<le> rt" using u64_as_f64_pos [OF False] r(2) by auto
  have "0 \<le> ru / rt" "ru / rt \<le> 1" using r(3,4) rt by (auto simp: divide_le_eq_1)
  then obtain q where q: "f64_round (ru / rt) = Finite q" "0 \<le> q" "q \<le> 1"
    using f64_round_between [of "ru / rt" 1] by auto
  have "0 \<le> q * 100" "q * 100 \<le> 100" using q(2,3) by auto
  then obtain p where "f64_round (q * 100) = Finite p" "0 \<le> p" "p \<le> 100"
    using f64_round_between [of "q * 100" 100] by auto
  then show ?thesis using that False r(1-3) rt q(1,2) by (simp add: usage_pct_def)
qed

lemma usage_pct_ends: "t \<noteq> 0 \<Longrightarrow> usage_pct t t = Finite 100" "usage_pct 0 t = Finite 0"
  using u64_as_f64_pos [of t] by (auto simp: usage_pct_def u64_as_f64_def)

text \<open>
  C26: the percentage is a percentage. Where the used memory is at most the total, the memory usage that
  a node computes, with every conversion and operation rounded as \<open>f64\<close> does, is a number between 0 and 100: never
  not-a-number, never infinite, never above 100 by a rounding error; it is exactly 100 on a full and 0 on an
  empty or unsized memory, and the view a peer holds computes the same number as the owner.
\<close>

theorem memory_usage_pct_bounds:
  assumes "nr_memory_used_bytes s \<le> nr_memory_total_bytes s"
  shows "\<exists>p. state_memory_usage_pct s = Finite p \<and> 0 \<le> p \<and> p \<le> 100 \<and>
    view_memory_usage_pct (resource_project_view s) = Finite p \<and>
    (nr_memory_used_bytes s = 0 \<longrightarrow> p = 0) \<and>
    (nr_memory_used_bytes s = nr_memory_total_bytes s \<and> nr_memory_total_bytes s \<noteq> 0 \<longrightarrow> p = 100)"
proof -
  obtain p where p: "usage_pct (nr_memory_used_bytes s) (nr_memory_total_bytes s) = Finite p" "0 \<le> p" "p \<le> 100"
    using usage_pct_bounds [OF assms] .
  then show ?thesis
    using usage_pct_ends [of "nr_memory_total_bytes s"]
    by (intro exI [of _ p]) (auto simp: state_memory_usage_pct_def view_memory_usage_pct_def resource_project_view_def)
qed

theorem memory_usage_pct_bounds_witness:
  "\<exists>p. state_memory_usage_pct (set_memory 4096 4096 node_resource_state_default) = Finite p \<and> p = 100"
  using memory_usage_pct_bounds [of "set_memory 4096 4096 node_resource_state_default"]
  by (auto simp: set_memory_def)

subsection \<open>The printed view\<close>

lemma f64_show1_chars: "c \<in> set (f64_show1 a) \<Longrightarrow> c \<noteq> CHR ''%''"
  using show_nat_digits [of c] by (fastforce simp: f64_show1_def show_tenths_def split: if_splits option.splits)

lemma show_u64_chars: "c \<in> set (show_u64 w) \<Longrightarrow> c \<noteq> CHR ''/'' \<and> c \<noteq> CHR '' ''"
  using show_nat_digits [of c] by (fastforce simp: show_u64_def)

lemma show_u64_inject: "show_u64 a = show_u64 b \<longleftrightarrow> a = b"
  by (auto simp: show_u64_def word_unat_eq_iff dest: show_nat_inject)

text \<open>
  the printed line identifies what it prints. Two views print the same line exactly when their memory and disk figures
  agree in whole MiB and the two percentages print alike.
\<close>

theorem show_view_inject:
  "show_view v = show_view w \<longleftrightarrow>
     f64_show1 (nv_cpu_usage_pct v) = f64_show1 (nv_cpu_usage_pct w) \<and>
     f64_show1 (view_memory_usage_pct v) = f64_show1 (view_memory_usage_pct w) \<and>
     (\<forall>fld \<in> {nv_memory_used_bytes, nv_memory_total_bytes, nv_disk_used_bytes, nv_disk_total_bytes}.
        fld v div (1024 * 1024) = fld w div (1024 * 1024))"
proof -
  have pct: "CHR ''%'' \<notin> set (f64_show1 a)" for a using f64_show1_chars by blast
  have num: "CHR ''/'' \<notin> set (show_u64 x)" "CHR '' '' \<notin> set (show_u64 x)" for x using show_u64_chars by blast+
  show ?thesis
    unfolding show_view_def
    by (auto simp: append_sep_inject pct num show_u64_inject)
qed

subsection \<open>Urgency\<close>

text \<open>
  How urgent a change is. A memory update is never suppressed; filling an empty memory is immediate and
  leaving the usage alone is not. A CPU sample is suppressed when it moves the average by less than two points and
  never immediate; one that makes the average not-a-number is not suppressed. Disk updates follow the strategy.
\<close>

theorem resource_urgency:
  "resource_sync_urgency old new (MemoryUpdate u t) \<in> {Immediate, DefaultUrgency} \<and>
   resource_sync_urgency old new (DiskUpdate u t) = DefaultUrgency \<and>
   (nv_memory_used_bytes old = 0 \<and> nv_memory_used_bytes new = nv_memory_total_bytes new \<and> nv_memory_total_bytes new \<noteq> 0 \<longrightarrow>
      resource_sync_urgency old new (MemoryUpdate u t) = Immediate) \<and>
   (nv_cpu_usage_pct old = Finite x \<and> nv_cpu_usage_pct new = Finite y \<and> f64_round (y - x) = Finite d \<longrightarrow>
      resource_sync_urgency old new (CpuSample c) = (if \<bar>d\<bar> < 2 then SuppressUrgency else DefaultUrgency)) \<and>
   (nv_cpu_usage_pct new = NaN \<longrightarrow> resource_sync_urgency old new (CpuSample c) = DefaultUrgency)"
proof (intro conjI impI)
  assume a: "nv_memory_used_bytes old = 0 \<and> nv_memory_used_bytes new = nv_memory_total_bytes new \<and> nv_memory_total_bytes new \<noteq> 0"
  then have "view_memory_usage_pct old = Finite 0" "view_memory_usage_pct new = Finite 100"
    using usage_pct_ends by (auto simp: view_memory_usage_pct_def)
  then show "resource_sync_urgency old new (MemoryUpdate u t) = Immediate"
    by (simp add: memory_spike_threshold_pct_def)
qed (auto simp: cpu_suppress_threshold_pct_def Let_def)

subsection \<open>Replication\<close>

text \<open>Mutations built from the methods of the state, each with the change that describes it.\<close>

definition sample_cpu :: "f64 \<Rightarrow> node_resource_state \<Rightarrow> node_resource_state \<times> node_resource_change" where
  "sample_cpu pct s = (let s' = record_cpu_sample pct s in (s', CpuSample (nr_cpu_usage_pct s')))"

definition update_memory :: "u64 \<Rightarrow> u64 \<Rightarrow> node_resource_state \<Rightarrow> node_resource_state \<times> node_resource_change" where
  "update_memory u t s = (set_memory u t s, MemoryUpdate u t)"

definition update_disk :: "u64 \<Rightarrow> u64 \<Rightarrow> node_resource_state \<Rightarrow> node_resource_state \<times> node_resource_change" where
  "update_disk u t s = (set_disk u t s, DiskUpdate u t)"

definition resource_applier :: "node_resource_delta bincode \<Rightarrow> node_resource_view inbound_delta_applier" where
  "resource_applier bc bs version current_view =
     (case resource_deserialize_delta bc bs version of
        Inl err \<Rightarrow> Inl err
      | Inr delta \<Rightarrow> Inr (resource_apply_delta current_view delta))"

definition resource_spec ::
    "node_resource_view bincode \<Rightarrow> node_resource_delta bincode \<Rightarrow> state_config \<Rightarrow>
     (node_resource_state, node_resource_view, node_resource_change, node_resource_delta) replica_spec" where
  "resource_spec bcv bcd cfg = \<lparr>rs_name = ''node_resource'', rs_wire = node_resource_wire_version, rs_config = cfg,
     rs_project = resource_project_view, rs_serialize = resource_serialize_view bcv,
     rs_deserialize = resource_deserialize_view bcv, rs_applier = Some (resource_applier bcd),
     rs_project_delta = resource_project_delta, rs_serialize_delta = resource_serialize_delta bcd\<rparr>"

text \<open>A mutation is described by its change when applying the projected change to the old view gives the new one.\<close>

lemma described:
  "resource_apply_delta (resource_project_view s) (resource_project_delta (snd (sample_cpu pct s))) =
     resource_project_view (fst (sample_cpu pct s))"
  "resource_apply_delta (resource_project_view s) (resource_project_delta (snd (update_memory u t s))) =
     resource_project_view (fst (update_memory u t s))"
  "resource_apply_delta (resource_project_view s) (resource_project_delta (snd (update_disk u t s))) =
     resource_project_view (fst (update_disk u t s))"
  by (simp_all add: resource_apply_delta_def resource_project_view_def sample_cpu_def record_cpu_sample_def update_memory_def
      set_memory_def update_disk_def set_disk_def unwrap_or_def Let_def)

lemma resource_codec: "bincode_ok bcv \<Longrightarrow> codec_ok (resource_spec bcv bcd cfg)"
  by (simp add: codec_ok_def resource_spec_def resource_deserialize_view_def resource_serialize_view_def versioned_roundtrip)

lemma resource_honest:
  assumes "bincode_ok bcd"
    and "\<And>s. resource_apply_delta (resource_project_view s) (resource_project_delta (snd (g s))) = resource_project_view (fst (g s))"
  shows "honest_delta (resource_spec bcv bcd cfg) g"
  using assms by (simp add: honest_delta_def resource_spec_def resource_applier_def resource_deserialize_delta_def
      resource_serialize_delta_def versioned_roundtrip)

text \<open>
  C32: a cluster of resource monitors is consistent. Given only that bincode round-trips on the view and on the delta, every
  view in every reachable state is a placeholder or what its owner published at that generation; and each
  mutation made of a method of the state and the change that describes it is an honest delta mutation, although the
  view says nothing of the sample count and the accumulator: applying the delta gives exactly the new view, rounded
  average included.
\<close>

theorem resource_cluster_consistent:
  assumes "bincode_ok bcv" and "bincode_ok bcd" and "reachable sys_init (sys_step (resource_spec bcv bcd cfg)) s"
    and "sys_engines s n = Some e" and "eng_get_view e k = Some v"
  shows "(sv_generation v = generation_zero \<or> sys_log s k (sv_generation v) = Some (sv_value v)) \<and>
    honest_delta (resource_spec bcv bcd cfg) (sample_cpu pct) \<and> honest_delta (resource_spec bcv bcd cfg) (update_memory u t) \<and>
    honest_delta (resource_spec bcv bcd cfg) (update_disk u t)"
  using published_views [OF resource_codec [OF assms(1)] assms(3-5)] resource_honest [OF assms(2)] described by blast

text \<open>A bincode that can exist: a value is its number, in unary.\<close>

definition counted_bincode :: "('a \<Rightarrow> 'b :: countable) \<Rightarrow> ('b \<Rightarrow> 'a) \<Rightarrow> 'a bincode" where
  "counted_bincode parts build = \<lparr>bc_serialize = (\<lambda>x. replicate (to_nat (parts x)) 0),
     bc_deserialize = (\<lambda>bs. Inr (build (from_nat (length bs))))\<rparr>"

lemma counted_bincode_ok: "(\<And>x. build (parts x) = x) \<Longrightarrow> bincode_ok (counted_bincode parts build)"
  by (simp add: bincode_ok_def counted_bincode_def)

instance f64 :: countable by countable_datatype

definition resource_view_bincode :: "node_resource_view bincode" where
  "resource_view_bincode = counted_bincode
     (\<lambda>v. (nv_cpu_usage_pct v, nv_memory_used_bytes v, nv_memory_total_bytes v, nv_disk_used_bytes v, nv_disk_total_bytes v))
     (\<lambda>(c, mu, mt, du, dt). \<lparr>nv_cpu_usage_pct = c, nv_memory_used_bytes = mu, nv_memory_total_bytes = mt,
        nv_disk_used_bytes = du, nv_disk_total_bytes = dt\<rparr>)"

definition resource_delta_bincode :: "node_resource_delta bincode" where
  "resource_delta_bincode = counted_bincode
     (\<lambda>v. (nd_cpu_usage_pct v, nd_memory_used_bytes v, nd_memory_total_bytes v, nd_disk_used_bytes v, nd_disk_total_bytes v))
     (\<lambda>(c, mu, mt, du, dt). \<lparr>nd_cpu_usage_pct = c, nd_memory_used_bytes = mu, nd_memory_total_bytes = mt,
        nd_disk_used_bytes = du, nd_disk_total_bytes = dt\<rparr>)"

lemma resource_bincode_ok: "bincode_ok resource_view_bincode" "bincode_ok resource_delta_bincode"
  unfolding resource_view_bincode_def resource_delta_bincode_def by (rule counted_bincode_ok, simp)+

theorem resource_cluster_consistent_witness:
  "\<exists>s e v. reachable sys_init (sys_step (resource_spec resource_view_bincode resource_delta_bincode state_config_default)) s \<and>
    sys_engines s ''0'' = Some e \<and> eng_get_view e ''0'' = Some v \<and>
    (sv_generation v = generation_zero \<or> sys_log s ''0'' (sv_generation v) = Some (sv_value v)) \<and>
    honest_delta (resource_spec resource_view_bincode resource_delta_bincode state_config_default) (sample_cpu (Finite 50))"
proof -
  let ?sp = "resource_spec resource_view_bincode resource_delta_bincode state_config_default"
  let ?e = "start_engine ?sp ''0'' node_resource_state_default demo_clock"
  let ?s = "started ?sp ''0'' node_resource_state_default demo_clock sys_empty"
  have s: "reachable sys_init (sys_step ?sp) ?s"
    by (rule started_reachable [OF sys_empty_reachable]) (simp_all add: sys_empty_def demo_clock_def)
  have e: "sys_engines ?s ''0'' = Some ?e" by (simp add: started_def put_engine_def)
  have "shard_wf (eng_shard ?e)" "sh_node_id (eng_shard ?e) = ''0''"
    using node_okD(5,6) [OF sys_invD(1) [OF reachable_sys_inv [OF s resource_codec [OF resource_bincode_ok(1)]] e]]
    by simp_all
  then obtain v where v: "eng_get_view ?e ''0'' = Some v"
    using shard_wf_own [of "eng_shard ?e"] by (auto simp: eng_get_view_def)
  from resource_cluster_consistent [OF resource_bincode_ok s e v] s e v show ?thesis by blast
qed

subsection \<open>The least loaded node\<close>

lemma min_by_None: "min_by key xs = None \<longleftrightarrow> xs = []"
  by (cases xs) (auto split: option.splits)

lemma min_by_SomeD: "min_by key xs = Some x \<Longrightarrow> x \<in> set xs \<and> (\<forall>y \<in> set xs. key x \<le> key y)"
  by (induction xs arbitrary: x) (fastforce simp: min_by_None split: option.splits if_splits)+

text \<open>
  the least loaded node. On a map of views the helper returns nothing exactly when the map is
  empty; otherwise it returns a node of the map whose used memory is at most that of every node, so that
  a node that uses less than every other is the one it returns.
\<close>

theorem find_lowest_is_lowest:
  assumes "hm_wf views"
  shows "(find_lowest_memory_node views = None \<longleftrightarrow> views = []) \<and>
    (\<forall>n. find_lowest_memory_node views = Some n \<longrightarrow>
       (\<exists>v. hm_get views n = Some v \<and>
          (\<forall>k w. hm_get views k = Some w \<longrightarrow> nv_memory_used_bytes (sv_value v) \<le> nv_memory_used_bytes (sv_value w))))"
proof (intro conjI allI impI)
  show "find_lowest_memory_node views = None \<longleftrightarrow> views = []" by (simp add: find_lowest_memory_node_def min_by_None)
  fix n assume "find_lowest_memory_node views = Some n"
  then obtain v where v: "min_by (\<lambda>e. nv_memory_used_bytes (sv_value (snd e))) views = Some (n, v)"
    by (auto simp: find_lowest_memory_node_def)
  have "hm_get views k = Some w \<longleftrightarrow> (k, w) \<in> set views" for k w
    using assms by (simp add: hm_get_def hm_wf_def map_of_eq_Some_iff)
  then show "\<exists>v. hm_get views n = Some v \<and>
      (\<forall>k w. hm_get views k = Some w \<longrightarrow> nv_memory_used_bytes (sv_value v) \<le> nv_memory_used_bytes (sv_value w))"
    using min_by_SomeD [OF v] by (intro exI [of _ v]) fastforce
qed

definition demo_views :: "(node_id, node_resource_view state_view_object) hmap" where
  "demo_views = map (\<lambda>(n, mem). (n, \<lparr>sv_generation = Generation 1 0, sv_wire_version = 1,
     sv_value = node_resource_view_default\<lparr>nv_memory_used_bytes := mem\<rparr>, sv_created_time = 0, sv_modified_time = 0,
     sv_synced_at = 0, sv_pending_remote_generation = None, sv_source_node = n\<rparr>))
     [(''node-0'', 5000000000), (''node-1'', 2000000000), (''node-2'', 7000000000)]"

theorem find_lowest_is_lowest_witness:
  "find_lowest_memory_node demo_views = Some ''node-1'' \<and>
   (\<exists>v. hm_get demo_views ''node-1'' = Some v \<and> nv_memory_used_bytes (sv_value v) \<le> 5000000000)"
proof -
  have wf: "hm_wf demo_views" by (simp add: hm_wf_def demo_views_def)
  have "find_lowest_memory_node demo_views = Some ''node-1''"
    by (simp add: find_lowest_memory_node_def demo_views_def)
  moreover have "\<exists>w. hm_get demo_views ''node-0'' = Some w \<and> nv_memory_used_bytes (sv_value w) = 5000000000"
    by (simp add: hm_get_def demo_views_def)
  ultimately show ?thesis using find_lowest_is_lowest [OF wf] by metis
qed

end
