(* ===== verification/Runtime_Support.thy ===== *)
theory Runtime_Support
  imports Types
begin

text \<open>
  The clocks and the runtime doubles that no engine logic depends on: \<open>SystemClock\<close> and \<open>TestClock::new\<close> of
  \<open>traits/clock.rs\<close> over the host's time, and \<open>TestClusterEvents\<close> and \<open>TestTimerHandle\<close> of
  \<open>test_support/test_runtime.rs\<close>. An event of the actor framework is of any type \<open>'e\<close>; a callback is what it does to the
  state \<open>'w\<close> of its owner.
\<close>

subsection \<open>Clocks\<close>

text \<open>The host shows a monotonic instant and a wall-clock time in nanoseconds relative to the Unix epoch; a time before the epoch
  counts as the epoch.\<close>

record host_time =
  ht_instant :: instant
  ht_since_epoch :: int

definition host_unix_ms :: "host_time \<Rightarrow> i64" where
  "host_unix_ms h = (if ht_since_epoch h < 0 then 0 else of_int (ht_since_epoch h div 1000000))"

definition system_clock_read :: "host_time \<Rightarrow> clock_reading" where
  "system_clock_read h = \<lparr>clk_now = ht_instant h, clk_unix_ms = host_unix_ms h\<rparr>"

definition test_clock_new :: "host_time \<Rightarrow> test_clock" where
  "test_clock_new h = \<lparr>tc_start_instant = ht_instant h, tc_elapsed_ms = 0, tc_base_unix_ms = host_unix_ms h\<rparr>"

lemma test_clock_new_frozen: "test_clock_read (test_clock_new h) = system_clock_read h"
  by (simp add: test_clock_read_def test_clock_new_def system_clock_read_def test_clock_now_def test_clock_elapsed_def
      test_clock_unix_ms_def from_millis_def)

lemma system_clock_monotone:
  assumes "ht_since_epoch h \<le> ht_since_epoch h'" and "ht_since_epoch h' < 1000000 * 2 ^ 64"
  shows "clk_unix_ms (system_clock_read h) \<le> clk_unix_ms (system_clock_read h')"
proof (cases "ht_since_epoch h < 0")
  case False
  let ?a = "ht_since_epoch h div 1000000" and ?b = "ht_since_epoch h' div 1000000"
  have "0 \<le> ?a" "?a \<le> ?b" "?b < 2 ^ 64" using assms False by (auto intro: zdiv_mono1)
  then have "of_int ?a \<le> (of_int ?b :: i64)"
    by (simp add: word_le_def uint_word_of_int_eq take_bit_int_eq_self)
  then show ?thesis using False assms(1) by (simp add: system_clock_read_def host_unix_ms_def)
qed (simp add: system_clock_read_def host_unix_ms_def)

subsection \<open>Cluster events\<close>

type_synonym ('e, 'w) callback = "'e \<Rightarrow> 'w \<Rightarrow> 'w"

record ('e, 'w) test_cluster_events =
  tce_subscribers :: "(u64, ('e, 'w) callback) hmap"
  tce_next_id :: u64

definition tce_new :: "('e, 'w) test_cluster_events" where
  "tce_new = \<lparr>tce_subscribers = [], tce_next_id = 1\<rparr>"

definition tce_emit :: "'e \<Rightarrow> ('e, 'w) test_cluster_events \<Rightarrow> 'w \<Rightarrow> 'w" where
  "tce_emit event t w = fold (\<lambda>(sid, sub) w. sub event w) (tce_subscribers t) w"

definition tce_subscribe ::
    "('e, 'w) callback \<Rightarrow> ('e, 'w) test_cluster_events \<Rightarrow> ('e, 'w) test_cluster_events \<times> u64" where
  "tce_subscribe on_event t =
     (let sid = tce_next_id t; t = t\<lparr>tce_next_id := tce_next_id t + 1\<rparr>
      in (t\<lparr>tce_subscribers := hm_insert sid on_event (tce_subscribers t)\<rparr>, sid))"

definition tce_unsubscribe :: "u64 \<Rightarrow> ('e, 'w) test_cluster_events \<Rightarrow> ('e, 'w) test_cluster_events" where
  "tce_unsubscribe sid t = t\<lparr>tce_subscribers := hm_remove sid (tce_subscribers t)\<rparr>"

text \<open>A timer: \<open>cancel\<close> consumes the handle and aborts the task behind it.\<close>

record test_timer_handle =
  tth_handle :: "nat option"

definition timer_new :: "nat \<Rightarrow> test_timer_handle" where
  "timer_new task = \<lparr>tth_handle = Some task\<rparr>"

definition timer_cancel :: "test_timer_handle \<Rightarrow> nat set \<Rightarrow> nat set" where
  "timer_cancel h running = (case tth_handle h of Some task \<Rightarrow> running - {task} | None \<Rightarrow> running)"

text \<open>Every id in the map was given out before.\<close>

definition tce_wf :: "('e, 'w) test_cluster_events \<Rightarrow> bool" where
  "tce_wf t \<longleftrightarrow> hm_wf (tce_subscribers t) \<and> (\<forall>sid \<in> set (hm_keys (tce_subscribers t)). sid < tce_next_id t)"

inductive tce_step :: "('e, 'w) test_cluster_events \<Rightarrow> ('e, 'w) test_cluster_events \<Rightarrow> bool" where
  tce_step_subscribe: "tce_next_id t \<noteq> - 1 \<Longrightarrow> tce_step t (fst (tce_subscribe cb t))"
| tce_step_unsubscribe: "tce_step t (tce_unsubscribe sid t)"

lemma tce_fresh: "tce_wf t \<Longrightarrow> hm_get (tce_subscribers t) (tce_next_id t) = None"
  using hm.keys_law [of "tce_subscribers t"] by (force simp: tce_wf_def)

lemma word_less_inc_trans: "(a :: 'a :: len word) \<noteq> - 1 \<Longrightarrow> b < a \<Longrightarrow> b < a + 1"
  using word_less_inc [of a] by (rule order_less_trans [rotated])

lemma tce_wf_step: "tce_step t t' \<Longrightarrow> tce_wf t \<Longrightarrow> tce_wf t'"
  by (induction rule: tce_step.induct)
    (auto simp: tce_wf_def tce_subscribe_def tce_unsubscribe_def Let_def hm.invar_put hm.invar_drop hm.keys_put hm.keys_drop
      word_less_inc word_less_inc_trans)

lemma tce_wf_new: "tce_wf tce_new"
  by (simp add: tce_wf_def tce_new_def hm_wf_def hm_keys_def)

interpretation events: invariant_machine "\<lambda>t. t = tce_new" tce_step tce_wf
  by unfold_locales (simp_all add: tce_wf_new tce_wf_step)

lemma hm_insert_fresh: "hm_get m k = None \<Longrightarrow> hm_insert k v m = m @ [(k, v)]"
  by (induction m) (auto simp: hm_get_def hm_insert_def split: if_splits)

lemma hm_remove_fresh: "hm_get m k = None \<Longrightarrow> hm_remove k (m @ [(k, v)]) = m"
  by (induction m) (auto simp: hm_get_def hm_remove_def AList.delete_eq split: if_splits)

text \<open>
  subscriptions of the test double. After any history of subscriptions and cancellations (fewer than
  \<open>2 ^ 64 - 1\<close> subscriptions), subscribing replaces no subscriber: an event then runs all the earlier callbacks
  and the new one once, and cancelling with the returned id restores the earlier behaviour exactly.
\<close>

theorem subscription_lifecycle:
  assumes "reachable (\<lambda>t. t = tce_new) tce_step t" and "tce_subscribe cb t = (t', sid)"
  shows "tce_emit e t' w = cb e (tce_emit e t w) \<and> tce_emit e (tce_unsubscribe sid t') w = tce_emit e t w \<and>
    hm_get (tce_subscribers t) sid = None"
proof -
  have "tce_wf t" by (rule events.reachable_inv [OF assms(1)])
  from tce_fresh [OF this] show ?thesis
    using assms(2) by (auto simp: tce_subscribe_def tce_unsubscribe_def tce_emit_def Let_def hm_insert_fresh hm_remove_fresh)
qed

theorem subscription_lifecycle_witness:
  "tce_emit (3 :: nat) (fst (tce_subscribe (\<lambda>e w. e # w) (fst (tce_subscribe (\<lambda>e w. w) tce_new)))) [] = [3]"
proof -
  let ?t = "fst (tce_subscribe (\<lambda>e w. w) tce_new) :: (nat, nat list) test_cluster_events"
  have "reachable (\<lambda>t. t = tce_new) tce_step ?t"
    by (rule reachable_step [of _ _ tce_new], rule reachable_init) (simp_all add: tce_step_subscribe tce_new_def)
  from subscription_lifecycle [OF this prod.collapse [symmetric], of 3 "\<lambda>e w. e # w" "[]"]
  have "tce_emit 3 (fst (tce_subscribe (\<lambda>e w. e # w) ?t)) [] = 3 # tce_emit 3 ?t []" by blast
  then show ?thesis by (simp only:) (simp add: tce_emit_def tce_subscribe_def tce_new_def hm_insert_def Let_def)
qed

end
