(* ===== verification/Messages.thy ===== *)
theory Messages
  imports Types
begin

text \<open>
  \<open>dstate/src/messages/*.rs\<close>: the messages between the actors of an earlier architecture, kept in the crate and constructed by no
  other code. A closure is the function it computes on the state; the reply channel is tokio's and of any type \<open>'r\<close>. What a hand-written
  \<open>Debug\<close> prints is the sequence of calls it makes on the formatter, since the layout is the formatter's.
\<close>

subsection \<open>Debug builders\<close>

datatype debug_field = DebugNode node_id | DebugGeneration generation | DebugU32 u32

datatype debug_output =
    DebugStruct string "(string \<times> debug_field) list" (exhaustive: bool)
  | DebugTuple string "debug_field list"

datatype debug_panic = Unreachable

subsection \<open>Messages\<close>

datatype ('s, 'r) simple_shard_msg =
    SimpleMutate "'s \<Rightarrow> 's" 'r
  | SimpleInboundSnapshot node_id generation u32 bytes
  | SimpleNodeJoined node_id
  | SimpleNodeLeft node_id
  | SimpleMarkStale node_id generation

fun simple_shard_msg_fmt :: "('s, 'r) simple_shard_msg \<Rightarrow> debug_output" where
  "simple_shard_msg_fmt (SimpleMutate closure reply) = DebugStruct ''Mutate'' [] False"
| "simple_shard_msg_fmt (SimpleInboundSnapshot source gen wire_version data) =
     DebugStruct ''InboundSnapshot'' [(''source'', DebugNode source), (''generation'', DebugGeneration gen),
       (''wire_version'', DebugU32 wire_version)] False"
| "simple_shard_msg_fmt (SimpleNodeJoined n) = DebugTuple ''NodeJoined'' [DebugNode n]"
| "simple_shard_msg_fmt (SimpleNodeLeft n) = DebugTuple ''NodeLeft'' [DebugNode n]"
| "simple_shard_msg_fmt (SimpleMarkStale source gen) =
     DebugStruct ''MarkStale'' [(''source'', DebugNode source), (''generation'', DebugGeneration gen)] True"

text \<open>The view and view-delta types only occur in the phantom variant.\<close>

datatype ('s, 'dc, 'r) delta_shard_msg =
    DeltaMutateWithDelta "'s \<Rightarrow> 's \<times> 'dc" 'r
  | DeltaMutate "'s \<Rightarrow> 's" 'r
  | DeltaInboundSnapshot node_id generation u32 bytes
  | DeltaInboundDelta node_id generation u32 bytes
  | DeltaNodeJoined node_id
  | DeltaNodeLeft node_id
  | DeltaMarkStale node_id generation
  | DeltaPhantom

fun delta_shard_msg_fmt :: "('s, 'dc, 'r) delta_shard_msg \<Rightarrow> debug_panic + debug_output" where
  "delta_shard_msg_fmt (DeltaMutateWithDelta closure reply) = Inr (DebugStruct ''MutateWithDelta'' [] False)"
| "delta_shard_msg_fmt (DeltaMutate closure reply) = Inr (DebugStruct ''Mutate'' [] False)"
| "delta_shard_msg_fmt (DeltaInboundSnapshot source gen wire_version data) =
     Inr (DebugStruct ''InboundSnapshot'' [(''source'', DebugNode source), (''generation'', DebugGeneration gen),
       (''wire_version'', DebugU32 wire_version)] False)"
| "delta_shard_msg_fmt (DeltaInboundDelta source gen wire_version data) =
     Inr (DebugStruct ''InboundDelta'' [(''source'', DebugNode source), (''generation'', DebugGeneration gen),
       (''wire_version'', DebugU32 wire_version)] False)"
| "delta_shard_msg_fmt (DeltaNodeJoined n) = Inr (DebugTuple ''NodeJoined'' [DebugNode n])"
| "delta_shard_msg_fmt (DeltaNodeLeft n) = Inr (DebugTuple ''NodeLeft'' [DebugNode n])"
| "delta_shard_msg_fmt (DeltaMarkStale source gen) =
     Inr (DebugStruct ''MarkStale'' [(''source'', DebugNode source), (''generation'', DebugGeneration gen)] True)"
| "delta_shard_msg_fmt DeltaPhantom = Inl Unreachable"

datatype change_feed_msg = NotifyChangeMsg string generation | FlushMsg

datatype sync_engine_msg =
    OutboundSnapshot string generation u32 bytes
  | OutboundDelta string generation u32 bytes
  | PullSnapshot string node_id

subsection \<open>The two shards print alike\<close>

text \<open>A message of a simple shard as the message of a delta shard with the same fields.\<close>

fun as_delta_msg :: "('s, 'r) simple_shard_msg \<Rightarrow> ('s, 'dc, 'r) delta_shard_msg" where
  "as_delta_msg (SimpleMutate closure reply) = DeltaMutate closure reply"
| "as_delta_msg (SimpleInboundSnapshot source gen wire_version data) = DeltaInboundSnapshot source gen wire_version data"
| "as_delta_msg (SimpleNodeJoined n) = DeltaNodeJoined n"
| "as_delta_msg (SimpleNodeLeft n) = DeltaNodeLeft n"
| "as_delta_msg (SimpleMarkStale source gen) = DeltaMarkStale source gen"

lemma debug_agrees: "delta_shard_msg_fmt (as_delta_msg m) = Inr (simple_shard_msg_fmt m)"
  by (cases m) simp_all

text \<open>What the output keeps of a message: everything but the payload, the closure and the reply channel.\<close>

fun redacted :: "('s, 'dc, 'r) delta_shard_msg \<Rightarrow> (unit, unit, unit) delta_shard_msg" where
  "redacted (DeltaMutateWithDelta closure reply) = DeltaMutateWithDelta (\<lambda>_. ((), ())) ()"
| "redacted (DeltaMutate closure reply) = DeltaMutate (\<lambda>_. ()) ()"
| "redacted (DeltaInboundSnapshot source gen wire_version data) = DeltaInboundSnapshot source gen wire_version []"
| "redacted (DeltaInboundDelta source gen wire_version data) = DeltaInboundDelta source gen wire_version []"
| "redacted (DeltaNodeJoined n) = DeltaNodeJoined n"
| "redacted (DeltaNodeLeft n) = DeltaNodeLeft n"
| "redacted (DeltaMarkStale source gen) = DeltaMarkStale source gen"
| "redacted DeltaPhantom = DeltaPhantom"

text \<open>
  the debug output of a delta message panics only on the phantom variant, and otherwise shows exactly its redaction: two
  messages print the same if and only if they differ in payload, closure and reply channel at most.
\<close>

theorem debug_is_redaction:
  "(delta_shard_msg_fmt m = Inl Unreachable \<longleftrightarrow> m = DeltaPhantom) \<and>
   (delta_shard_msg_fmt m = delta_shard_msg_fmt m' \<longleftrightarrow> redacted m = redacted m')"
  by (cases m; cases m') auto

end
