(* ===== verification/Suite_Base.thy ===== *)
theory Suite_Base
  imports Test_States Float64 "HOL-Library.Code_Target_Nat"
begin

text \<open>
  What the translated unit tests share. A test of the repository is the conjunction of its assertions over the states its calls
  lead to, each shadowing the one before; an \<open>unwrap\<close> or an index is \<open>expect\<close>, and a panic that a test expects is the error it
  expects. Where the kernel evaluates with
  code equations, natural numbers (nanoseconds) are computed in binary.
\<close>

definition expect :: "'a option \<Rightarrow> ('a \<Rightarrow> bool) \<Rightarrow> bool" where
  "expect x check = (case x of Some a \<Rightarrow> check a | None \<Rightarrow> False)"

definition expect_ok :: "'e + 'a \<Rightarrow> ('a \<Rightarrow> bool) \<Rightarrow> bool" where
  "expect_ok x check = (case x of Inr a \<Rightarrow> check a | Inl e \<Rightarrow> False)"

abbreviation rd :: "test_clock \<Rightarrow> clock_reading" where
  "rd \<equiv> test_clock_read"

definition shard_test_clock :: test_clock where
  "shard_test_clock = test_clock_with_base 0 1000000"

text \<open>The snapshot literals of the tests, field by field.\<close>

definition snap_lit :: "node_id \<Rightarrow> generation \<Rightarrow> 'v \<Rightarrow> i64 \<Rightarrow> i64 \<Rightarrow> 'v inbound_snapshot" where
  "snap_lit source gen view created modified = \<lparr>is_source = source, is_generation = gen, is_wire_version = 1,
     is_view = view, is_created_time = created, is_modified_time = modified\<rparr>"

abbreviation ts :: "u64 \<Rightarrow> string \<Rightarrow> test_state" where
  "ts counter label \<equiv> \<lparr>ts_counter = counter, ts_label = label\<rparr>"

abbreviation tv :: "u64 \<Rightarrow> string \<Rightarrow> test_delta_view" where
  "tv counter label \<equiv> \<lparr>tv_counter = counter, tv_label = label\<rparr>"

abbreviation td_change :: "i64 \<Rightarrow> string option \<Rightarrow> f64 \<Rightarrow> f64 test_delta_change" where
  "td_change d l a \<equiv> \<lparr>tdc_counter_delta = d, tdc_new_label = l, tdc_accumulator_delta = a\<rparr>"

text \<open>The closures \<open>|s| s.counter = n\<close>, \<open>|s| s.counter += n\<close> and those that also set the label.\<close>

definition set_counter :: "u64 \<Rightarrow> test_state \<Rightarrow> test_state" where
  "set_counter n s = s\<lparr>ts_counter := n\<rparr>"

definition add_counter :: "u64 \<Rightarrow> test_state \<Rightarrow> test_state" where
  "add_counter n s = s\<lparr>ts_counter := ts_counter s + n\<rparr>"

definition set_both :: "u64 \<Rightarrow> string \<Rightarrow> test_state \<Rightarrow> test_state" where
  "set_both n l s = s\<lparr>ts_counter := n, ts_label := l\<rparr>"

text \<open>A mutation closure of the delta tests: \<open>f\<close> on the state, and the change it reports.\<close>

definition reporting :: "('s \<Rightarrow> 's) \<Rightarrow> 'dc \<Rightarrow> 's \<Rightarrow> 's \<times> 'dc" where
  "reporting f change s = (f s, change)"

text \<open>Byte string literals, and the string they decode to (ASCII only).\<close>

definition bytes_of :: "string \<Rightarrow> bytes" where
  "bytes_of s = map (\<lambda>c. of_nat (of_char c)) s"

definition from_utf8 :: "bytes \<Rightarrow> string" where
  "from_utf8 bs = map (\<lambda>b. char_of (unat b)) bs"

end
