(* ===== verification/Suite_Exec.thy ===== *)
theory Suite_Exec
  imports Suite_Base Cluster
begin

text \<open>
  An evaluator for the model: the definitions of the operations as rewrite rules, with congruence rules that reduce the argument
  of a \<open>let\<close>, a case or a bind to a value before its body is entered. It runs on terms with free codecs, where only
  their round trip is known, so that a test can be run for every bincode.
\<close>

lemmas exec = from_secs_def from_millis_def as_millis_def duration_since_def checked_duration_since_def show_u32_def
   show_u64_def hm_get_def hm_contains_key_def hm_insert_def hm_remove_def hm_keys_def bt_get_def bt_insert_def bt_remove_def
   bt_keys_def generation_new_def generation_zero_def is_new_incarnation_def so_age_def so_incarnation_def
   change_feed_config_default_def active_push_def feed_lazy_pull_def feed_with_periodic_sync_def periodic_only_def
   state_config_default_def query_error_from_def unknown_version_def test_clock_with_base_def test_clock_advance_def
   test_clock_elapsed_def test_clock_now_def test_clock_unix_ms_def test_clock_read_def vm_new_def vm_get_def
   vm_insert_cell_def vm_store_cell_def vm_update_def vm_insert_node_def vm_upsert_def vm_remove_node_def vm_contains_def
   vm_len_def vm_snapshot_def vm_node_ids_def view_is_stale_def vm_stale_peers_def vm_update_if_def shard_new_def
   state_mut_def get_view_def shard_snapshot_def view_count_def should_accept_def age_inc_def update_own_view_def
   apply_mutation_def apply_mutation_with_delta_def prepare_mutation_def commit_mutation_def prepare_mutation_with_delta_def
   commit_delta_mutation_def option_filter_def snapshot_update_def accept_inbound_snapshot_def accept_inbound_delta_def
   shard_stale_peers_def stale_update_def mark_stale_def shard_on_node_joined_def shard_on_node_left_def query_local_def
   new_state_object_def sync_logic_new_def broadcast_action_def should_periodic_sync_def sl_periodic_interval_def da_new_def
   da_accumulate_def da_flush_def da_len_def da_is_empty_def cf_new_def notify_change_def cf_flush_def cf_pending_count_def
   route_inbound_batch_def versioning_new_def on_deserialize_error_def on_inbound_def try_load_with_migration_def
   lifecycle_new_def ll_on_node_joined_def ll_on_node_left_def ll_should_accept_from_def is_departed_def departed_count_def
   metrics_default_def peer_diagnostics_default_def diagnostics_new_def modify_peer_def record_sync_success_def
   record_sync_failure_def record_gap_detected_def record_mutation_def record_delta_sent_def record_delta_received_def
   record_snapshot_sent_def record_snapshot_received_def record_delta_suppressed_def record_delta_immediate_def
   record_stale_delta_discarded_def diag_remove_peer_def engine_new_def with_diagnostics_def own_view_value_def
   make_snapshot_request_def own_full_snapshot_def own_delta_update_def notify_own_change_def mutate_def mutate_with_delta_def
   handle_full_snapshot_def delta_error_reason_def handle_delta_update_def handle_request_snapshot_def apply_feed_entry_def
   handle_inbound_change_feed_def flush_change_feed_def pending_change_feed_count_def on_node_joined_def on_node_left_def
   eng_should_accept_from_def query_def periodic_sync_def periodic_interval_def eng_state_def eng_get_view_def
   eng_view_count_def eng_snapshot_def metrics_def health_def eng_sync_strategy_def versioned_deserialize_def
   test_state_default_def test_state_name_def test_state_wire_version_def test_state_serialize_def test_state_deserialize_def
   default_migrate_state_def test_delta_default_def test_delta_project_view_def test_delta_project_delta_def
   test_delta_apply_delta_def test_delta_sync_urgency_def test_delta_wire_version_def test_delta_storage_version_def
   test_delta_deserialize_view_def test_delta_deserialize_delta_def test_delta_deserialize_state_def test_delta_applier_def
   transport_new_def apply_interceptors_def push_in_flight_def send_bytes_def transport_send_def transport_broadcast_def
   deliver_due_def advance_tick_def in_flight_count_def add_interceptor_def clear_interceptors_def drop_in_flight_for_def
   pass_through_def drop_all_def partition_symmetric_def partition_asymmetric_def partition_intercept_def
   delay_ticks_intercept_def duplicate_all_def cluster_new_def all_node_ids_def cluster_node_count_def cluster_engine_def
   cluster_reading_def tick_ms_def div_ceil_def set_node_def delay_ticks_def route_actions_def route_all_def
   announce_to_existing_def announce_existing_def feed_interval_of_def add_node_def all_node_left_def remove_node_def
   remove_node_hard_def deliver_to_node_def tick_deliver_def tick_scheduled_def tick_feed_def tick_advance_def tick_def
   is_settled_def settle_with_limit_def settle_def cluster_mutate_def test_state_engine_def with_test_state_def
   sync_status_def diag_health_status_def peer_is_stale_def peer_is_failing_def

lemma result_bind_weak: "x = y \<Longrightarrow> result_bind x f = result_bind y f"
  by simp

lemmas exec_cong = let_weak_cong result_bind_weak sum.case_cong_weak option.case_cong_weak prod.case_cong_weak

text \<open>Small numbers and short loops.\<close>

lemma show_digits: "show_nat 0 = ''0''" "show_nat (Suc 0) = ''1''" "show_nat 1 = ''1''" "show_nat 2 = ''2''"
  "show_nat 3 = ''3''" "show_nat 4 = ''4''" "show_nat 5 = ''5''"
  by code_simp+

lemma upts: "[0..<2] = [0, 1]" "[0..<3] = [0, 1, 2]" "[0..<1] = [0]"
  by code_simp+

lemma settle_unfold: "0 < n \<Longrightarrow> settle_loop cd n m t c =
    (if is_settled c then Inr (c, t) else result_bind (tick cd c) (settle_loop cd (n - 1) m (t + 1)))"
  by (cases n) simp_all

lemma tick_n_unfold: "0 < n \<Longrightarrow> tick_n cd n c = result_bind (tick cd c) (tick_n cd (n - 1))"
  by (cases n) simp_all

lemma words_apart: "\<not> (5 :: u64) \<le> 1" "\<not> (4 :: u64) \<le> 1" "\<not> (3 :: u64) \<le> 1"
  by code_simp+

lemmas run = exec Let_def words_apart upts show_digits settle_unfold tick_n_unfold generation_less_iff generation_le_iff shard_test_clock_def

end
