(* ===== verification/Suite_Shard.thy ===== *)
theory Suite_Shard
  imports Suite_Exec
begin

text \<open>
  The unit tests of \<open>core/shard_core.rs\<close>, run on the model. Left out are \<open>mut_03\<close> (a closure that panics), \<open>dmut_02\<close> and
  \<open>dmut_04\<close> (closures that count their calls in an atomic), since a closure is the function it computes here.
\<close>

subsection \<open>Fixtures\<close>

definition make_state_object :: "u64 \<Rightarrow> string \<Rightarrow> test_clock \<Rightarrow> test_state state_object" where
  "make_state_object counter label clock = \<lparr>so_generation = generation_new 1 0, so_storage_version = 1,
     so_value = \<lparr>ts_counter = counter, ts_label = label\<rparr>, so_created_time = test_clock_unix_ms clock,
     so_modified_time = test_clock_unix_ms clock\<rparr>"

definition make_shard :: "test_clock \<Rightarrow> (test_state, test_state) shard_core" where
  "make_shard clock =
     (let state = make_state_object 0 ''init'' clock;
          view = so_value state
      in shard_new ''1'' state view (rd clock))"

definition make_delta_shard :: "test_clock \<Rightarrow> (f64 test_delta_inner, test_delta_view) shard_core" where
  "make_delta_shard clock =
     (let state = \<lparr>so_generation = generation_new 1 0, so_storage_version = 1,
            so_value = test_delta_default (Finite 0), so_created_time = test_clock_unix_ms clock,
            so_modified_time = test_clock_unix_ms clock\<rparr>;
          view = test_delta_project_view (so_value state)
      in shard_new ''1'' state view (rd clock))"

definition add_fresh_peer ::
    "node_id \<Rightarrow> u64 \<Rightarrow> test_clock \<Rightarrow> (test_state, test_state) shard_core \<Rightarrow> (test_state, test_state) shard_core" where
  "add_fresh_peer node_id counter clock shard =
     (let shard = shard_on_node_joined (rd clock) node_id (ts 0 '''') shard
      in fst (accept_inbound_snapshot (rd clock) (snap_lit node_id (generation_new 1 1) (ts counter (''peer-'' @ node_id))
           (test_clock_unix_ms clock) (test_clock_unix_ms clock)) shard))"

subsection \<open>Ordering and staleness\<close>

definition test_05_should_accept_newer_incarnation :: bool where
  "test_05_should_accept_newer_incarnation \<longleftrightarrow> should_accept (generation_new 2 0) (generation_new 1 100)"

definition test_05_should_accept_same_inc_newer_age :: bool where
  "test_05_should_accept_same_inc_newer_age \<longleftrightarrow> should_accept (generation_new 1 5) (generation_new 1 4)"

definition test_05_should_reject_same_inc_same_age :: bool where
  "test_05_should_reject_same_inc_same_age \<longleftrightarrow> \<not> should_accept (generation_new 1 5) (generation_new 1 5)"

definition test_05_should_reject_same_inc_older_age :: bool where
  "test_05_should_reject_same_inc_older_age \<longleftrightarrow> \<not> should_accept (generation_new 1 3) (generation_new 1 5)"

definition test_05_should_reject_older_incarnation :: bool where
  "test_05_should_reject_older_incarnation \<longleftrightarrow> \<not> should_accept (generation_new 1 100) (generation_new 2 0)"

definition test_06_stale_peers_by_time :: bool where
  "test_06_stale_peers_by_time \<longleftrightarrow>
     (let clock = shard_test_clock;
          shard = make_shard clock;
          shard = shard_on_node_joined (rd clock) ''2'' (ts 0 '''') shard
      in shard_stale_peers shard (from_secs 10) (rd clock) = [''2''] \<and>
     (let shard = fst (accept_inbound_snapshot (rd clock) (snap_lit ''2'' (generation_new 1 1) (ts 1 ''synced'') 1000000 1000000) shard)
      in shard_stale_peers shard (from_secs 10) (rd clock) = [] \<and>
     (let clock = test_clock_advance (from_secs 15) clock
      in shard_stale_peers shard (from_secs 10) (rd clock) = [''2''])))"

definition test_06_stale_peers_by_pending_age :: bool where
  "test_06_stale_peers_by_pending_age \<longleftrightarrow>
     (let clock = shard_test_clock;
          shard = make_shard clock;
          shard = shard_on_node_joined (rd clock) ''2'' (ts 0 '''') shard;
          shard = mark_stale ''2'' 1 5 shard
      in shard_stale_peers shard (from_secs 3600) (rd clock) = [''2''])"

definition test_06_own_node_never_stale :: bool where
  "test_06_own_node_never_stale \<longleftrightarrow>
     (let clock = shard_test_clock;
          shard = make_shard clock;
          clock = test_clock_advance (from_secs 100) clock
      in shard_stale_peers shard (from_secs 1) (rd clock) = [])"

definition test_07_mutation_advances_age :: bool where
  "test_07_mutation_advances_age \<longleftrightarrow>
     (let clock = shard_test_clock;
          shard = make_shard clock
      in so_age (sh_state shard) = 0 \<and>
     (let (shard, outcome) = apply_mutation (rd clock) (add_counter 1) (\<lambda>s. s) shard
      in age (mo_generation outcome) = 1 \<and> so_age (sh_state shard) = 1 \<and> ts_counter (so_value (sh_state shard)) = 1))"

subsection \<open>The public view map\<close>

definition pvm_01_own_entry_after_construction :: bool where
  "pvm_01_own_entry_after_construction \<longleftrightarrow>
     (let snap = shard_snapshot (make_shard shard_test_clock)
      in hm_contains_key snap ''1'' \<and> length snap = 1)"

definition pvm_02_own_entry_matches_state :: bool where
  "pvm_02_own_entry_matches_state \<longleftrightarrow>
     (let snap = shard_snapshot (make_shard shard_test_clock)
      in expect (hm_get snap ''1'') (\<lambda>entry. age (sv_generation entry) = 0 \<and> incarnation (sv_generation entry) = 1 \<and>
           ts_counter (sv_value entry) = 0 \<and> ts_label (sv_value entry) = ''init''))"

definition pvm_03_no_peers_on_single_node :: bool where
  "pvm_03_no_peers_on_single_node \<longleftrightarrow>
     (let snap = shard_snapshot (make_shard shard_test_clock)
      in length snap = 1 \<and> hm_contains_key snap ''1'')"

subsection \<open>Shard operations\<close>

definition shard_01_mutation_increments_age :: bool where
  "shard_01_mutation_increments_age \<longleftrightarrow>
     (let clock = shard_test_clock;
          shard = fold (\<lambda>i shard. fst (apply_mutation (rd clock) (set_counter i) (\<lambda>s. s) shard)) [1, 2, 3, 4, 5] (make_shard clock)
      in so_age (sh_state shard) = 5 \<and> ts_counter (so_value (sh_state shard)) = 5)"

definition shard_02_mutation_updates_modified_time :: bool where
  "shard_02_mutation_updates_modified_time \<longleftrightarrow>
     (let clock = shard_test_clock;
          shard = make_shard clock;
          t0 = so_modified_time (sh_state shard);
          clock = test_clock_advance (from_secs 5) clock;
          shard = fst (apply_mutation (rd clock) (add_counter 1) (\<lambda>s. s) shard)
      in so_modified_time (sh_state shard) > t0)"

definition shard_03_mutation_produces_outbound_view :: bool where
  "shard_03_mutation_produces_outbound_view \<longleftrightarrow>
     (let clock = shard_test_clock;
          outcome = snd (apply_mutation (rd clock) (set_both 42 ''updated'') (\<lambda>s. s) (make_shard clock))
      in ts_counter (mo_view outcome) = 42 \<and> ts_label (mo_view outcome) = ''updated'' \<and>
         incarnation (mo_generation outcome) = 1)"

definition shard_04_sequential_mutations_sequential_ages :: bool where
  "shard_04_sequential_mutations_sequential_ages \<longleftrightarrow>
     (let clock = shard_test_clock;
          (shard, ages) = fold (\<lambda>i (shard, ages).
            (let (shard, outcome) = apply_mutation (rd clock) (set_counter (of_nat i)) (\<lambda>s. s) shard
             in (shard, ages @ [age (mo_generation outcome)]))) [0..<100] (make_shard clock, [])
      in ages = map of_nat [1..<101])"

definition shard_05_node_joined_adds_entry :: bool where
  "shard_05_node_joined_adds_entry \<longleftrightarrow>
     (let clock = shard_test_clock;
          shard = shard_on_node_joined (rd clock) ''2'' (ts 0 '''') (make_shard clock);
          snap = shard_snapshot shard
      in length snap = 2 \<and> hm_contains_key snap ''2'' \<and> expect (hm_get snap ''2'') (\<lambda>e. age (sv_generation e) = 0))"

definition shard_06_node_left_removes_entry :: bool where
  "shard_06_node_left_removes_entry \<longleftrightarrow>
     (let clock = shard_test_clock;
          shard = shard_on_node_joined (rd clock) ''2'' (ts 0 '''') (make_shard clock)
      in length (shard_snapshot shard) = 2 \<and>
     (let shard = shard_on_node_left ''2'' shard
      in length (shard_snapshot shard) = 1 \<and> \<not> hm_contains_key (shard_snapshot shard) ''2''))"

definition shard_07_mark_stale_sets_pending :: bool where
  "shard_07_mark_stale_sets_pending \<longleftrightarrow>
     (let clock = shard_test_clock;
          shard = shard_on_node_joined (rd clock) ''2'' (ts 0 '''') (make_shard clock);
          shard = mark_stale ''2'' 1 10 shard
      in expect (hm_get (shard_snapshot shard) ''2'')
           (\<lambda>entry. sv_pending_remote_generation entry = Some (generation_new 1 10)))"

definition shard_08_mark_stale_old_incarnation_noop :: bool where
  "shard_08_mark_stale_old_incarnation_noop \<longleftrightarrow>
     (let clock = shard_test_clock;
          shard = fst (accept_inbound_snapshot (rd clock)
            (snap_lit ''2'' (generation_new 5 10) (ts 10 ''peer'') 1000000 1000000) (make_shard clock));
          shard = mark_stale ''2'' 3 20 shard
      in expect (hm_get (shard_snapshot shard) ''2'') (\<lambda>entry. sv_pending_remote_generation entry = None))"

definition shard_10_snapshot_returns_view_map :: bool where
  "shard_10_snapshot_returns_view_map \<longleftrightarrow>
     (let clock = shard_test_clock;
          shard = shard_on_node_joined (rd clock) ''2'' (ts 0 '''') (make_shard clock);
          shard = shard_on_node_joined (rd clock) ''3'' (ts 0 '''') shard;
          snap = shard_snapshot shard
      in length snap = 3 \<and> hm_contains_key snap ''1'' \<and> hm_contains_key snap ''2'' \<and> hm_contains_key snap ''3'')"

definition mut_01_closure_receives_mutable_state :: bool where
  "mut_01_closure_receives_mutable_state \<longleftrightarrow>
     (let clock = shard_test_clock;
          shard = fst (apply_mutation (rd clock) (set_both 99 ''mutated'') (\<lambda>s. s) (make_shard clock))
      in ts_counter (so_value (sh_state shard)) = 99 \<and> ts_label (so_value (sh_state shard)) = ''mutated'')"

definition mut_02_mutation_updates_view_map :: bool where
  "mut_02_mutation_updates_view_map \<longleftrightarrow>
     (let clock = shard_test_clock;
          shard = fst (apply_mutation (rd clock) (set_counter 42) (\<lambda>s. s) (make_shard clock))
      in expect (hm_get (shard_snapshot shard) ''1'')
           (\<lambda>entry. ts_counter (sv_value entry) = 42 \<and> age (sv_generation entry) = 1))"

definition mut_04_mutation_broadcasts_snapshot_data :: bool where
  "mut_04_mutation_broadcasts_snapshot_data \<longleftrightarrow>
     (let clock = shard_test_clock;
          outcome = snd (apply_mutation (rd clock) (set_counter 77) (\<lambda>s. s) (make_shard clock))
      in ts_counter (mo_view outcome) = 77 \<and> age (mo_generation outcome) = 1 \<and> incarnation (mo_generation outcome) = 1)"

definition mut_05_inbound_snapshot_replaces_view :: bool where
  "mut_05_inbound_snapshot_replaces_view \<longleftrightarrow>
     (let clock = shard_test_clock;
          shard = shard_on_node_joined (rd clock) ''2'' (ts 0 '''') (make_shard clock);
          (shard, result) = accept_inbound_snapshot (rd clock)
            (snap_lit ''2'' (generation_new 1 5) (ts 50 ''from-peer'') 1000000 1005000) shard
      in result = Accepted \<and>
         expect (hm_get (shard_snapshot shard) ''2'')
           (\<lambda>entry. ts_counter (sv_value entry) = 50 \<and> age (sv_generation entry) = 5))"

definition mut_06_stale_snapshot_discarded :: bool where
  "mut_06_stale_snapshot_discarded \<longleftrightarrow>
     (let clock = shard_test_clock;
          shard = fst (accept_inbound_snapshot (rd clock)
            (snap_lit ''2'' (generation_new 1 10) (ts 10 ''new'') 1000000 1000000) (make_shard clock));
          (shard, result) = accept_inbound_snapshot (rd clock)
            (snap_lit ''2'' (generation_new 1 5) (ts 5 ''old'') 1000000 1000000) shard
      in result = Discarded \<and> expect (hm_get (shard_snapshot shard) ''2'') (\<lambda>e. ts_counter (sv_value e) = 10))"

text \<open>The test with a hundred mutations, by induction on their number.\<close>

lemma sequential_ages:
  "\<exists>shard. fold (\<lambda>i (shard, ages).
     (let (shard, outcome) = apply_mutation c (set_counter (of_nat i)) (\<lambda>s. s) shard
      in (shard, ages @ [age (mo_generation outcome)]))) [0..<n] (make_shard clock, []) =
     (shard, map of_nat [1..<Suc n]) \<and> so_generation (sh_state shard) = Generation 1 (of_nat n)"
proof (induction n)
  case 0
  then show ?case by (simp add: make_shard_def make_state_object_def shard_new_def generation_new_def Let_def)
next
  case (Suc n)
  then obtain shard where "fold (\<lambda>i (shard, ages).
     (let (shard, outcome) = apply_mutation c (set_counter (of_nat i)) (\<lambda>s. s) shard
      in (shard, ages @ [age (mo_generation outcome)]))) [0..<n] (make_shard clock, []) =
     (shard, map of_nat [1..<Suc n])" "so_generation (sh_state shard) = Generation 1 (of_nat n)" by blast
  then show ?case
    by (simp add: apply_mutation_def age_inc_def frame_simps Let_def add.commute)
qed

lemma shard_suite_hundred: "shard_04_sequential_mutations_sequential_ages"
  unfolding shard_04_sequential_mutations_sequential_ages_def Let_def
  using sequential_ages [of "rd shard_test_clock" 100 shard_test_clock, unfolded Let_def] by auto

subsection \<open>Delta mutations\<close>

definition dmut_01_delta_mutation_captures_change :: bool where
  "dmut_01_delta_mutation_captures_change \<longleftrightarrow>
     (let clock = shard_test_clock;
          outcome = snd (apply_mutation_with_delta (rd clock)
            (reporting (\<lambda>s. s\<lparr>td_counter := td_counter s + 5, td_label := ''delta''\<rparr>) (td_change 5 (Some ''delta'') (Finite 1)))
            test_delta_project_view test_delta_project_delta (make_delta_shard clock))
      in age (dmo_generation outcome) = 1 \<and> tv_counter (dmo_view outcome) = 5 \<and> tv_label (dmo_view outcome) = ''delta'' \<and>
         tvd_counter_delta (dmo_view_delta outcome) = 5 \<and> tvd_new_label (dmo_view_delta outcome) = Some ''delta'')"

definition dmut_03_delta_mutation_updates_view_map :: bool where
  "dmut_03_delta_mutation_updates_view_map \<longleftrightarrow>
     (let clock = shard_test_clock;
          shard = fst (apply_mutation_with_delta (rd clock)
            (reporting (\<lambda>s. s\<lparr>td_counter := 42, td_label := ''projected'', td_accumulator := f64_round (999 / 10)\<rparr>)
              (td_change 42 (Some ''projected'') (f64_round (999 / 10))))
            test_delta_project_view test_delta_project_delta (make_delta_shard clock))
      in expect (hm_get (shard_snapshot shard) ''1'')
           (\<lambda>entry. tv_counter (sv_value entry) = 42 \<and> tv_label (sv_value entry) = ''projected''))"

definition dmut_05_delta_mutation_produces_view_delta :: bool where
  "dmut_05_delta_mutation_produces_view_delta \<longleftrightarrow>
     (let clock = shard_test_clock;
          outcome = snd (apply_mutation_with_delta (rd clock)
            (reporting (\<lambda>s. s\<lparr>td_counter := td_counter s + 10\<rparr>) (td_change 10 None (Finite 5)))
            test_delta_project_view test_delta_project_delta (make_delta_shard clock))
      in tvd_counter_delta (dmo_view_delta outcome) = 10 \<and> tvd_new_label (dmo_view_delta outcome) = None)"

definition dmut_06_simple_mutate_on_delta_shard :: bool where
  "dmut_06_simple_mutate_on_delta_shard \<longleftrightarrow>
     (let clock = shard_test_clock;
          outcome = snd (apply_mutation (rd clock) (\<lambda>s. s\<lparr>td_counter := 7\<rparr>) test_delta_project_view (make_delta_shard clock))
      in age (mo_generation outcome) = 1 \<and> tv_counter (mo_view outcome) = 7)"

subsection \<open>Inbound deltas\<close>

text \<open>A delta shard that holds a view of node 2; the closures marked \<open>unreachable!()\<close> are any function.\<close>

definition delta_shard_with :: "test_clock \<Rightarrow> generation \<Rightarrow> test_delta_view \<Rightarrow> (f64 test_delta_inner, test_delta_view) shard_core" where
  "delta_shard_with clock gen view =
     fst (accept_inbound_snapshot (rd clock) (snap_lit ''2'' gen view 1000000 1000000) (make_delta_shard clock))"

definition inbound_delta_applied_correctly :: bool where
  "inbound_delta_applied_correctly \<longleftrightarrow>
     (let clock = shard_test_clock;
          shard = delta_shard_with clock (generation_new 1 5) (tv 10 ''peer'');
          (shard, result) = accept_inbound_delta (rd clock) ''2'' (generation_new 1 6) 1
            (\<lambda>view. test_delta_apply_delta view \<lparr>tvd_counter_delta = 3, tvd_new_label = None\<rparr>) shard
      in result = Applied \<and> expect (hm_get (shard_snapshot shard) ''2'')
           (\<lambda>e. tv_counter (sv_value e) = 13 \<and> age (sv_generation e) = 6))"

definition inbound_delta_gap_detected :: bool where
  "inbound_delta_gap_detected \<longleftrightarrow>
     (let clock = shard_test_clock;
          shard = delta_shard_with clock (generation_new 1 5) (tv 10 ''peer'');
          result = snd (accept_inbound_delta (rd clock) ''2'' (generation_new 1 8) 1 (\<lambda>v. v) shard)
      in result = GapDetected (generation_new 1 5) (generation_new 1 8))"

definition inbound_delta_stale_discarded :: bool where
  "inbound_delta_stale_discarded \<longleftrightarrow>
     (let clock = shard_test_clock;
          shard = delta_shard_with clock (generation_new 2 10) (tv 10 ''peer'');
          result = snd (accept_inbound_delta (rd clock) ''2'' (generation_new 1 10) 1 (\<lambda>v. v) shard)
      in result = DeltaDiscarded)"

definition inbound_delta_unknown_peer :: bool where
  "inbound_delta_unknown_peer \<longleftrightarrow>
     (let clock = shard_test_clock;
          result = snd (accept_inbound_delta (rd clock) ''99'' (generation_new 1 1) 1 (\<lambda>v. v) (make_delta_shard clock))
      in result = UnknownPeer)"

subsection \<open>Announcements, joins and departures\<close>

definition mark_stale_new_incarnation_sets_both :: bool where
  "mark_stale_new_incarnation_sets_both \<longleftrightarrow>
     (let clock = shard_test_clock;
          shard = fst (accept_inbound_snapshot (rd clock)
            (snap_lit ''2'' (generation_new 1 5) (ts 5 ''peer'') 1000000 1000000) (make_shard clock));
          shard = mark_stale ''2'' 2 3 shard
      in expect (hm_get (shard_snapshot shard) ''2'')
           (\<lambda>entry. sv_pending_remote_generation entry = Some (generation_new 2 3)))"

definition node_joined_idempotent :: bool where
  "node_joined_idempotent \<longleftrightarrow>
     (let clock = shard_test_clock;
          shard = shard_on_node_joined (rd clock) ''2'' (ts 0 '''') (make_shard clock);
          shard = shard_on_node_joined (rd clock) ''2'' (ts 0 '''') shard
      in length (shard_snapshot shard) = 2)"

definition node_left_unknown_noop :: bool where
  "node_left_unknown_noop \<longleftrightarrow> length (shard_snapshot (shard_on_node_left ''99'' (make_shard shard_test_clock))) = 1"

definition inbound_snapshot_creates_entry_for_unknown_peer :: bool where
  "inbound_snapshot_creates_entry_for_unknown_peer \<longleftrightarrow>
     (let clock = shard_test_clock;
          (shard, result) = accept_inbound_snapshot (rd clock)
            (snap_lit ''5'' (generation_new 1 1) (ts 1 ''new'') 1000000 1000000) (make_shard clock)
      in result = Accepted \<and> length (shard_snapshot shard) = 2 \<and>
         expect (hm_get (shard_snapshot shard) ''5'') (\<lambda>e. ts_counter (sv_value e) = 1))"

definition accept_snapshot_clears_pending_remote :: bool where
  "accept_snapshot_clears_pending_remote \<longleftrightarrow>
     (let clock = shard_test_clock;
          shard = shard_on_node_joined (rd clock) ''2'' (ts 0 '''') (make_shard clock);
          shard = mark_stale ''2'' 1 10 shard
      in expect (hm_get (shard_snapshot shard) ''2'') (\<lambda>e. sv_pending_remote_generation e \<noteq> None) \<and>
     (let shard = fst (accept_inbound_snapshot (rd clock)
            (snap_lit ''2'' (generation_new 1 10) (ts 10 ''fresh'') 1000000 1000000) shard)
      in expect (hm_get (shard_snapshot shard) ''2'') (\<lambda>e. sv_pending_remote_generation e = None)))"

definition accept_snapshot_partial_catchup_preserves_pending :: bool where
  "accept_snapshot_partial_catchup_preserves_pending \<longleftrightarrow>
     (let clock = shard_test_clock;
          shard = shard_on_node_joined (rd clock) ''2'' (ts 0 '''') (make_shard clock);
          shard = mark_stale ''2'' 1 10 shard;
          shard = fst (accept_inbound_snapshot (rd clock)
            (snap_lit ''2'' (generation_new 1 6) (ts 6 ''partial'') 1000000 1000000) shard)
      in expect (hm_get (shard_snapshot shard) ''2'')
           (\<lambda>e. sv_pending_remote_generation e = Some (generation_new 1 10) \<and> ts_counter (sv_value e) = 6))"

definition accept_delta_partial_catchup_preserves_pending :: bool where
  "accept_delta_partial_catchup_preserves_pending \<longleftrightarrow>
     (let clock = shard_test_clock;
          shard = shard_on_node_joined (rd clock) ''2'' (tv 0 '''') (make_delta_shard clock);
          shard = fst (accept_inbound_snapshot (rd clock)
            (snap_lit ''2'' (generation_new 1 5) (tv 5 ''base'') 1000000 1000000) shard);
          shard = mark_stale ''2'' 1 10 shard;
          (shard, result) = accept_inbound_delta (rd clock) ''2'' (generation_new 1 6) 1
            (\<lambda>v. tv (tv_counter v + 1) (tv_label v)) shard
      in result = Applied \<and>
         expect (hm_get (shard_snapshot shard) ''2'') (\<lambda>e. sv_pending_remote_generation e = Some (generation_new 1 10)))"

definition node_joined_placeholder_is_stale :: bool where
  "node_joined_placeholder_is_stale \<longleftrightarrow>
     (let clock = shard_test_clock;
          shard = shard_on_node_joined (rd clock) ''2'' (ts 0 '''') (make_shard clock)
      in expect (hm_get (shard_snapshot shard) ''2'')
           (\<lambda>entry. sv_pending_remote_generation entry \<noteq> None \<and> sv_generation entry = generation_zero))"

definition test_new_state_object :: bool where
  "test_new_state_object \<longleftrightarrow>
     (let clock = test_clock_with_base 0 5000000;
          state = new_state_object (ts 0 ''fresh'') 42 (rd clock)
      in so_age state = 0 \<and> so_incarnation state = 42 \<and> so_created_time state = 5000000 \<and>
         so_modified_time state = 5000000 \<and> ts_counter (so_value state) = 0)"

subsection \<open>Wire data\<close>

definition wire_full_snapshot_updates_view_map :: bool where
  "wire_full_snapshot_updates_view_map \<longleftrightarrow>
     (let clock = shard_test_clock;
          shard = shard_on_node_joined (rd clock) ''2'' (ts 0 '''') (make_shard clock);
          gen = generation_new 1 7;
          (shard, result) = accept_inbound_snapshot (rd clock) \<lparr>is_source = ''2'', is_generation = gen,
            is_wire_version = test_state_wire_version, is_view = ts 42 ''wire-snap'', is_created_time = 1000000,
            is_modified_time = 1007000\<rparr> shard
      in result = Accepted \<and> expect (hm_get (shard_snapshot shard) ''2'')
           (\<lambda>entry. sv_generation entry = gen \<and> ts_counter (sv_value entry) = 42 \<and> ts_label (sv_value entry) = ''wire-snap''))"

definition wire_delta_advances_peer_view :: bool where
  "wire_delta_advances_peer_view \<longleftrightarrow>
     (let clock = shard_test_clock;
          shard = shard_on_node_joined (rd clock) ''2'' (tv 0 '''') (make_delta_shard clock);
          shard = fst (accept_inbound_snapshot (rd clock)
            (snap_lit ''2'' (generation_new 1 5) (tv 100 ''baseline'') 1000000 1000000) shard);
          (shard, result) = accept_inbound_delta (rd clock) ''2'' (generation_new 1 6) 1
            (\<lambda>v. tv (tv_counter v + 5) (tv_label v)) shard
      in result = Applied \<and> expect (hm_get (shard_snapshot shard) ''2'')
           (\<lambda>e. sv_generation e = generation_new 1 6 \<and> tv_counter (sv_value e) = 105))"

definition wire_change_feed_marks_peer_stale :: bool where
  "wire_change_feed_marks_peer_stale \<longleftrightarrow>
     (let clock = shard_test_clock;
          shard = fst (accept_inbound_snapshot (rd clock)
            (snap_lit ''2'' (generation_new 1 5) (ts 5 ''peer'') 1000000 1000000) (make_shard clock));
          shard = mark_stale ''2'' 1 10 shard
      in expect (hm_get (shard_snapshot shard) ''2'')
           (\<lambda>entry. sv_pending_remote_generation entry = Some (generation_new 1 10) \<and> ts_counter (sv_value entry) = 5))"

definition wire_request_snapshot_response :: bool where
  "wire_request_snapshot_response \<longleftrightarrow>
     (let clock = shard_test_clock;
          shard = fst (apply_mutation (rd clock) (set_both 10 ''first'') (\<lambda>s. s) (make_shard clock));
          shard = fst (apply_mutation (rd clock) (set_both 20 ''second'') (\<lambda>s. s) shard);
          shard = fst (apply_mutation (rd clock) (set_both 30 ''third'') (\<lambda>s. s) shard);
          state = sh_state shard
      in ts_counter (so_value state) = 30 \<and> ts_label (so_value state) = ''third'' \<and> age (so_generation state) = 3 \<and>
         incarnation (so_generation state) = 1 \<and>
         expect (hm_get (shard_snapshot shard) ''1'') (\<lambda>e. ts_counter (sv_value e) = 30 \<and> age (sv_generation e) = 3))"

definition wire_unknown_peer_snapshot_accepted :: bool where
  "wire_unknown_peer_snapshot_accepted \<longleftrightarrow>
     (let clock = shard_test_clock;
          (shard, result) = accept_inbound_snapshot (rd clock)
            (snap_lit ''99'' (generation_new 3 15) (ts 999 ''unknown-peer'') 2000000 2015000) (make_shard clock);
          snap = shard_snapshot shard
      in result = Accepted \<and> length snap = 2 \<and> expect (hm_get snap ''99'')
           (\<lambda>entry. ts_counter (sv_value entry) = 999 \<and> ts_label (sv_value entry) = ''unknown-peer'' \<and>
             sv_generation entry = generation_new 3 15))"

text \<open>The accumulator of this test is never looked at, so its rounding need not be computed.\<close>

lemma shard_suite_projected: "dmut_03_delta_mutation_updates_view_map"
  by (simp add: dmut_03_delta_mutation_updates_view_map_def apply_mutation_with_delta_def reporting_def make_delta_shard_def
      shard_new_def vm_new_def update_own_view_def vm_update_def vm_store_cell_def vm_upsert_def shard_snapshot_def vm_snapshot_def
      test_delta_project_view_def expect_def hm_get_def hm_insert_def Let_def)

subsection \<open>Queries\<close>

definition query_01_projection_receives_full_view_map :: bool where
  "query_01_projection_receives_full_view_map \<longleftrightarrow>
     (let clock = shard_test_clock;
          shard = add_fresh_peer ''2'' 10 clock (make_shard clock);
          shard = add_fresh_peer ''3'' 20 clock shard;
          shard = add_fresh_peer ''4'' 30 clock shard
      in query_local shard (from_secs 5) (rd clock) length = Fresh 4)"

definition query_02_stale_entries_detected_by_time :: bool where
  "query_02_stale_entries_detected_by_time \<longleftrightarrow>
     (let clock = shard_test_clock;
          shard = add_fresh_peer ''2'' 10 clock (make_shard clock);
          clock = test_clock_advance (from_secs 10) clock
      in query_local shard (from_secs 5) (rd clock) length = StalePeersDetected [''2''] 2)"

definition query_03_fresh_entries_not_flagged :: bool where
  "query_03_fresh_entries_not_flagged \<longleftrightarrow>
     (let clock = shard_test_clock;
          shard = add_fresh_peer ''2'' 10 clock (make_shard clock);
          shard = add_fresh_peer ''3'' 20 clock shard;
          clock = test_clock_advance (from_secs 2) clock
      in query_local shard (from_secs 5) (rd clock) length = Fresh 3)"

definition query_04_callback_result_returned :: bool where
  "query_04_callback_result_returned \<longleftrightarrow>
     (let clock = shard_test_clock;
          shard = add_fresh_peer ''2'' 42 clock (make_shard clock)
      in query_local shard (from_secs 5) (rd clock) (\<lambda>snap. sum_list (map (\<lambda>(k, v). ts_counter (sv_value v)) snap)) = Fresh 42)"

text \<open>The projection \<open>snap[&id].value.counter\<close>, with the panic of a missing key as \<open>None\<close>.\<close>

definition counter_at :: "node_id \<Rightarrow> (node_id, test_state state_view_object) hmap \<Rightarrow> u64 option" where
  "counter_at n snap = map_option (\<lambda>v. ts_counter (sv_value v)) (hm_get snap n)"

definition query_05_unreachable_peer_returns_stale :: bool where
  "query_05_unreachable_peer_returns_stale \<longleftrightarrow>
     (let clock = shard_test_clock;
          shard = add_fresh_peer ''2'' 10 clock (make_shard clock);
          shard = add_fresh_peer ''3'' 20 clock shard;
          clock = test_clock_advance (from_secs 6) clock;
          shard = fst (accept_inbound_snapshot (rd clock) (snap_lit ''3'' (generation_new 1 2) (ts 25 ''refreshed'')
            (test_clock_unix_ms clock) (test_clock_unix_ms clock)) shard)
      in query_local shard (from_secs 5) (rd clock) (counter_at ''3'') = StalePeersDetected [''2''] (Some 25))"

definition query_06_pending_remote_generation_triggers_stale :: bool where
  "query_06_pending_remote_generation_triggers_stale \<longleftrightarrow>
     (let clock = shard_test_clock;
          shard = add_fresh_peer ''2'' 10 clock (make_shard clock);
          shard = mark_stale ''2'' 1 5 shard
      in query_local shard (from_secs 60) (rd clock) (counter_at ''2'') = StalePeersDetected [''2''] (Some 10))"

definition query_07_multiple_stale_peers :: bool where
  "query_07_multiple_stale_peers \<longleftrightarrow>
     (let clock = shard_test_clock;
          shard = add_fresh_peer ''2'' 10 clock (make_shard clock);
          shard = add_fresh_peer ''3'' 20 clock shard;
          shard = add_fresh_peer ''4'' 30 clock shard;
          clock = test_clock_advance (from_secs 10) clock
      in case query_local shard (from_secs 5) (rd clock) length of
           StalePeersDetected stale_peers result \<Rightarrow> sort stale_peers = [''2'', ''3'', ''4''] \<and> result = 4
         | Fresh _ \<Rightarrow> False)"

definition query_08_snapshot_returns_stale_data_without_freshness :: bool where
  "query_08_snapshot_returns_stale_data_without_freshness \<longleftrightarrow>
     (let clock = shard_test_clock;
          shard = add_fresh_peer ''2'' 42 clock (make_shard clock);
          clock = test_clock_advance (from_secs 3600) clock;
          snap = shard_snapshot shard
      in length snap = 2 \<and> counter_at ''2'' snap = Some 42)"

definition query_local_node_never_stale :: bool where
  "query_local_node_never_stale \<longleftrightarrow>
     (let clock = shard_test_clock;
          shard = make_shard clock;
          clock = test_clock_advance (from_secs 100) clock
      in query_local shard (from_secs 5) (rd clock) length = Fresh 1)"

subsection \<open>Urgency\<close>

definition sync_14_immediate_bypasses_timer :: bool where
  "sync_14_immediate_bypasses_timer \<longleftrightarrow>
     resolve_action (sync_logic_new ''counters'' active_push True) Immediate = BroadcastDelta"

definition sync_15_delayed_overrides_interval :: bool where
  "sync_15_delayed_overrides_interval \<longleftrightarrow>
     resolve_action (sync_logic_new ''counters'' active_push True) (Delayed (from_secs 1)) = ScheduleDelayedAction (from_secs 1)"

definition sync_16_suppress_skips_broadcast :: bool where
  "sync_16_suppress_skips_broadcast \<longleftrightarrow>
     resolve_action (sync_logic_new ''counters'' active_push True) SuppressUrgency = SuppressAction"

definition sync_17_suppressed_deltas_accumulate :: bool where
  "sync_17_suppressed_deltas_accumulate \<longleftrightarrow>
     (let logic = sync_logic_new ''counters'' active_push True;
          acc = fold (\<lambda>i. da_accumulate (''delta-'' @ show_nat i)) [0..<3] da_new
      in resolve_action logic SuppressUrgency = SuppressAction \<and> resolve_action logic Immediate = BroadcastDelta \<and>
     (let (acc, flushed) = da_flush acc
      in expect flushed (\<lambda>ds. length ds = 3 \<and> ds ! 0 = ''delta-0'' \<and> ds ! 2 = ''delta-2'') \<and> da_is_empty acc))"

definition sync_18_default_uses_configured_strategy :: bool where
  "sync_18_default_uses_configured_strategy \<longleftrightarrow>
     resolve_action (sync_logic_new ''counters'' active_push True) DefaultUrgency = BroadcastDelta \<and>
     resolve_action (sync_logic_new ''sessions'' feed_lazy_pull True) DefaultUrgency = NotifyChangeFeed"

subsection \<open>Retries\<close>

definition err_05_stale_retry_succeeds_after_refresh :: bool where
  "err_05_stale_retry_succeeds_after_refresh \<longleftrightarrow>
     (let clock = shard_test_clock;
          shard = add_fresh_peer ''2'' 10 clock (make_shard clock);
          clock = test_clock_advance (from_secs 10) clock
      in (case query_local shard (from_secs 5) (rd clock) (counter_at ''2'') of
            StalePeersDetected _ _ \<Rightarrow> True | Fresh _ \<Rightarrow> False) \<and>
     (let shard = fst (accept_inbound_snapshot (rd clock) (snap_lit ''2'' (generation_new 1 5) (ts 99 ''refreshed'')
            (test_clock_unix_ms clock) (test_clock_unix_ms clock)) shard)
      in query_local shard (from_secs 5) (rd clock) (counter_at ''2'') = Fresh (Some 99)))"

definition err_06_stale_peers_consistent_for_retry :: bool where
  "err_06_stale_peers_consistent_for_retry \<longleftrightarrow>
     (let clock = shard_test_clock;
          shard = add_fresh_peer ''2'' 10 clock (make_shard clock);
          clock = test_clock_advance (from_secs 10) clock;
          stale1 = shard_stale_peers shard (from_secs 5) (rd clock);
          stale2 = shard_stale_peers shard (from_secs 5) (rd clock)
      in stale1 = stale2 \<and> stale1 = [''2''] \<and>
     (let shard = fst (accept_inbound_snapshot (rd clock) (snap_lit ''2'' (generation_new 1 5) (ts 99 ''refreshed'')
            (test_clock_unix_ms clock) (test_clock_unix_ms clock)) shard)
      in shard_stale_peers shard (from_secs 5) (rd clock) = []))"

subsection \<open>Persist before publish\<close>

text \<open>Prepare and commit; a commit that panics fails the test.\<close>

definition prepare_commit ::
    "clock_reading \<Rightarrow> (test_state \<Rightarrow> test_state) \<Rightarrow> (test_state, test_state) shard_core \<Rightarrow>
     commit_panic + (test_state, test_state) shard_core" where
  "prepare_commit c f shard = map_sum id fst (commit_mutation c (prepare_mutation c f (\<lambda>s. s) shard) shard)"

definition persist_01_prepare_returns_state_to_persist :: bool where
  "persist_01_prepare_returns_state_to_persist \<longleftrightarrow>
     (let clock = shard_test_clock;
          shard = make_shard clock;
          p1 = prepare_mutation (rd clock) (set_counter 1) (\<lambda>s. s) shard;
          p1b = prepare_mutation (rd clock) (set_counter 10) (\<lambda>s. s) shard
      in age (so_generation (pm_new_state p1)) = 1 \<and> ts_counter (so_value (pm_new_state p1)) = 1 \<and>
         age (so_generation (pm_new_state p1b)) = 1 \<and> ts_counter (so_value (pm_new_state p1b)) = 10)"

definition persist_03_state_survives_restart :: bool where
  "persist_03_state_survives_restart \<longleftrightarrow>
     (let clock = shard_test_clock
      in expect_ok (fold_result (\<lambda>i. prepare_commit (rd clock) (set_counter i)) [1, 2, 3, 4, 5] (make_shard clock)) (\<lambda>shard.
     (let saved = sh_state shard;
          shard2 = shard_new ''1'' saved (so_value saved) (rd clock)
      in age (so_generation saved) = 5 \<and> ts_counter (so_value saved) = 5 \<and>
         age (so_generation (sh_state shard2)) = 5 \<and> ts_counter (so_value (sh_state shard2)) = 5)))"

definition persist_04_no_persistence_direct_commit :: bool where
  "persist_04_no_persistence_direct_commit \<longleftrightarrow>
     (let clock = shard_test_clock;
          shard = make_shard clock;
          prepared = prepare_mutation (rd clock) (set_counter 42) (\<lambda>s. s) shard
      in expect_ok (commit_mutation (rd clock) prepared shard) (\<lambda>(shard, outcome).
           age (mo_generation outcome) = 1 \<and> ts_counter (so_value (sh_state shard)) = 42))"

definition persist_05_err_03_save_failure_no_commit :: bool where
  "persist_05_err_03_save_failure_no_commit \<longleftrightarrow>
     (let clock = shard_test_clock;
          shard = make_shard clock;
          prepared = prepare_mutation (rd clock) (set_counter 99) (\<lambda>s. s) shard
      in age (so_generation (sh_state shard)) = 0 \<and> ts_counter (so_value (sh_state shard)) = 0)"

definition persist_07_save_failure_prevents_age_advance :: bool where
  "persist_07_save_failure_prevents_age_advance \<longleftrightarrow>
     (let clock = shard_test_clock
      in expect_ok (fold_result (\<lambda>_ :: nat. prepare_commit (rd clock) (add_counter 1)) [0, 1, 2] (make_shard clock)) (\<lambda>shard.
           age (so_generation (sh_state shard)) = 3 \<and>
     (let prepared = prepare_mutation (rd clock) (add_counter 1) (\<lambda>s. s) shard
      in age (so_generation (pm_new_state prepared)) = 4 \<and> age (so_generation (sh_state shard)) = 3 \<and>
         ts_counter (so_value (sh_state shard)) = 3)))"

definition persist_08_save_failure_viewmap_unchanged :: bool where
  "persist_08_save_failure_viewmap_unchanged \<longleftrightarrow>
     (let clock = shard_test_clock;
          shard = fst (apply_mutation (rd clock) (set_counter 5) (\<lambda>s. s) (make_shard clock))
      in expect (get_view shard ''1'') (\<lambda>view_before. ts_counter (sv_value view_before) = 5) \<and>
     (let prepared = prepare_mutation (rd clock) (set_counter 99) (\<lambda>s. s) shard
      in expect (get_view shard ''1'') (\<lambda>view_after. ts_counter (sv_value view_after) = 5 \<and> age (sv_generation view_after) = 1)))"

definition persist_09_save_failure_no_broadcast :: bool where
  "persist_09_save_failure_no_broadcast \<longleftrightarrow>
     (let clock = shard_test_clock;
          shard = make_shard clock;
          prepared = prepare_mutation (rd clock) (set_counter 42) (\<lambda>s. s) shard
      in ts_counter (pm_view prepared) = 42 \<and> age (so_generation (sh_state shard)) = 0)"

definition persist_10_save_then_publish_ordering :: bool where
  "persist_10_save_then_publish_ordering \<longleftrightarrow>
     (let clock = shard_test_clock;
          shard = make_shard clock;
          prepared = prepare_mutation (rd clock) (set_counter 42) (\<lambda>s. s) shard
      in age (so_generation (sh_state shard)) = 0 \<and> expect (get_view shard ''1'') (\<lambda>v. ts_counter (sv_value v) = 0) \<and>
         age (so_generation (pm_new_state prepared)) = 1 \<and>
         expect_ok (commit_mutation (rd clock) prepared shard) (\<lambda>(shard, outcome).
           age (so_generation (sh_state shard)) = 1 \<and> expect (get_view shard ''1'') (\<lambda>v. ts_counter (sv_value v) = 42) \<and>
           age (mo_generation outcome) = 1 \<and> ts_counter (mo_view outcome) = 42))"

text \<open>The delta closure of the two-phase tests.\<close>

definition prepare_add ::
    "test_clock \<Rightarrow> u64 \<Rightarrow> string option \<Rightarrow> (f64 test_delta_inner, test_delta_view) shard_core \<Rightarrow>
     (f64 test_delta_inner, test_delta_view, test_delta_view_delta) prepared_delta_mutation" where
  "prepare_add clock n l = prepare_mutation_with_delta (rd clock)
     (reporting (\<lambda>s. s\<lparr>td_counter := td_counter s + n, td_label := (case l of Some x \<Rightarrow> x | None \<Rightarrow> td_label s)\<rparr>)
       (td_change n l (Finite 0)))
     test_delta_project_view test_delta_project_delta"

definition persist_delta_prepare_commit_cycle :: bool where
  "persist_delta_prepare_commit_cycle \<longleftrightarrow>
     (let clock = shard_test_clock;
          shard = make_delta_shard clock;
          prepared = prepare_add clock 1 (Some ''updated'') shard
      in age (so_generation (sh_state shard)) = 0 \<and>
         expect_ok (commit_delta_mutation (rd clock) prepared shard) (\<lambda>(shard, outcome).
           age (so_generation (sh_state shard)) = 1 \<and> age (dmo_generation outcome) = 1 \<and> tv_counter (dmo_view outcome) = 1))"

definition persist_delta_save_failure_rollback :: bool where
  "persist_delta_save_failure_rollback \<longleftrightarrow>
     (let clock = shard_test_clock;
          shard = make_delta_shard clock;
          p1 = prepare_add clock 1 None shard
      in expect_ok (commit_delta_mutation (rd clock) p1 shard) (\<lambda>(shard, _).
           age (so_generation (sh_state shard)) = 1 \<and>
     (let p2 = prepare_add clock 10 None shard
      in age (so_generation (sh_state shard)) = 1 \<and> td_counter (so_value (sh_state shard)) = 1)))"

definition stale_commit_panics :: bool where
  "stale_commit_panics \<longleftrightarrow>
     (let clock = shard_test_clock;
          shard = make_shard clock;
          p1 = prepare_mutation (rd clock) (set_counter 1) (\<lambda>s. s) shard;
          p2 = prepare_mutation (rd clock) (set_counter 2) (\<lambda>s. s) shard
      in expect_ok (commit_mutation (rd clock) p1 shard) (\<lambda>(shard, _).
           commit_mutation (rd clock) p2 shard = Inl (BaseGenerationMismatch (generation_new 1 0) (generation_new 1 1))))"

definition stale_delta_commit_panics :: bool where
  "stale_delta_commit_panics \<longleftrightarrow>
     (let clock = shard_test_clock;
          shard = make_delta_shard clock;
          p1 = prepare_add clock 1 None shard;
          p2 = prepare_add clock 10 None shard
      in expect_ok (commit_delta_mutation (rd clock) p1 shard) (\<lambda>(shard, _).
           (case commit_delta_mutation (rd clock) p2 shard of Inl (BaseGenerationMismatch _ _) \<Rightarrow> True | _ \<Rightarrow> False)))"

subsection \<open>The tests pass\<close>

lemmas shard_run = run
  expect_def expect_ok_def snap_lit_def set_counter_def add_counter_def set_both_def reporting_def bytes_of_def
  from_utf8_def make_state_object_def make_shard_def make_delta_shard_def add_fresh_peer_def delta_shard_with_def
  counter_at_def prepare_commit_def prepare_add_def

lemma shard_suite_order:
  "test_05_should_accept_newer_incarnation \<and> test_05_should_accept_same_inc_newer_age \<and>
   test_05_should_reject_same_inc_same_age \<and> test_05_should_reject_same_inc_older_age \<and>
   test_05_should_reject_older_incarnation \<and> test_06_stale_peers_by_time \<and> test_06_stale_peers_by_pending_age \<and>
   test_06_own_node_never_stale \<and> test_07_mutation_advances_age \<and> pvm_01_own_entry_after_construction \<and>
   pvm_02_own_entry_matches_state \<and> pvm_03_no_peers_on_single_node"
  by (simp_all add: shard_run cong: exec_cong add:
      test_05_should_accept_newer_incarnation_def test_05_should_accept_same_inc_newer_age_def
      test_05_should_reject_same_inc_same_age_def test_05_should_reject_same_inc_older_age_def
      test_05_should_reject_older_incarnation_def test_06_stale_peers_by_time_def test_06_stale_peers_by_pending_age_def
      test_06_own_node_never_stale_def test_07_mutation_advances_age_def pvm_01_own_entry_after_construction_def
      pvm_02_own_entry_matches_state_def pvm_03_no_peers_on_single_node_def)

lemma shard_suite_shard:
  "shard_01_mutation_increments_age \<and> shard_02_mutation_updates_modified_time \<and>
   shard_03_mutation_produces_outbound_view \<and> shard_05_node_joined_adds_entry \<and> shard_06_node_left_removes_entry \<and>
   shard_07_mark_stale_sets_pending \<and> shard_08_mark_stale_old_incarnation_noop \<and> shard_10_snapshot_returns_view_map"
  by (simp_all add: shard_run cong: exec_cong add:
      shard_01_mutation_increments_age_def shard_02_mutation_updates_modified_time_def
      shard_03_mutation_produces_outbound_view_def shard_05_node_joined_adds_entry_def
      shard_06_node_left_removes_entry_def shard_07_mark_stale_sets_pending_def
      shard_08_mark_stale_old_incarnation_noop_def shard_10_snapshot_returns_view_map_def)

lemma shard_suite_mut:
  "mut_01_closure_receives_mutable_state \<and> mut_02_mutation_updates_view_map \<and> mut_04_mutation_broadcasts_snapshot_data \<and>
   mut_05_inbound_snapshot_replaces_view \<and> mut_06_stale_snapshot_discarded"
  by (simp_all add: shard_run cong: exec_cong add:
      mut_01_closure_receives_mutable_state_def mut_02_mutation_updates_view_map_def
      mut_04_mutation_broadcasts_snapshot_data_def mut_05_inbound_snapshot_replaces_view_def
      mut_06_stale_snapshot_discarded_def)

lemma shard_suite_delta:
  "dmut_01_delta_mutation_captures_change \<and> dmut_05_delta_mutation_produces_view_delta \<and> dmut_06_simple_mutate_on_delta_shard \<and>
   inbound_delta_applied_correctly \<and> inbound_delta_gap_detected \<and> inbound_delta_stale_discarded \<and> inbound_delta_unknown_peer"
  by (simp_all add: shard_run cong: exec_cong add:
      dmut_01_delta_mutation_captures_change_def dmut_05_delta_mutation_produces_view_delta_def
      dmut_06_simple_mutate_on_delta_shard_def inbound_delta_applied_correctly_def inbound_delta_gap_detected_def
      inbound_delta_stale_discarded_def inbound_delta_unknown_peer_def)

lemma shard_suite_views:
  "mark_stale_new_incarnation_sets_both \<and> node_joined_idempotent \<and> node_left_unknown_noop \<and>
   inbound_snapshot_creates_entry_for_unknown_peer \<and> accept_snapshot_clears_pending_remote \<and>
   accept_snapshot_partial_catchup_preserves_pending \<and> accept_delta_partial_catchup_preserves_pending \<and>
   node_joined_placeholder_is_stale \<and> test_new_state_object"
  by (simp_all add: shard_run cong: exec_cong add:
      mark_stale_new_incarnation_sets_both_def node_joined_idempotent_def node_left_unknown_noop_def
      inbound_snapshot_creates_entry_for_unknown_peer_def accept_snapshot_clears_pending_remote_def
      accept_snapshot_partial_catchup_preserves_pending_def accept_delta_partial_catchup_preserves_pending_def
      node_joined_placeholder_is_stale_def test_new_state_object_def)

lemma shard_suite_wire:
  "wire_full_snapshot_updates_view_map \<and> wire_delta_advances_peer_view \<and> wire_change_feed_marks_peer_stale \<and>
   wire_request_snapshot_response \<and> wire_unknown_peer_snapshot_accepted"
  by (simp_all add: shard_run cong: exec_cong add:
      wire_full_snapshot_updates_view_map_def wire_delta_advances_peer_view_def wire_change_feed_marks_peer_stale_def
      wire_request_snapshot_response_def wire_unknown_peer_snapshot_accepted_def)

lemma shard_suite_query:
  "query_01_projection_receives_full_view_map \<and> query_02_stale_entries_detected_by_time \<and>
   query_03_fresh_entries_not_flagged \<and> query_04_callback_result_returned \<and> query_05_unreachable_peer_returns_stale"
  "query_06_pending_remote_generation_triggers_stale \<and> query_07_multiple_stale_peers \<and>
   query_08_snapshot_returns_stale_data_without_freshness \<and> query_local_node_never_stale"
  by (simp_all add: shard_run cong: exec_cong add:
      query_01_projection_receives_full_view_map_def query_02_stale_entries_detected_by_time_def
      query_03_fresh_entries_not_flagged_def query_04_callback_result_returned_def
      query_05_unreachable_peer_returns_stale_def query_06_pending_remote_generation_triggers_stale_def
      query_07_multiple_stale_peers_def query_08_snapshot_returns_stale_data_without_freshness_def
      query_local_node_never_stale_def)

lemma shard_suite_sync:
  "sync_14_immediate_bypasses_timer \<and> sync_15_delayed_overrides_interval \<and> sync_16_suppress_skips_broadcast \<and>
   sync_17_suppressed_deltas_accumulate \<and> sync_18_default_uses_configured_strategy \<and>
   err_05_stale_retry_succeeds_after_refresh \<and> err_06_stale_peers_consistent_for_retry"
  by (simp_all add: shard_run cong: exec_cong add:
      sync_14_immediate_bypasses_timer_def sync_15_delayed_overrides_interval_def sync_16_suppress_skips_broadcast_def
      sync_17_suppressed_deltas_accumulate_def sync_18_default_uses_configured_strategy_def
      err_05_stale_retry_succeeds_after_refresh_def err_06_stale_peers_consistent_for_retry_def)

lemma shard_suite_persist:
  "persist_01_prepare_returns_state_to_persist \<and> persist_03_state_survives_restart \<and>
   persist_04_no_persistence_direct_commit \<and> persist_05_err_03_save_failure_no_commit \<and>
   persist_07_save_failure_prevents_age_advance \<and> persist_08_save_failure_viewmap_unchanged \<and>
   persist_09_save_failure_no_broadcast \<and> persist_10_save_then_publish_ordering"
  "persist_delta_prepare_commit_cycle \<and> persist_delta_save_failure_rollback \<and> stale_commit_panics \<and> stale_delta_commit_panics"
  by (simp_all add: shard_run cong: exec_cong add:
      persist_01_prepare_returns_state_to_persist_def persist_03_state_survives_restart_def
      persist_04_no_persistence_direct_commit_def persist_05_err_03_save_failure_no_commit_def
      persist_07_save_failure_prevents_age_advance_def persist_08_save_failure_viewmap_unchanged_def
      persist_09_save_failure_no_broadcast_def persist_10_save_then_publish_ordering_def
      persist_delta_prepare_commit_cycle_def persist_delta_save_failure_rollback_def stale_commit_panics_def
      stale_delta_commit_panics_def)

end
