(* ===== verification/Suite_Core.thy ===== *)
theory Suite_Core
  imports Suite_Exec
begin

text \<open>
  The unit tests of \<open>core/sync_logic.rs\<close>, \<open>delta_accumulator.rs\<close>, \<open>change_feed_logic.rs\<close>, \<open>versioning_logic.rs\<close> and
  \<open>lifecycle_logic.rs\<close>, run on the model.
\<close>

subsection \<open>Synchronisation decisions\<close>

definition no_push_strategy :: sync_strategy where
  "no_push_strategy = \<lparr>st_push_mode = None, st_periodic_full_sync = None, st_pull_on_query = False,
     st_change_feed = change_feed_config_default\<rparr>"

definition immediate_urgency_broadcasts_delta :: bool where
  "immediate_urgency_broadcasts_delta \<longleftrightarrow> resolve_action (sync_logic_new ''test'' active_push True) Immediate = BroadcastDelta"

definition immediate_urgency_broadcasts_snapshot_for_simple :: bool where
  "immediate_urgency_broadcasts_snapshot_for_simple \<longleftrightarrow>
     resolve_action (sync_logic_new ''test'' active_push False) Immediate = BroadcastSnapshot"

definition default_urgency_active_push :: bool where
  "default_urgency_active_push \<longleftrightarrow>
     resolve_action (sync_logic_new ''test'' active_push True) DefaultUrgency = BroadcastDelta \<and>
     resolve_action (sync_logic_new ''test'' active_push False) DefaultUrgency = BroadcastSnapshot"

definition default_urgency_feed_lazy_pull :: bool where
  "default_urgency_feed_lazy_pull \<longleftrightarrow>
     resolve_action (sync_logic_new ''test'' feed_lazy_pull True) DefaultUrgency = NotifyChangeFeed"

definition default_urgency_no_push_mode :: bool where
  "default_urgency_no_push_mode \<longleftrightarrow> resolve_action (sync_logic_new ''test'' no_push_strategy True) DefaultUrgency = SuppressAction"

definition delayed_urgency :: bool where
  "delayed_urgency \<longleftrightarrow>
     resolve_action (sync_logic_new ''test'' active_push True) (Delayed (from_secs 5)) = ScheduleDelayedAction (from_secs 5)"

definition suppress_urgency :: bool where
  "suppress_urgency \<longleftrightarrow> resolve_action (sync_logic_new ''test'' active_push True) SuppressUrgency = SuppressAction"

definition immediate_overrides_feed_mode :: bool where
  "immediate_overrides_feed_mode \<longleftrightarrow> resolve_action (sync_logic_new ''test'' feed_lazy_pull True) Immediate = BroadcastDelta"

definition periodic_sync_configured :: bool where
  "periodic_sync_configured \<longleftrightarrow>
     (let logic = sync_logic_new ''test'' (feed_with_periodic_sync (from_secs 300)) True
      in should_periodic_sync logic \<and> sl_periodic_interval logic = Some (from_secs 300))"

definition periodic_sync_not_configured :: bool where
  "periodic_sync_not_configured \<longleftrightarrow>
     (let logic = sync_logic_new ''test'' active_push True
      in \<not> should_periodic_sync logic \<and> sl_periodic_interval logic = None)"

definition active_push_mutation_produces_broadcast :: bool where
  "active_push_mutation_produces_broadcast \<longleftrightarrow>
     resolve_action (sync_logic_new ''counters'' active_push True) DefaultUrgency = BroadcastDelta \<and>
     resolve_action (sync_logic_new ''counters'' active_push False) DefaultUrgency = BroadcastSnapshot"

definition feed_mode_mutation_produces_notify :: bool where
  "feed_mode_mutation_produces_notify \<longleftrightarrow>
     resolve_action (sync_logic_new ''sessions'' feed_lazy_pull True) DefaultUrgency = NotifyChangeFeed \<and>
     resolve_action (sync_logic_new ''sessions'' feed_lazy_pull False) DefaultUrgency = NotifyChangeFeed"

definition fresh_view_no_pull :: bool where
  "fresh_view_no_pull \<longleftrightarrow>
     st_pull_on_query (sl_strategy (sync_logic_new ''test'' feed_lazy_pull True)) \<and>
     \<not> st_pull_on_query (sl_strategy (sync_logic_new ''test'' active_push True))"

definition strategy_composition_feed_with_periodic :: bool where
  "strategy_composition_feed_with_periodic \<longleftrightarrow>
     (let strategy = feed_with_periodic_sync (from_secs 300)
      in st_push_mode strategy = Some ActiveFeedLazyPull \<and> st_periodic_full_sync strategy = Some (from_secs 300) \<and>
         st_pull_on_query strategy)"

definition strategy_composition_periodic_only :: bool where
  "strategy_composition_periodic_only \<longleftrightarrow>
     (let strategy = periodic_only (from_secs 600)
      in st_push_mode strategy = None \<and> st_periodic_full_sync strategy = Some (from_secs 600) \<and> \<not> st_pull_on_query strategy)"

definition immediate_overrides_any_strategy :: bool where
  "immediate_overrides_any_strategy \<longleftrightarrow>
     (let logic = sync_logic_new ''test'' no_push_strategy True
      in resolve_action logic DefaultUrgency = SuppressAction \<and> resolve_action logic Immediate = BroadcastDelta)"

subsection \<open>The delta accumulator\<close>

definition empty_flush_returns_none :: bool where
  "empty_flush_returns_none \<longleftrightarrow>
     (let (acc, flushed) = da_flush (da_new :: int delta_accumulator) in flushed = None \<and> da_is_empty acc)"

definition accumulate_and_flush :: bool where
  "accumulate_and_flush \<longleftrightarrow>
     (let acc = da_accumulate 30 (da_accumulate 20 (da_accumulate (10 :: int) da_new))
      in da_len acc = 3 \<and>
     (let (acc, flushed) = da_flush acc
      in flushed = Some [10, 20, 30] \<and> da_is_empty acc \<and> snd (da_flush acc) = None))"

definition flush_clears_buffer :: bool where
  "flush_clears_buffer \<longleftrightarrow>
     (let acc = da_accumulate ''delta2'' (da_accumulate ''delta1'' da_new);
          acc = fst (da_flush acc);
          acc = da_accumulate ''delta3'' acc
      in snd (da_flush acc) = Some [''delta3''])"

definition suppressed_deltas_accumulate_in_order :: bool where
  "suppressed_deltas_accumulate_in_order \<longleftrightarrow>
     (let acc = fold da_accumulate [0, 1, 2, 3, 4 :: int] da_new in snd (da_flush acc) = Some [0, 1, 2, 3, 4])"

subsection \<open>The change feed\<close>

definition notify_dedup_keeps_highest :: bool where
  "notify_dedup_keeps_highest \<longleftrightarrow>
     (let logic = cf_new ''1'';
          logic = notify_change ''counters'' ''2'' (generation_new 1 1) logic;
          logic = notify_change ''counters'' ''2'' (generation_new 1 2) logic;
          logic = notify_change ''counters'' ''2'' (generation_new 1 3) logic
      in cf_pending_count logic = 1 \<and> hm_get (cf_pending logic) (''counters'', ''2'') = Some (generation_new 1 3))"

definition flush_sends_batched_feed :: bool where
  "flush_sends_batched_feed \<longleftrightarrow>
     (let logic = cf_new ''1'';
          logic = notify_change ''counters'' ''2'' (generation_new 1 1) logic;
          logic = notify_change ''sessions'' ''3'' (generation_new 2 5) logic
      in expect (snd (cf_flush logic)) (\<lambda>batch. bf_source_node batch = ''1'' \<and> length (bf_notifications batch) = 2))"

definition empty_pending_no_flush :: bool where
  "empty_pending_no_flush \<longleftrightarrow> snd (cf_flush (cf_new ''1'')) = None"

abbreviation note_lit :: "string \<Rightarrow> node_id \<Rightarrow> generation \<Rightarrow> change_notification" where
  "note_lit name source gen \<equiv> \<lparr>cn_state_name = name, cn_source_node = source, cn_generation = gen\<rparr>"

definition self_message_filtered :: bool where
  "self_message_filtered \<longleftrightarrow>
     (let batch = \<lparr>bf_source_node = ''1'', bf_notifications = [note_lit ''counters'' ''1'' (generation_new 1 1)]\<rparr>
      in route_inbound_batch batch ''1'' = [])"

definition cross_state_batching :: bool where
  "cross_state_batching \<longleftrightarrow>
     (let logic = cf_new ''1'';
          logic = notify_change ''counters'' ''2'' (generation_new 1 1) logic;
          logic = notify_change ''sessions'' ''2'' (generation_new 1 1) logic
      in expect (snd (cf_flush logic)) (\<lambda>batch. bf_source_node batch = ''1'' \<and> length (bf_notifications batch) = 2 \<and>
     (let names = map cn_state_name (bf_notifications batch)
      in List.member names ''counters'' \<and> List.member names ''sessions'')))"

definition higher_incarnation_wins_dedup :: bool where
  "higher_incarnation_wins_dedup \<longleftrightarrow>
     (let logic = cf_new ''1'';
          logic = notify_change ''counters'' ''2'' (generation_new 100 50) logic;
          logic = notify_change ''counters'' ''2'' (generation_new 200 1) logic
      in cf_pending_count logic = 1 \<and> hm_get (cf_pending logic) (''counters'', ''2'') = Some (generation_new 200 1))"

definition flush_clears_pending :: bool where
  "flush_clears_pending \<longleftrightarrow>
     (let logic = cf_new ''1'';
          logic = notify_change ''counters'' ''2'' (generation_new 1 1) logic;
          logic = notify_change ''sessions'' ''3'' (generation_new 2 5) logic
      in cf_pending_count logic = 2 \<and> cf_pending_count (fst (cf_flush logic)) = 0)"

definition route_inbound_batch_routes_correctly :: bool where
  "route_inbound_batch_routes_correctly \<longleftrightarrow>
     (let batch = \<lparr>bf_source_node = ''5'', bf_notifications = [note_lit ''counters'' ''2'' (generation_new 1 10),
            note_lit ''counters'' ''3'' (generation_new 2 5), note_lit ''sessions'' ''2'' (generation_new 1 7)]\<rparr>;
          routed = route_inbound_batch batch ''1''
      in length routed = 3 \<and> List.member routed (''counters'', ''2'', generation_new 1 10) \<and>
         List.member routed (''counters'', ''3'', generation_new 2 5) \<and> List.member routed (''sessions'', ''2'', generation_new 1 7))"

definition inbound_batch_routes_to_correct_shards :: bool where
  "inbound_batch_routes_to_correct_shards \<longleftrightarrow>
     (let batch = \<lparr>bf_source_node = ''10'', bf_notifications = [note_lit ''counters'' ''2'' (generation_new 1 20),
            note_lit ''sessions'' ''2'' (generation_new 1 15)]\<rparr>;
          routed = route_inbound_batch batch ''1''
      in length routed = 2 \<and>
         find (\<lambda>(name, _, _). name = ''counters'') routed = Some (''counters'', ''2'', generation_new 1 20) \<and>
         find (\<lambda>(name, _, _). name = ''sessions'') routed = Some (''sessions'', ''2'', generation_new 1 15))"

subsection \<open>Versioning\<close>

definition keep_stale_logic :: versioning_logic where
  "keep_stale_logic = versioning_new ''test_state'' KeepStalePolicy 2 1"

definition drop_and_wait_logic :: versioning_logic where
  "drop_and_wait_logic = versioning_new ''test_state'' DropAndWait 2 1"

definition deserialize_v1_v2 :: "bytes \<Rightarrow> u32 \<Rightarrow> deserialize_error + string" where
  "deserialize_v1_v2 data wire_version =
     (if wire_version = 1 then Inr (''v1:'' @ from_utf8 data)
      else if wire_version = 2 then Inr (''v2:'' @ from_utf8 data)
      else Inl (UnknownVersion wire_version))"

definition deserialize_v2_only :: "bytes \<Rightarrow> u32 \<Rightarrow> deserialize_error + string" where
  "deserialize_v2_only data wire_version =
     (if wire_version = 2 then Inr (''v2:'' @ from_utf8 data) else Inl (UnknownVersion wire_version))"

definition deserialize_malformed :: "bytes \<Rightarrow> u32 \<Rightarrow> deserialize_error + string" where
  "deserialize_malformed data wire_version = Inl (Malformed ''corrupt data'')"

definition ver_06_same_wire_version_sync_works :: bool where
  "ver_06_same_wire_version_sync_works \<longleftrightarrow>
     on_inbound keep_stale_logic (bytes_of ''hello'') 2 deserialize_v1_v2 = InboundOk ''v2:hello''"

definition ver_07_receiver_supports_older_wire_version :: bool where
  "ver_07_receiver_supports_older_wire_version \<longleftrightarrow>
     on_inbound keep_stale_logic (bytes_of ''data'') 1 deserialize_v1_v2 = InboundOk ''v1:data''"

text \<open>The reason both mismatch tests expect; an apostrophe is written by its code.\<close>

definition mismatch_reason :: string where
  "mismatch_reason = ''state '' @ [CHR 0x27] @ ''test_state'' @ [CHR 0x27] @
     '': received wire_version=3, local outbound wire_version is 2''"

definition ver_08_unknown_version_keep_stale :: bool where
  "ver_08_unknown_version_keep_stale \<longleftrightarrow>
     on_inbound keep_stale_logic (bytes_of ''data'') 3 deserialize_v1_v2 = VersionMismatch (KeepStale 3 mismatch_reason)"

definition ver_09_unknown_version_drop_and_wait :: bool where
  "ver_09_unknown_version_drop_and_wait \<longleftrightarrow>
     on_inbound drop_and_wait_logic (bytes_of ''data'') 3 deserialize_v1_v2 = VersionMismatch (DropView 3 mismatch_reason)"

definition ver_10_malformed_data_not_version_mismatch :: bool where
  "ver_10_malformed_data_not_version_mismatch \<longleftrightarrow>
     on_inbound keep_stale_logic (bytes_of ''corrupt'') 2 deserialize_malformed = MalformedData ''corrupt data''"

definition ver_11_on_deserialize_error_actions :: bool where
  "ver_11_on_deserialize_error_actions \<longleftrightarrow>
     (case on_deserialize_error keep_stale_logic 5 of KeepStale v _ \<Rightarrow> v = 5 | _ \<Rightarrow> False) \<and>
     (case on_deserialize_error drop_and_wait_logic 5 of DropView v _ \<Rightarrow> v = 5 | _ \<Rightarrow> False)"

fun is_ok :: "'v inbound_version_result \<Rightarrow> bool" where
  "is_ok (InboundOk v) = True"
| "is_ok _ = False"

definition ver_12_phase1_read_both_send_old :: bool where
  "ver_12_phase1_read_both_send_old \<longleftrightarrow>
     (let logic = versioning_new ''res'' KeepStalePolicy 1 1
      in is_ok (on_inbound logic (bytes_of ''data'') 1 deserialize_v1_v2) \<and>
         is_ok (on_inbound logic (bytes_of ''data'') 2 deserialize_v1_v2))"

definition ver_13_phase2_switch_to_v2 :: bool where
  "ver_13_phase2_switch_to_v2 \<longleftrightarrow>
     (let logic = versioning_new ''res'' KeepStalePolicy 2 1
      in on_inbound logic (bytes_of ''data'') 2 deserialize_v1_v2 = InboundOk ''v2:data'' \<and>
         on_inbound logic (bytes_of ''data'') 1 deserialize_v1_v2 = InboundOk ''v1:data'')"

definition ver_14_phase2_rollback_to_phase1 :: bool where
  "ver_14_phase2_rollback_to_phase1 \<longleftrightarrow>
     on_inbound (versioning_new ''res'' KeepStalePolicy 1 1) (bytes_of ''data'') 2 deserialize_v1_v2 = InboundOk ''v2:data''"

definition ver_15_phase3_v1_removed :: bool where
  "ver_15_phase3_v1_removed \<longleftrightarrow>
     (let logic = versioning_new ''res'' KeepStalePolicy 2 1
      in on_inbound logic (bytes_of ''data'') 2 deserialize_v2_only = InboundOk ''v2:data'' \<and>
         (case on_inbound logic (bytes_of ''data'') 1 deserialize_v2_only of
            VersionMismatch (KeepStale v _) \<Rightarrow> v = 1 | _ \<Rightarrow> False))"

text \<open>A closure that must not be called gives an error no test expects.\<close>

definition never_called :: "bytes \<Rightarrow> u32 \<Rightarrow> deserialize_error + string" where
  "never_called d v = Inl (Malformed ''called'')"

definition ver_16_persist_load_same_version :: bool where
  "ver_16_persist_load_same_version \<longleftrightarrow>
     try_load_with_migration keep_stale_logic (bytes_of ''persisted_state'') 1
       (\<lambda>d v. if v = 1 then Inr (''loaded:'' @ from_utf8 d) else never_called d v)
       (\<lambda>_ v. Inl (UnknownVersion v)) = Inr ''loaded:persisted_state''"

definition ver_17_load_older_version_with_migration :: bool where
  "ver_17_load_older_version_with_migration \<longleftrightarrow>
     try_load_with_migration (versioning_new ''test'' KeepStalePolicy 2 2) (bytes_of ''old_format_data'') 1 never_called
       (\<lambda>d v. if v = 1 then Inr (''migrated:'' @ from_utf8 d) else never_called d v) = Inr ''migrated:old_format_data''"

definition ver_18_load_unknown_version_fails_gracefully :: bool where
  "ver_18_load_unknown_version_fails_gracefully \<longleftrightarrow>
     try_load_with_migration keep_stale_logic (bytes_of ''future_data'') 99 never_called
       (\<lambda>_ v. Inl (UnknownVersion v)) = Inl (UnknownVersion 99)"

definition accessors :: bool where
  "accessors \<longleftrightarrow>
     (let logic = keep_stale_logic
      in vl_state_name logic = ''test_state'' \<and> vl_policy logic = KeepStalePolicy \<and> vl_current_wire_version logic = 2 \<and>
         vl_current_storage_version logic = 1)"

subsection \<open>Lifecycle\<close>

definition life_make_shard :: "node_id \<Rightarrow> test_clock \<Rightarrow> (test_state, test_state) shard_core" where
  "life_make_shard node_id clock =
     (let state = new_state_object (ts 0 (''node_'' @ node_id)) (test_clock_unix_ms clock) (rd clock);
          view = so_value state
      in shard_new node_id state view (rd clock))"

text \<open>The receiver after the snapshot and its answer; \<open>None\<close> is the \<open>unwrap\<close> of a sender without a view of itself.\<close>

definition send_snapshot ::
    "(test_state, test_state) shard_core \<Rightarrow> (test_state, test_state) shard_core \<Rightarrow> test_clock \<Rightarrow>
     ((test_state, test_state) shard_core \<times> accept_result) option" where
  "send_snapshot sender receiver clock =
     (case get_view sender (sh_node_id sender) of None \<Rightarrow> None | Some view \<Rightarrow>
        Some (accept_inbound_snapshot (rd clock)
          \<lparr>is_source = sh_node_id sender, is_generation = so_generation (sh_state sender),
           is_wire_version = so_storage_version (sh_state sender), is_view = sv_value view,
           is_created_time = so_created_time (sh_state sender), is_modified_time = so_modified_time (sh_state sender)\<rparr>
          receiver))"

text \<open>A shard joins \<open>n\<close>, with the default view of the tests; the actions are dropped.\<close>

definition life_join ::
    "test_clock \<Rightarrow> node_id \<Rightarrow> lifecycle_logic \<times> (test_state, test_state) shard_core \<Rightarrow>
     lifecycle_logic \<times> (test_state, test_state) shard_core" where
  "life_join clock n s = fst (ll_on_node_joined (rd clock) n (ts 0 '''') s)"

definition life_01_new_node_receives_snapshots :: bool where
  "life_01_new_node_receives_snapshots \<longleftrightarrow>
     (let (clock, a, b, c, d) = (shard_test_clock, life_make_shard ''1'' shard_test_clock, life_make_shard ''2'' shard_test_clock,
            life_make_shard ''3'' shard_test_clock, life_make_shard ''4'' shard_test_clock);
          (lifecycle, d) = life_join clock ''1'' (lifecycle_new, d);
          (lifecycle, d) = life_join clock ''2'' (lifecycle, d);
          (lifecycle, d) = life_join clock ''3'' (lifecycle, d)
      in case send_snapshot a d clock of None \<Rightarrow> False | Some (d, r1) \<Rightarrow> r1 = Accepted \<and>
        (case send_snapshot b d clock of None \<Rightarrow> False | Some (d, r2) \<Rightarrow> r2 = Accepted \<and>
        (case send_snapshot c d clock of None \<Rightarrow> False | Some (d, r3) \<Rightarrow> r3 = Accepted \<and> view_count d = 4 \<and>
           hm_contains_key (shard_snapshot d) ''1'' \<and> hm_contains_key (shard_snapshot d) ''2'' \<and>
           hm_contains_key (shard_snapshot d) ''3'' \<and> hm_contains_key (shard_snapshot d) ''4'')))"

definition life_02_existing_nodes_receive_new_node_snapshot :: bool where
  "life_02_existing_nodes_receive_new_node_snapshot \<longleftrightarrow>
     (let (clock, a, b, d) = (shard_test_clock, life_make_shard ''1'' shard_test_clock, life_make_shard ''2'' shard_test_clock,
            life_make_shard ''4'' shard_test_clock);
          ((lifecycle, a), actions_a) = ll_on_node_joined (rd clock) ''4'' (ts 0 '''') (lifecycle_new, a);
          ((lifecycle, b), actions_b) = ll_on_node_joined (rd clock) ''4'' (ts 0 '''') (lifecycle, b)
      in actions_a = [SendSnapshotToPeer ''4''] \<and> actions_b = [SendSnapshotToPeer ''4''] \<and>
        (case send_snapshot d a clock of None \<Rightarrow> False | Some (a, r1) \<Rightarrow> r1 = Accepted \<and>
        (case send_snapshot d b clock of None \<Rightarrow> False | Some (b, r2) \<Rightarrow> r2 = Accepted \<and>
           hm_contains_key (shard_snapshot a) ''4'' \<and> hm_contains_key (shard_snapshot b) ''4'')))"

definition life_03_join_with_multiple_state_types :: bool where
  "life_03_join_with_multiple_state_types \<longleftrightarrow>
     (let (clock, lifecycle) = (shard_test_clock, lifecycle_new);
          (lifecycle, a_state1) = life_join clock ''4'' (lifecycle, life_make_shard ''1'' clock);
          (lifecycle, a_state2) = life_join clock ''4'' (lifecycle, life_make_shard ''1'' clock);
          (lifecycle, d_state1) = life_join clock ''1'' (lifecycle, life_make_shard ''4'' clock);
          (lifecycle, d_state2) = life_join clock ''1'' (lifecycle, life_make_shard ''4'' clock)
      in case send_snapshot a_state1 d_state1 clock of None \<Rightarrow> False | Some (d_state1, r1) \<Rightarrow> r1 = Accepted \<and>
        (case send_snapshot a_state2 d_state2 clock of None \<Rightarrow> False | Some (d_state2, r2) \<Rightarrow> r2 = Accepted \<and>
        (case send_snapshot d_state1 a_state1 clock of None \<Rightarrow> False | Some (a_state1, r3) \<Rightarrow> r3 = Accepted \<and>
        (case send_snapshot d_state2 a_state2 clock of None \<Rightarrow> False | Some (a_state2, r4) \<Rightarrow> r4 = Accepted \<and>
           view_count a_state1 = 2 \<and> view_count a_state2 = 2 \<and> view_count d_state1 = 2 \<and> view_count d_state2 = 2))))"

definition life_04_departed_node_removed :: bool where
  "life_04_departed_node_removed \<longleftrightarrow>
     (let (clock, lifecycle) = (shard_test_clock, lifecycle_new);
          (lifecycle, a) = life_join clock ''2'' (lifecycle, life_make_shard ''1'' clock);
          (lifecycle, a) = life_join clock ''3'' (lifecycle, a)
      in view_count a = 3 \<and>
     (let ((lifecycle, a), action) = ll_on_node_left ''3'' (lifecycle, a)
      in action = PeerRemoved ''3'' \<and> view_count a = 2 \<and> \<not> hm_contains_key (shard_snapshot a) ''3'' \<and>
         hm_contains_key (shard_snapshot a) ''2''))"

definition life_05_inflight_from_departed_discarded :: bool where
  "life_05_inflight_from_departed_discarded \<longleftrightarrow>
     (let (clock, lifecycle) = (shard_test_clock, lifecycle_new);
          (lifecycle, a) = life_join clock ''3'' (lifecycle, life_make_shard ''1'' clock)
      in view_count a = 2 \<and>
     (let (lifecycle, a) = fst (ll_on_node_left ''3'' (lifecycle, a))
      in view_count a = 1 \<and> \<not> ll_should_accept_from lifecycle ''3'' \<and>
         snd (accept_inbound_delta (rd clock) ''3'' (generation_new 1 1) 1 (\<lambda>v. v) a) = UnknownPeer))"

definition life_06_leave_multiple_state_types :: bool where
  "life_06_leave_multiple_state_types \<longleftrightarrow>
     (let (clock, lifecycle) = (shard_test_clock, lifecycle_new);
          (lifecycle, a_s1) = life_join clock ''3'' (lifecycle, life_make_shard ''1'' clock);
          (lifecycle, a_s2) = life_join clock ''3'' (lifecycle, life_make_shard ''1'' clock);
          (lifecycle, a_s1) = fst (ll_on_node_left ''3'' (lifecycle, a_s1));
          (lifecycle, a_s2) = fst (ll_on_node_left ''3'' (lifecycle, a_s2))
      in view_count a_s1 = 1 \<and> view_count a_s2 = 1)"

definition life_07_crash_restart_no_persistence :: bool where
  "life_07_crash_restart_no_persistence \<longleftrightarrow>
     (let (clock, a) = (shard_test_clock, fold (\<lambda>_. fst \<circ> apply_mutation (rd shard_test_clock) (add_counter 1) (\<lambda>s. s)) [(), (), ()]
            (life_make_shard ''1'' shard_test_clock));
          (lifecycle, b) = life_join clock ''1'' (lifecycle_new, life_make_shard ''2'' clock)
      in age (so_generation (sh_state a)) = 3 \<and>
        (case send_snapshot a b clock of None \<Rightarrow> False | Some (b, _) \<Rightarrow>
     (let (clock2, a2) = (test_clock_advance (from_millis 5000) shard_test_clock,
            life_make_shard ''1'' (test_clock_advance (from_millis 5000) shard_test_clock));
          (lifecycle, b) = life_join clock ''1'' (lifecycle, b)
      in incarnation (so_generation (sh_state a2)) > incarnation (so_generation (sh_state a)) \<and>
         age (so_generation (sh_state a2)) = 0 \<and>
         map_option snd (send_snapshot a2 b clock) = Some Accepted)))"

definition life_08_crash_restart_with_persistence :: bool where
  "life_08_crash_restart_with_persistence \<longleftrightarrow>
     (let (clock, a) = (shard_test_clock, fold (\<lambda>_. fst \<circ> apply_mutation (rd shard_test_clock) (add_counter 1) (\<lambda>s. s))
            [(), (), (), (), ()] (life_make_shard ''1'' shard_test_clock));
          (saved_state, ()) = (sh_state a, ());
          (lifecycle, b) = life_join clock ''1'' (lifecycle_new, life_make_shard ''2'' clock)
      in age (so_generation saved_state) = 5 \<and>
        (case send_snapshot a b clock of None \<Rightarrow> False | Some (b, _) \<Rightarrow>
         map_option (age \<circ> sv_generation) (get_view b ''1'') = Some 5 \<and>
     (let (lifecycle, b) = fst (ll_on_node_left ''1'' (lifecycle, b))
      in view_count b = 1 \<and>
     (let (a2, ()) = (shard_new ''1'' saved_state (so_value saved_state) (rd clock), ());
          (lifecycle, b) = life_join clock ''1'' (lifecycle, b)
      in so_generation (sh_state a2) = so_generation saved_state \<and>
        (case send_snapshot a2 b clock of None \<Rightarrow> False | Some (b, result) \<Rightarrow> result = Accepted \<and>
           map_option (age \<circ> sv_generation) (get_view b ''1'') = Some 5 \<and>
           map_option (ts_counter \<circ> sv_value) (get_view b ''1'') = Some 5)))))"

definition life_09_fast_restart_before_node_left :: bool where
  "life_09_fast_restart_before_node_left \<longleftrightarrow>
     (let (clock, a) = (shard_test_clock, fst (apply_mutation (rd shard_test_clock) (set_counter 10) (\<lambda>s. s)
            (life_make_shard ''1'' shard_test_clock)));
          (lifecycle, b) = life_join clock ''1'' (lifecycle_new, life_make_shard ''2'' clock)
      in case send_snapshot a b clock of None \<Rightarrow> False | Some (b, _) \<Rightarrow>
     (let (clock2, a2) = (test_clock_advance (from_millis 1) shard_test_clock,
            life_make_shard ''1'' (test_clock_advance (from_millis 1) shard_test_clock));
          (lifecycle, b) = life_join clock ''1'' (lifecycle, b)
      in case send_snapshot a2 b clock of None \<Rightarrow> False | Some (b, result) \<Rightarrow> result = Accepted \<and>
        (case get_view b ''1'' of None \<Rightarrow> False | Some b_view \<Rightarrow>
           incarnation (sv_generation b_view) > incarnation (so_generation (sh_state a)) \<or>
           incarnation (sv_generation b_view) = incarnation (so_generation (sh_state a2)))))"

definition life_10_late_node_left_after_rejoin :: bool where
  "life_10_late_node_left_after_rejoin \<longleftrightarrow>
     (let (clock, a) = (shard_test_clock, life_make_shard ''1'' shard_test_clock);
          (lifecycle, b) = life_join clock ''1'' (lifecycle_new, life_make_shard ''2'' clock)
      in case send_snapshot a b clock of None \<Rightarrow> False | Some (b, _) \<Rightarrow> view_count b = 2 \<and>
     (let (clock2, a2) = (test_clock_advance (from_millis 100) shard_test_clock,
            life_make_shard ''1'' (test_clock_advance (from_millis 100) shard_test_clock));
          (lifecycle, b) = life_join clock ''1'' (lifecycle, b)
      in case send_snapshot a2 b clock of None \<Rightarrow> False | Some (b, _) \<Rightarrow> view_count b = 2 \<and>
     (let (lifecycle, b) = fst (ll_on_node_left ''1'' (lifecycle, b))
      in view_count b = 1 \<and> \<not> hm_contains_key (shard_snapshot b) ''1'' \<and>
     (let (lifecycle, b) = life_join clock ''1'' (lifecycle, b)
      in ll_should_accept_from lifecycle ''1'' \<and>
        (case send_snapshot a2 b clock of None \<Rightarrow> False | Some (b, _) \<Rightarrow>
           view_count b = 2 \<and> hm_contains_key (shard_snapshot b) ''1'')))))"

text \<open>Node 1 has the snapshot of node 3, then 30 seconds pass.\<close>

definition life_partition :: "(test_clock \<times> (test_state, test_state) shard_core) option" where
  "life_partition =
     (let (clock, lifecycle) = (shard_test_clock, lifecycle_new);
          (lifecycle, a) = life_join clock ''3'' (lifecycle, life_make_shard ''1'' clock)
      in case send_snapshot (life_make_shard ''3'' clock) a clock of None \<Rightarrow> None
         | Some (a, _) \<Rightarrow> Some (test_clock_advance (from_secs 30) clock, a))"

definition life_11_partitioned_peers_stale :: bool where
  "life_11_partitioned_peers_stale \<longleftrightarrow>
     (case life_partition of None \<Rightarrow> False | Some (clock, a) \<Rightarrow>
        list_ex (\<lambda>n. n = ''3'') (shard_stale_peers a (from_secs 10) (rd clock)))"

definition life_12_partition_recovery :: bool where
  "life_12_partition_recovery \<longleftrightarrow>
     (case life_partition of None \<Rightarrow> False | Some (clock, a) \<Rightarrow> shard_stale_peers a (from_secs 10) (rd clock) \<noteq> [] \<and>
       (case send_snapshot (fst (apply_mutation (rd clock) (set_counter 42) (\<lambda>s. s) (life_make_shard ''3'' clock))) a clock of
          None \<Rightarrow> False
        | Some (a, _) \<Rightarrow> shard_stale_peers a (from_secs 10) (rd clock) = [] \<and>
            map_option (ts_counter \<circ> sv_value) (get_view a ''3'') = Some 42))"

definition life_13_loose_freshness_during_partition :: bool where
  "life_13_loose_freshness_during_partition \<longleftrightarrow>
     (case life_partition of None \<Rightarrow> False | Some (clock, a) \<Rightarrow>
        shard_stale_peers a (from_secs 10) (rd clock) \<noteq> [] \<and>
        query_local a (from_secs 60) (rd clock) length = Fresh 2)"

subsection \<open>The tests pass\<close>

lemmas core_run = run
  expect_def expect_ok_def snap_lit_def set_counter_def add_counter_def set_both_def reporting_def bytes_of_def
  from_utf8_def no_push_strategy_def keep_stale_logic_def drop_and_wait_logic_def deserialize_v1_v2_def
  deserialize_v2_only_def deserialize_malformed_def mismatch_reason_def never_called_def life_make_shard_def
  send_snapshot_def life_join_def life_partition_def char_of_def bit_0

lemma sync_suite:
  "immediate_urgency_broadcasts_delta \<and> immediate_urgency_broadcasts_snapshot_for_simple \<and> default_urgency_active_push \<and>
   default_urgency_feed_lazy_pull \<and> default_urgency_no_push_mode \<and> delayed_urgency \<and> suppress_urgency \<and>
   immediate_overrides_feed_mode \<and> periodic_sync_configured \<and> periodic_sync_not_configured \<and>
   active_push_mutation_produces_broadcast \<and> feed_mode_mutation_produces_notify \<and> fresh_view_no_pull \<and>
   strategy_composition_feed_with_periodic \<and> strategy_composition_periodic_only \<and> immediate_overrides_any_strategy"
  by (simp_all add: core_run cong: exec_cong add:
      immediate_urgency_broadcasts_delta_def immediate_urgency_broadcasts_snapshot_for_simple_def
      default_urgency_active_push_def default_urgency_feed_lazy_pull_def default_urgency_no_push_mode_def
      delayed_urgency_def suppress_urgency_def immediate_overrides_feed_mode_def periodic_sync_configured_def
      periodic_sync_not_configured_def active_push_mutation_produces_broadcast_def
      feed_mode_mutation_produces_notify_def fresh_view_no_pull_def strategy_composition_feed_with_periodic_def
      strategy_composition_periodic_only_def immediate_overrides_any_strategy_def)

lemma accumulator_suite:
  "empty_flush_returns_none \<and> accumulate_and_flush \<and> flush_clears_buffer \<and> suppressed_deltas_accumulate_in_order"
  by (simp_all add: core_run cong: exec_cong add:
      empty_flush_returns_none_def accumulate_and_flush_def flush_clears_buffer_def
      suppressed_deltas_accumulate_in_order_def)

lemma feed_suite:
  "notify_dedup_keeps_highest \<and> flush_sends_batched_feed \<and> empty_pending_no_flush \<and> self_message_filtered \<and>
   cross_state_batching \<and> higher_incarnation_wins_dedup \<and> flush_clears_pending \<and> route_inbound_batch_routes_correctly \<and>
   inbound_batch_routes_to_correct_shards"
  by (simp_all add: core_run cong: exec_cong add:
      notify_dedup_keeps_highest_def flush_sends_batched_feed_def empty_pending_no_flush_def self_message_filtered_def
      cross_state_batching_def higher_incarnation_wins_dedup_def flush_clears_pending_def
      route_inbound_batch_routes_correctly_def inbound_batch_routes_to_correct_shards_def)

lemma versioning_suite:
  "ver_06_same_wire_version_sync_works \<and> ver_07_receiver_supports_older_wire_version \<and> ver_08_unknown_version_keep_stale \<and>
   ver_09_unknown_version_drop_and_wait \<and> ver_10_malformed_data_not_version_mismatch \<and> ver_11_on_deserialize_error_actions \<and>
   ver_12_phase1_read_both_send_old"
  "ver_13_phase2_switch_to_v2 \<and> ver_14_phase2_rollback_to_phase1 \<and> ver_15_phase3_v1_removed \<and>
   ver_16_persist_load_same_version \<and> ver_17_load_older_version_with_migration \<and>
   ver_18_load_unknown_version_fails_gracefully \<and> accessors"
  by (simp_all add: core_run cong: exec_cong add:
      ver_06_same_wire_version_sync_works_def ver_07_receiver_supports_older_wire_version_def
      ver_08_unknown_version_keep_stale_def ver_09_unknown_version_drop_and_wait_def
      ver_10_malformed_data_not_version_mismatch_def ver_11_on_deserialize_error_actions_def
      ver_12_phase1_read_both_send_old_def ver_13_phase2_switch_to_v2_def ver_14_phase2_rollback_to_phase1_def
      ver_15_phase3_v1_removed_def ver_16_persist_load_same_version_def ver_17_load_older_version_with_migration_def
      ver_18_load_unknown_version_fails_gracefully_def accessors_def)

lemma lifecycle_suite_join:
  "life_01_new_node_receives_snapshots" "life_02_existing_nodes_receive_new_node_snapshot" "life_03_join_with_multiple_state_types"
  by (simp_all add: core_run cong: exec_cong add:
      life_01_new_node_receives_snapshots_def life_02_existing_nodes_receive_new_node_snapshot_def
      life_03_join_with_multiple_state_types_def)

lemma lifecycle_suite_leave:
  "life_04_departed_node_removed" "life_05_inflight_from_departed_discarded" "life_06_leave_multiple_state_types"
  by (simp_all add: core_run cong: exec_cong add:
      life_04_departed_node_removed_def life_05_inflight_from_departed_discarded_def
      life_06_leave_multiple_state_types_def)

lemma lifecycle_suite_restart:
  "life_07_crash_restart_no_persistence" "life_08_crash_restart_with_persistence"
  by (simp_all add: core_run cong: exec_cong add:
      life_07_crash_restart_no_persistence_def life_08_crash_restart_with_persistence_def)

lemma lifecycle_suite_rejoin:
  "life_09_fast_restart_before_node_left" "life_10_late_node_left_after_rejoin"
  by (simp_all add: core_run cong: exec_cong add:
      life_09_fast_restart_before_node_left_def life_10_late_node_left_after_rejoin_def)

lemma lifecycle_suite_partition:
  "life_11_partitioned_peers_stale" "life_12_partition_recovery" "life_13_loose_freshness_during_partition"
  by (simp_all add: core_run cong: exec_cong add:
      life_11_partitioned_peers_stale_def life_12_partition_recovery_def life_13_loose_freshness_during_partition_def)

end
