(* ===== verification/Suite_Diagnostics.thy ===== *)
theory Suite_Diagnostics
  imports Suite_Exec
begin

text \<open>
  The unit tests of \<open>diagnostics.rs\<close>, run on the model; the three that read the log are left out. A time is \<open>now\<close> when the fixture
  has built the shard and \<open>later\<close> 30 seconds on.
\<close>

definition diag_make_shard :: "test_clock \<Rightarrow> (test_state, test_state) shard_core" where
  "diag_make_shard clock =
     (let state = new_state_object (ts 0 ''init'') (test_clock_unix_ms clock) (rd clock);
          view = so_value state
      in shard_new ''1'' state view (rd clock))"

definition diag_snap ::
    "test_clock \<Rightarrow> node_id \<Rightarrow> generation \<Rightarrow> test_state \<Rightarrow> (test_state, test_state) shard_core \<Rightarrow> (test_state, test_state) shard_core" where
  "diag_snap clock n gen view shard =
     fst (accept_inbound_snapshot (rd clock) (snap_lit n gen view (test_clock_unix_ms clock) (test_clock_unix_ms clock)) shard)"

definition diag_join :: "test_clock \<Rightarrow> node_id \<Rightarrow> (test_state, test_state) shard_core \<Rightarrow> (test_state, test_state) shard_core" where
  "diag_join clock n shard = shard_on_node_joined (rd clock) n (ts 0 '''') shard"

definition make_3_node_shard :: "test_clock \<Rightarrow> (test_state, test_state) shard_core" where
  "make_3_node_shard clock =
     diag_snap clock ''3'' (generation_new 200 3) (ts 3 ''node3'')
       (diag_snap clock ''2'' (generation_new 100 5) (ts 5 ''node2'')
         (diag_join clock ''3'' (diag_join clock ''2'' (diag_make_shard clock))))"

abbreviation now :: test_clock where
  "now \<equiv> shard_test_clock"

definition later :: test_clock where
  "later = test_clock_advance (from_secs 30) shard_test_clock"

abbreviation new_diag :: diagnostics_logic where
  "new_diag \<equiv> diagnostics_new ''test_state''"

text \<open>\<open>status.iter().find(|s| s.node_id == peer).unwrap()\<close>, on the shard of three nodes.\<close>

definition status_of :: "node_id \<Rightarrow> diagnostics_logic \<Rightarrow> peer_sync_status option" where
  "status_of peer diag = find (\<lambda>s. ps_node_id s = peer) (sync_status (make_3_node_shard now) diag)"

definition peer_failures :: "node_id \<Rightarrow> diagnostics_logic \<Rightarrow> u32 option" where
  "peer_failures peer diag = map_option pd_consecutive_failures (hm_get (d_peers diag) peer)"

subsection \<open>Peers\<close>

definition diag_01_sync_status_returns_all_peers :: bool where
  "diag_01_sync_status_returns_all_peers \<longleftrightarrow>
     (let ids = map ps_node_id (sync_status (make_3_node_shard now) new_diag)
      in length ids = 3 \<and> List.member ids ''1'' \<and> List.member ids ''2'' \<and> List.member ids ''3'')"

definition diag_02_consecutive_failures_increments :: bool where
  "diag_02_consecutive_failures_increments \<longleftrightarrow>
     map_option ps_consecutive_failures (status_of ''2''
       (record_sync_failure ''2'' ''connection refused'' (rd now)
         (record_sync_failure ''2'' ''timeout'' (rd now) (record_sync_failure ''2'' ''timeout'' (rd now) new_diag)))) = Some 3"

definition diag_03_failures_reset_on_success :: bool where
  "diag_03_failures_reset_on_success \<longleftrightarrow>
     (let diag = record_sync_failure ''2'' ''err2'' (rd now) (record_sync_failure ''2'' ''err1'' (rd now) new_diag);
          peer2 = status_of ''2'' (record_sync_success ''2'' 5 (rd now) diag)
      in peer_failures ''2'' diag = Some 2 \<and> map_option ps_consecutive_failures peer2 = Some 0 \<and> map_option ps_last_error peer2 = Some None)"

definition diag_04_latency_tracked :: bool where
  "diag_04_latency_tracked \<longleftrightarrow>
     map_option ps_last_sync_latency_ms (status_of ''2'' (record_sync_success ''2'' 42 (rd now) new_diag)) = Some (Some 42)"

definition diag_05_last_error_captured :: bool where
  "diag_05_last_error_captured \<longleftrightarrow>
     map_option ps_last_error (status_of ''3'' (record_sync_failure ''3'' ''connection timed out'' (rd now) new_diag)) =
       Some (Some ''connection timed out'')"

definition diag_06_gap_count_increments :: bool where
  "diag_06_gap_count_increments \<longleftrightarrow>
     map_option ps_gap_count (status_of ''2'' (record_gap_detected ''2'' (record_gap_detected ''2'' new_diag))) = Some 2"

subsection \<open>Counters\<close>

definition diag_07_total_mutations :: bool where
  "diag_07_total_mutations \<longleftrightarrow>
     m_total_mutations (d_metrics (fold (\<lambda>_. record_mutation) [(), (), (), (), ()] new_diag)) = 5"

definition diag_08_deltas_sent :: bool where
  "diag_08_deltas_sent \<longleftrightarrow>
     m_deltas_sent (d_metrics (record_delta_sent (record_delta_sent (record_delta_sent new_diag)))) = 3"

definition diag_09_deltas_suppressed :: bool where
  "diag_09_deltas_suppressed \<longleftrightarrow>
     m_deltas_suppressed (d_metrics (record_delta_suppressed (record_delta_suppressed new_diag))) = 2"

definition diag_10_deltas_immediate :: bool where
  "diag_10_deltas_immediate \<longleftrightarrow>
     m_deltas_immediate (d_metrics (record_delta_immediate (record_delta_immediate new_diag))) = 2"

definition diag_11_age_gaps_detected :: bool where
  "diag_11_age_gaps_detected \<longleftrightarrow> m_age_gaps_detected (d_metrics (record_gap_detected ''2'' new_diag)) = 1"

definition diag_12_stale_deltas_discarded :: bool where
  "diag_12_stale_deltas_discarded \<longleftrightarrow>
     m_stale_deltas_discarded (d_metrics (record_stale_delta_discarded (record_stale_delta_discarded new_diag))) = 2"

definition diag_13_sync_failures :: bool where
  "diag_13_sync_failures \<longleftrightarrow>
     m_sync_failures (d_metrics (record_sync_failure ''2'' ''timeout'' (rd now)
       (record_sync_failure ''3'' ''serde'' (rd now) (record_sync_failure ''2'' ''network'' (rd now) new_diag)))) = 3"

definition diag_25_remove_peer :: bool where
  "diag_25_remove_peer \<longleftrightarrow>
     (let diag = record_sync_failure ''2'' ''err'' (rd now) new_diag
      in length (d_peers diag) = 1 \<and> length (d_peers (diag_remove_peer ''2'' diag)) = 0)"

definition diag_26_inbound_resets_failures :: bool where
  "diag_26_inbound_resets_failures \<longleftrightarrow>
     (let diag = record_sync_failure ''2'' ''err2'' (rd now) (record_sync_failure ''2'' ''err1'' (rd now) new_diag);
          diag1 = record_delta_received ''2'' 5 (rd now) diag;
          diag2 = record_sync_failure ''2'' ''err3'' (rd now) diag1;
          diag3 = record_snapshot_received ''2'' 3 (rd now) diag2
      in peer_failures ''2'' diag = Some 2 \<and> peer_failures ''2'' diag1 = Some 0 \<and> m_deltas_received (d_metrics diag1) = 1 \<and>
         peer_failures ''2'' diag2 = Some 1 \<and> peer_failures ''2'' diag3 = Some 0 \<and> m_snapshots_received (d_metrics diag3) = 1)"

subsection \<open>Staleness and health\<close>

definition diag_14_stale_peers_filtered :: bool where
  "diag_14_stale_peers_filtered \<longleftrightarrow>
     shard_stale_peers (diag_snap later ''2'' (generation_new 100 6) (ts 6 ''node2'') (make_3_node_shard now)) (from_secs 10) (rd later) =
       [''3'']"

definition diag_15_all_fresh :: bool where
  "diag_15_all_fresh \<longleftrightarrow> shard_stale_peers (make_3_node_shard now) (from_secs 10) (rd now) = []"

abbreviation health_at :: "test_clock \<Rightarrow> (test_state, test_state) shard_core \<Rightarrow> diagnostics_logic \<Rightarrow> state_health" where
  "health_at clock shard diag \<equiv> diag_health_status shard (from_secs 10) (rd clock) diag"

definition diag_16_healthy :: bool where
  "diag_16_healthy \<longleftrightarrow>
     (let health = health_at now (make_3_node_shard now) new_diag
      in h_status health = Healthy \<and> h_healthy_peers health = 2 \<and> h_stale_peers health = 0)"

text \<open>The loops of the next tests: join, then a first snapshot of each peer.\<close>

definition diag_first :: "nat \<Rightarrow> (test_state, test_state) shard_core \<Rightarrow> (test_state, test_state) shard_core" where
  "diag_first i shard = diag_snap now (show_nat i) (generation_new (of_nat i * 100) 1) (ts 1 (''n'' @ show_nat i)) shard"

definition diag_peers :: "nat list \<Rightarrow> (test_state, test_state) shard_core" where
  "diag_peers ids = fold diag_first ids (fold (diag_join now) (map show_nat ids) (diag_make_shard now))"

definition diag_refresh :: "nat \<Rightarrow> (test_state, test_state) shard_core \<Rightarrow> (test_state, test_state) shard_core" where
  "diag_refresh i shard = diag_snap later (show_nat i) (generation_new (of_nat i * 100) 2) (ts 2 (''n'' @ show_nat i)) shard"

definition diag_17_degraded :: bool where
  "diag_17_degraded \<longleftrightarrow>
     (let health = health_at later (diag_refresh 3 (diag_refresh 2 (diag_peers [2, 3, 4]))) new_diag
      in h_status health = Degraded \<and> h_healthy_peers health = 2 \<and> h_stale_peers health = 1)"

definition diag_18_unhealthy :: bool where
  "diag_18_unhealthy \<longleftrightarrow>
     (let health = health_at later (make_3_node_shard now) new_diag
      in h_status health = Unhealthy \<and> h_stale_peers health = 2)"

definition diag_19_multiple_state_types :: bool where
  "diag_19_multiple_state_types \<longleftrightarrow>
     (let states = [health_at now (make_3_node_shard now) (diagnostics_new ''state_a''),
            health_at later (make_3_node_shard now) (diagnostics_new ''state_b'')]
      in map h_status states = [Healthy, Unhealthy] \<and> map h_state_name states = [''state_a'', ''state_b''])"

definition diag_23_single_node_healthy :: bool where
  "diag_23_single_node_healthy \<longleftrightarrow>
     (let health = health_at now (diag_make_shard now) new_diag
      in h_status health = Healthy \<and> h_healthy_peers health = 0 \<and> h_stale_peers health = 0 \<and> h_failing_peers health = 0)"

definition diag_24_disjoint_stale_and_failing :: bool where
  "diag_24_disjoint_stale_and_failing \<longleftrightarrow>
     (let health = health_at later
            (diag_refresh 5 (diag_refresh 3 (diag_refresh 2 (diag_peers [2, 3, 4, 5]))))
            (record_sync_failure ''5'' ''connection refused'' (rd later) new_diag)
      in h_healthy_peers health = 2 \<and> h_stale_peers health = 1 \<and> h_failing_peers health = 1 \<and> h_status health = Unhealthy)"

definition diag_27_stale_and_failing_overlap :: bool where
  "diag_27_stale_and_failing_overlap \<longleftrightarrow>
     (let health = health_at later (make_3_node_shard now) (record_sync_failure ''2'' ''timeout'' (rd later) new_diag)
      in h_stale_peers health = 2 \<and> h_failing_peers health = 1 \<and> h_healthy_peers health = 0 \<and> h_status health = Unhealthy)"

subsection \<open>The tests pass\<close>

lemmas diag_run = run
  expect_def expect_ok_def snap_lit_def set_counter_def add_counter_def set_both_def reporting_def bytes_of_def
  from_utf8_def diag_make_shard_def diag_snap_def diag_join_def make_3_node_shard_def later_def status_of_def
  peer_failures_def diag_first_def diag_peers_def diag_refresh_def

lemma diagnostics_suite_peers:
  "diag_01_sync_status_returns_all_peers" "diag_02_consecutive_failures_increments" "diag_03_failures_reset_on_success"
  "diag_04_latency_tracked" "diag_05_last_error_captured" "diag_06_gap_count_increments"
  by (simp_all add: diag_run cong: exec_cong add:
      diag_01_sync_status_returns_all_peers_def diag_02_consecutive_failures_increments_def
      diag_03_failures_reset_on_success_def diag_04_latency_tracked_def diag_05_last_error_captured_def
      diag_06_gap_count_increments_def)

lemma diagnostics_suite_counters:
  "diag_07_total_mutations" "diag_08_deltas_sent" "diag_09_deltas_suppressed" "diag_10_deltas_immediate"
  "diag_11_age_gaps_detected" "diag_12_stale_deltas_discarded" "diag_13_sync_failures" "diag_25_remove_peer"
  "diag_26_inbound_resets_failures"
  by (simp_all add: diag_run cong: exec_cong add:
      diag_07_total_mutations_def diag_08_deltas_sent_def diag_09_deltas_suppressed_def diag_10_deltas_immediate_def
      diag_11_age_gaps_detected_def diag_12_stale_deltas_discarded_def diag_13_sync_failures_def diag_25_remove_peer_def
      diag_26_inbound_resets_failures_def)

lemma diagnostics_suite_health:
  "diag_14_stale_peers_filtered" "diag_15_all_fresh" "diag_16_healthy" "diag_17_degraded" "diag_18_unhealthy"
  "diag_19_multiple_state_types" "diag_23_single_node_healthy" "diag_24_disjoint_stale_and_failing"
  "diag_27_stale_and_failing_overlap"
  by (simp_all add: diag_run cong: exec_cong add:
      diag_14_stale_peers_filtered_def diag_15_all_fresh_def diag_16_healthy_def diag_17_degraded_def
      diag_18_unhealthy_def diag_19_multiple_state_types_def diag_23_single_node_healthy_def
      diag_24_disjoint_stale_and_failing_def diag_27_stale_and_failing_overlap_def)

end
