(* ===== verification/Suite_Persistence.thy ===== *)
theory Suite_Persistence
  imports Suite_Base Persistence
begin

text \<open>
  The unit tests of \<open>persistence_startup_logic.rs\<close>, run on the model. A migration marked \<open>unreachable!()\<close> reports an error, which
  no outcome these tests expect carries.
\<close>

definition make_clock :: test_clock where
  "make_clock = test_clock_with_base 0 1700000000000"

definition unreachable_migration :: "'s \<Rightarrow> u32 \<Rightarrow> string + 's" where
  "unreachable_migration v from = Inl ''unreachable''"

text \<open>The method \<open>str::contains\<close>.\<close>

fun contains_str :: "string \<Rightarrow> string \<Rightarrow> bool" where
  "contains_str [] s \<longleftrightarrow> s = []"
| "contains_str (c # cs) s \<longleftrightarrow> take (length s) (c # cs) = s \<or> contains_str cs s"

definition loaded_lit :: "u64 \<Rightarrow> u64 \<Rightarrow> u32 \<Rightarrow> 's \<Rightarrow> i64 \<Rightarrow> i64 \<Rightarrow> 's state_object" where
  "loaded_lit inc ag ver v created modified = \<lparr>so_generation = generation_new inc ag, so_storage_version = ver, so_value = v,
     so_created_time = created, so_modified_time = modified\<rparr>"

subsection \<open>Incarnations\<close>

definition inc_04_fresh_startup_incarnation_from_clock :: bool where
  "inc_04_fresh_startup_incarnation_from_clock \<longleftrightarrow>
     (case initialize (startup_new 1) (Inr None) ''default'' (rd make_clock) unreachable_migration of
        FreshStart state \<Rightarrow> incarnation (so_generation state) = 1700000000000 \<and> age (so_generation state) = 0 \<and>
          so_storage_version state = 1 \<and> so_value state = ''default''
      | _ \<Rightarrow> False)"

definition inc_05_loaded_incarnation_preserved :: bool where
  "inc_05_loaded_incarnation_preserved \<longleftrightarrow>
     (case initialize (startup_new 1) (Inr (Some (loaded_lit 42 5 1 ''persisted'' 100 200))) ''default'' (rd make_clock)
             unreachable_migration of
        Restored state \<Rightarrow> so_generation state = generation_new 42 5 \<and> so_value state = ''persisted'' \<and>
          so_created_time state = 100 \<and> so_modified_time state = 200
      | _ \<Rightarrow> False)"

definition inc_06_migration_failure_new_incarnation :: bool where
  "inc_06_migration_failure_new_incarnation \<longleftrightarrow>
     (case initialize (startup_new 2) (Inr (Some (loaded_lit 42 5 1 ''old_data'' 100 200))) ''default'' (rd make_clock)
             (\<lambda>_ _. Inl ''migration not supported'') of
        FallbackToEmpty state reason \<Rightarrow> incarnation (so_generation state) > 42 \<and> age (so_generation state) = 0 \<and>
          so_value state = ''default'' \<and> contains_str reason ''migration not supported''
      | _ \<Rightarrow> False)"

definition inc_06b_migration_failure_incarnation_monotonic :: bool where
  "inc_06b_migration_failure_incarnation_monotonic \<longleftrightarrow>
     (case initialize (startup_new 2) (Inr (Some (loaded_lit 9999 5 1 ''old'' 50 60))) ''default'' (rd (test_clock_with_base 0 100))
             (\<lambda>_ _. Inl ''fail'') of
        FallbackToEmpty state reason \<Rightarrow> incarnation (so_generation state) > 9999
      | _ \<Rightarrow> False)"

lemma startup_suite_incarnation:
  "inc_04_fresh_startup_incarnation_from_clock" "inc_05_loaded_incarnation_preserved" "inc_06_migration_failure_new_incarnation"
  "inc_06b_migration_failure_incarnation_monotonic"
  by code_simp+

subsection \<open>Loading\<close>

definition persist_06_load_none_fresh_start :: bool where
  "persist_06_load_none_fresh_start \<longleftrightarrow>
     (let state = outcome_state (initialize (startup_new 1) (Inr None) (0 :: u64) (rd make_clock) unreachable_migration)
      in age (so_generation state) = 0 \<and> so_value state = 0)"

definition persist_11_load_error_fallback :: bool where
  "persist_11_load_error_fallback \<longleftrightarrow>
     (case initialize (startup_new 1) (Inl (StorageUnavailable ''disk full'')) ''empty'' (rd make_clock) unreachable_migration of
        FallbackToEmpty state reason \<Rightarrow> age (so_generation state) = 0 \<and> so_value state = ''empty'' \<and> contains_str reason ''disk full''
      | _ \<Rightarrow> False)"

definition persist_12_load_error_reason_captured :: bool where
  "persist_12_load_error_reason_captured \<longleftrightarrow>
     (case initialize (startup_new 1) (Inl (Io ''connection refused'')) ''empty'' (rd make_clock) unreachable_migration of
        FallbackToEmpty state reason \<Rightarrow> contains_str reason ''connection refused''
      | _ \<Rightarrow> False)"

definition persist_13_same_version_used_as_is :: bool where
  "persist_13_same_version_used_as_is \<longleftrightarrow>
     outcome_state (initialize (startup_new 1) (Inr (Some (loaded_lit 100 7 1 ''data_v1'' 500 600))) ''default'' (rd make_clock)
       unreachable_migration) = loaded_lit 100 7 1 ''data_v1'' 500 600"

lemma startup_suite_load:
  "persist_06_load_none_fresh_start" "persist_11_load_error_fallback" "persist_12_load_error_reason_captured"
  "persist_13_same_version_used_as_is"
  by code_simp+

subsection \<open>Migration\<close>

text \<open>The closure of the next test; its assertion on the version, when false, is an error.\<close>

definition migrate_from_v1 :: "string \<Rightarrow> u32 \<Rightarrow> string + string" where
  "migrate_from_v1 old_value old_version =
     (if old_version \<noteq> 1 then Inl ''assertion failed'' else Inr (''migrated_from_'' @ old_value))"

definition persist_14_different_version_triggers_migration :: bool where
  "persist_14_different_version_triggers_migration \<longleftrightarrow>
     (case initialize (startup_new 2) (Inr (Some (loaded_lit 100 7 1 ''old_format'' 500 600))) ''default'' (rd make_clock) migrate_from_v1 of
        Migrated state from_version \<Rightarrow> from_version = 1 \<and> so_value state = ''migrated_from_old_format'' \<and>
          so_generation state = generation_new 100 7 \<and> so_storage_version state = 2
      | _ \<Rightarrow> False)"

definition persist_15_migration_failure_fallback :: bool where
  "persist_15_migration_failure_fallback \<longleftrightarrow>
     (case initialize (startup_new 2) (Inr (Some (loaded_lit 100 7 1 ''old_data'' 500 600))) ''default'' (rd make_clock)
             (\<lambda>_ _. Inl ''incompatible schema'') of
        FallbackToEmpty state reason \<Rightarrow> age (so_generation state) = 0 \<and> so_value state = ''default'' \<and>
          contains_str reason ''incompatible schema'' \<and> incarnation (so_generation state) \<noteq> 100
      | _ \<Rightarrow> False)"

definition persist_16_migration_preserves_metadata :: bool where
  "persist_16_migration_preserves_metadata \<longleftrightarrow>
     (let state = outcome_state (initialize (startup_new 3) (Inr (Some (loaded_lit 42 10 2 (100 :: u64) 1000 2000))) 0
            (rd make_clock) (\<lambda>old_val _. Inr (old_val + 1)))
      in so_generation state = generation_new 42 10 \<and> so_created_time state = 1000 \<and> so_modified_time state = 2000 \<and>
         so_storage_version state = 3 \<and> so_value state = 101)"

lemma startup_suite_migration:
  "persist_14_different_version_triggers_migration" "persist_15_migration_failure_fallback"
  "persist_16_migration_preserves_metadata"
  by code_simp+

end
