(* ===== verification/Suite_Engine.thy ===== *)
theory Suite_Engine
  imports Suite_Exec
begin

text \<open>
  The unit tests of \<open>engine.rs\<close>, run on the model for every bincode that round-trips, with the evaluator of \<open>Suite_Exec\<close>. A panic of
  the engine fails a test. The fixture \<open>make_engine\<close> checks the wire version and hands the bytes to bincode, as \<open>TestState\<close>
  itself does. The test on malformed data needs one more fact of bincode: two bytes are not a \<open>TestState\<close>.
\<close>

definition make_engine :: "test_state bincode \<Rightarrow> node_id \<Rightarrow> test_clock \<Rightarrow> (test_state, test_state) engine" where
  "make_engine bc node_id clock =
     engine_new ''test_state'' node_id test_state_default (\<lambda>s. s) state_config_default 1 (rd clock)
       (bc_serialize bc) (versioned_deserialize 1 bc) None"

definition make_delta_engine ::
    "test_delta_view bincode \<Rightarrow> test_delta_view_delta bincode \<Rightarrow> node_id \<Rightarrow> test_clock \<Rightarrow>
     (f64 test_delta_inner, test_delta_view) engine" where
  "make_delta_engine bcv bcd node_id clock =
     engine_new ''test_delta_state'' node_id (test_delta_default (Finite 0)) test_delta_project_view state_config_default 1
       (rd clock) (bc_serialize bcv) (test_delta_deserialize_view bcv) (Some (test_delta_applier bcd))"

definition make_feed_engine :: "test_state bincode \<Rightarrow> node_id \<Rightarrow> test_clock \<Rightarrow> (test_state, test_state) engine" where
  "make_feed_engine bc node_id clock =
     engine_new ''test_state'' node_id test_state_default (\<lambda>s. s)
       (state_config_default\<lparr>sc_sync_strategy := feed_lazy_pull\<rparr>) 1 (rd clock)
       (bc_serialize bc) (versioned_deserialize 1 bc) None"

text \<open>The patterns the tests match the actions against.\<close>

fun is_snapshot_broadcast :: "engine_action list \<Rightarrow> bool" where
  "is_snapshot_broadcast [BroadcastSync (FullSnapshot _ _ _ _ _)] = True"
| "is_snapshot_broadcast _ = False"

fun is_delta_broadcast :: "engine_action list \<Rightarrow> bool" where
  "is_delta_broadcast [BroadcastSync (DeltaUpdate _ _ _ _ _)] = True"
| "is_delta_broadcast _ = False"

fun snapshot_request_to :: "engine_action list \<Rightarrow> node_id option" where
  "snapshot_request_to [SendSync target (RequestSnapshot _ _)] = Some target"
| "snapshot_request_to _ = None"

fun send_targets :: "engine_action list \<Rightarrow> node_id list" where
  "send_targets [] = []"
| "send_targets (SendSync target _ # actions) = target # send_targets actions"
| "send_targets (_ # actions) = send_targets actions"

subsection \<open>Construction and mutation\<close>

definition engine_initial_state :: "test_state bincode \<Rightarrow> bool" where
  "engine_initial_state bc \<longleftrightarrow>
     (let (engine, ()) = (make_engine bc ''1'' shard_test_clock, ())
      in eng_node_id engine = ''1'' \<and> eng_state_name engine = ''test_state'' \<and> eng_view_count engine = 1 \<and>
         ts_counter (so_value (eng_state engine)) = 0)"

definition mutate_active_push_broadcasts_snapshot :: "test_state bincode \<Rightarrow> bool" where
  "mutate_active_push_broadcasts_snapshot bc \<longleftrightarrow>
     (let (engine, result) = mutate (rd shard_test_clock) (\<lambda>s. s\<lparr>ts_counter := ts_counter s + 1, ts_label := ''updated''\<rparr>) (\<lambda>s. s)
            DefaultUrgency (make_engine bc ''1'' shard_test_clock)
      in age (mr_generation result) = 1 \<and> ts_counter (mr_view result) = 1 \<and> ts_label (mr_view result) = ''updated'' \<and>
         is_snapshot_broadcast (mr_actions result) \<and>
         em_total_mutations (metrics engine) = 1 \<and> em_snapshots_sent (metrics engine) = 1)"

definition mutate_suppress_no_actions :: "test_state bincode \<Rightarrow> bool" where
  "mutate_suppress_no_actions bc \<longleftrightarrow>
     (let (engine, result) = mutate (rd shard_test_clock) (add_counter 1) (\<lambda>s. s) SuppressUrgency (make_engine bc ''1'' shard_test_clock)
      in length (mr_actions result) = 0 \<and> em_deltas_suppressed (metrics engine) = 1)"

definition mutate_delayed_produces_scheduled_action :: "test_state bincode \<Rightarrow> bool" where
  "mutate_delayed_produces_scheduled_action bc \<longleftrightarrow>
     (let (engine, result) = mutate (rd shard_test_clock) (add_counter 1) (\<lambda>s. s) (Delayed (from_secs 5))
            (make_engine bc ''1'' shard_test_clock)
      in case mr_actions result of [ScheduleDelayed d _] \<Rightarrow> d = from_secs 5 | _ \<Rightarrow> False)"

definition mutate_feed_mode_notifies_change_feed :: "test_state bincode \<Rightarrow> bool" where
  "mutate_feed_mode_notifies_change_feed bc \<longleftrightarrow>
     (let (engine, result) = mutate (rd shard_test_clock) (add_counter 1) (\<lambda>s. s) DefaultUrgency
            (make_feed_engine bc ''1'' shard_test_clock)
      in mr_actions result = [] \<and> pending_change_feed_count engine = 1 \<and>
        (case snd (flush_change_feed engine) of None \<Rightarrow> False | Some feed \<Rightarrow>
           bf_source_node feed = ''1'' \<and> map cn_state_name (bf_notifications feed) = [''test_state'']))"

definition mutate_immediate_overrides_feed_mode :: "test_state bincode \<Rightarrow> bool" where
  "mutate_immediate_overrides_feed_mode bc \<longleftrightarrow>
     (let (engine, result) = mutate (rd shard_test_clock) (add_counter 1) (\<lambda>s. s) Immediate
            (make_feed_engine bc ''1'' shard_test_clock)
      in is_snapshot_broadcast (mr_actions result))"

text \<open>The delta mutations of the tests: a sum on the counter and the change reported.\<close>

definition delta_add ::
    "test_delta_view_delta bincode \<Rightarrow> i64 \<Rightarrow> string option \<Rightarrow> (f64 test_delta_inner, test_delta_view) engine \<Rightarrow>
     (f64 test_delta_inner, test_delta_view) engine \<times> (test_delta_view, test_delta_view_delta) delta_mutate_result" where
  "delta_add bcd n new_label engine =
     mutate_with_delta (rd shard_test_clock) (reporting (\<lambda>s. s\<lparr>td_counter := td_counter s + n\<rparr>) (td_change n new_label (Finite 0)))
       test_delta_project_view test_delta_project_delta DefaultUrgency (bc_serialize bcd) engine"

definition delta_mutate_broadcasts_delta ::
    "test_delta_view bincode \<Rightarrow> test_delta_view_delta bincode \<Rightarrow> bool" where
  "delta_mutate_broadcasts_delta bcv bcd \<longleftrightarrow>
     (let (engine, result) = delta_add bcd 5 None (make_delta_engine bcv bcd ''1'' shard_test_clock)
      in tv_counter (dmr_view result) = 5 \<and> tvd_counter_delta (dmr_view_delta result) = 5 \<and>
         is_delta_broadcast (dmr_actions result) \<and>
         em_deltas_sent (metrics engine) = 1 \<and> em_deltas_immediate (metrics engine) = 1)"

subsection \<open>Inbound snapshots\<close>

text \<open>An engine that has seen peers join, in this order, with the default view.\<close>

definition joined ::
    "node_id list \<Rightarrow> 'v \<Rightarrow> ('s, 'v) engine \<Rightarrow> engine_panic + ('s, 'v) engine" where
  "joined ns default_view engine =
     foldl (\<lambda>r n. case r of Inl p \<Rightarrow> Inl p
            | Inr e \<Rightarrow> (case on_node_joined (rd shard_test_clock) n default_view e of Inl p \<Rightarrow> Inl p | Inr (e, _) \<Rightarrow> Inr e))
       (Inr engine) ns"

definition inbound_snapshot_accepted :: "test_state bincode \<Rightarrow> bool" where
  "inbound_snapshot_accepted bc \<longleftrightarrow>
     (case joined [''2''] test_state_default (make_engine bc ''1'' shard_test_clock) of Inl _ \<Rightarrow> False | Inr engine \<Rightarrow>
     (case handle_inbound_sync (rd shard_test_clock)
             (FullSnapshot ''test_state'' ''2'' (generation_new 1000000 3) 1 (bc_serialize bc (ts 42 ''peer''))) engine of
        Inl _ \<Rightarrow> False
      | Inr (engine, actions) \<Rightarrow> actions = [] \<and>
          (case eng_get_view engine ''2'' of None \<Rightarrow> False | Some view \<Rightarrow>
             ts_counter (sv_value view) = 42 \<and> age (sv_generation view) = 3) \<and>
          em_snapshots_received (metrics engine) = 1))"

definition inbound_snapshot_wrong_state_name_ignored :: "test_state bincode \<Rightarrow> bool" where
  "inbound_snapshot_wrong_state_name_ignored bc \<longleftrightarrow>
     (case joined [''2''] test_state_default (make_engine bc ''1'' shard_test_clock) of Inl _ \<Rightarrow> False | Inr engine \<Rightarrow>
     (case handle_inbound_sync (rd shard_test_clock) (FullSnapshot ''other_state'' ''2'' (generation_new 1 1) 1 []) engine of
        Inl _ \<Rightarrow> False
      | Inr (engine, actions) \<Rightarrow> actions = [] \<and> em_snapshots_received (metrics engine) = 0))"

definition inbound_snapshot_departed_node_rejected :: "test_state bincode \<Rightarrow> bool" where
  "inbound_snapshot_departed_node_rejected bc \<longleftrightarrow>
     (case joined [''2''] test_state_default (make_engine bc ''1'' shard_test_clock) of Inl _ \<Rightarrow> False | Inr engine \<Rightarrow>
     (case handle_inbound_sync (rd shard_test_clock)
             (FullSnapshot ''test_state'' ''2'' (generation_new 1 1) 1 (bc_serialize bc (ts 99 ''ghost''))) (on_node_left ''2'' engine) of
        Inl _ \<Rightarrow> False
      | Inr (engine, actions) \<Rightarrow> actions = [] \<and> eng_get_view engine ''2'' = None))"

definition inbound_snapshot_version_mismatch :: "test_state bincode \<Rightarrow> bool" where
  "inbound_snapshot_version_mismatch bc \<longleftrightarrow>
     (case joined [''2''] test_state_default (make_engine bc ''1'' shard_test_clock) of Inl _ \<Rightarrow> False | Inr engine \<Rightarrow>
     (case handle_inbound_sync (rd shard_test_clock) (FullSnapshot ''test_state'' ''2'' (generation_new 1 1) 99 [1, 2, 3]) engine of
        Inl _ \<Rightarrow> False
      | Inr (engine, actions) \<Rightarrow> actions = [] \<and> em_sync_failures (metrics engine) = 1))"

definition inbound_snapshot_malformed_data :: "test_state bincode \<Rightarrow> bool" where
  "inbound_snapshot_malformed_data bc \<longleftrightarrow>
     (case joined [''2''] test_state_default (make_engine bc ''1'' shard_test_clock) of Inl _ \<Rightarrow> False | Inr engine \<Rightarrow>
     (case handle_inbound_sync (rd shard_test_clock) (FullSnapshot ''test_state'' ''2'' (generation_new 1 1) 1 [0xFF, 0xFF]) engine of
        Inl _ \<Rightarrow> False
      | Inr (engine, actions) \<Rightarrow> actions = [] \<and> em_sync_failures (metrics engine) = 1))"

subsection \<open>Inbound deltas\<close>

text \<open>The setting of the delta tests: node 2 has joined and its view at a generation has been accepted.\<close>

definition delta_peer ::
    "test_delta_view bincode \<Rightarrow> test_delta_view_delta bincode \<Rightarrow> generation \<Rightarrow> test_delta_view \<Rightarrow>
     engine_panic + (f64 test_delta_inner, test_delta_view) engine" where
  "delta_peer bcv bcd gen view =
     (case joined [''2''] (tv 0 '''') (make_delta_engine bcv bcd ''1'' shard_test_clock) of Inl p \<Rightarrow> Inl p | Inr engine \<Rightarrow>
     (case handle_inbound_sync (rd shard_test_clock) (FullSnapshot ''test_delta_state'' ''2'' gen 1 (bc_serialize bcv view)) engine of
        Inl p \<Rightarrow> Inl p | Inr (engine, _) \<Rightarrow> Inr engine))"

definition inbound_delta_applied :: "test_delta_view bincode \<Rightarrow> test_delta_view_delta bincode \<Rightarrow> bool" where
  "inbound_delta_applied bcv bcd \<longleftrightarrow>
     (case delta_peer bcv bcd (generation_new 1000000 1) (tv 10 ''peer'') of Inl _ \<Rightarrow> False | Inr engine \<Rightarrow>
     (case handle_inbound_sync (rd shard_test_clock) (DeltaUpdate ''test_delta_state'' ''2'' (generation_new 1000000 2) 1
             (bc_serialize bcd \<lparr>tvd_counter_delta = 5, tvd_new_label = None\<rparr>)) engine of
        Inl _ \<Rightarrow> False
      | Inr (engine, actions) \<Rightarrow> actions = [] \<and>
          map_option (tv_counter \<circ> sv_value) (eng_get_view engine ''2'') = Some 15 \<and>
          em_deltas_received (metrics engine) = 1))"

definition inbound_delta_without_applier_requests_snapshot :: "test_state bincode \<Rightarrow> bool" where
  "inbound_delta_without_applier_requests_snapshot bc \<longleftrightarrow>
     (case joined [''2''] test_state_default (make_engine bc ''1'' shard_test_clock) of Inl _ \<Rightarrow> False | Inr engine \<Rightarrow>
     (case handle_inbound_sync (rd shard_test_clock) (DeltaUpdate ''test_state'' ''2'' (generation_new 1 1) 1 [1, 2, 3]) engine of
        Inl _ \<Rightarrow> False
      | Inr (engine, actions) \<Rightarrow> snapshot_request_to actions = Some ''2''))"

definition inbound_delta_gap_requests_snapshot :: "test_delta_view bincode \<Rightarrow> test_delta_view_delta bincode \<Rightarrow> bool" where
  "inbound_delta_gap_requests_snapshot bcv bcd \<longleftrightarrow>
     (case delta_peer bcv bcd (generation_new 1000000 1) (tv 10 ''peer'') of Inl _ \<Rightarrow> False | Inr engine \<Rightarrow>
     (case handle_inbound_sync (rd shard_test_clock) (DeltaUpdate ''test_delta_state'' ''2'' (generation_new 1000000 5) 1
             (bc_serialize bcd \<lparr>tvd_counter_delta = 1, tvd_new_label = None\<rparr>)) engine of
        Inl _ \<Rightarrow> False
      | Inr (engine, actions) \<Rightarrow> snapshot_request_to actions \<noteq> None \<and> em_age_gaps_detected (metrics engine) = 1))"

definition eng_inbound_delta_stale_discarded :: "test_delta_view bincode \<Rightarrow> test_delta_view_delta bincode \<Rightarrow> bool" where
  "eng_inbound_delta_stale_discarded bcv bcd \<longleftrightarrow>
     (case delta_peer bcv bcd (generation_new 1000000 5) (tv 50 ''peer'') of Inl _ \<Rightarrow> False | Inr engine \<Rightarrow>
     (case handle_inbound_sync (rd shard_test_clock) (DeltaUpdate ''test_delta_state'' ''2'' (generation_new 1000000 3) 1
             (bc_serialize bcd \<lparr>tvd_counter_delta = 1, tvd_new_label = None\<rparr>)) engine of
        Inl _ \<Rightarrow> False
      | Inr (engine, actions) \<Rightarrow> actions = [] \<and> em_stale_deltas_discarded (metrics engine) = 1 \<and>
          map_option (tv_counter \<circ> sv_value) (eng_get_view engine ''2'') = Some 50))"

definition inbound_delta_wrong_wire_version_rejected ::
    "test_delta_view bincode \<Rightarrow> test_delta_view_delta bincode \<Rightarrow> bool" where
  "inbound_delta_wrong_wire_version_rejected bcv bcd \<longleftrightarrow>
     (case delta_peer bcv bcd (generation_new 1000000 1) (tv 10 ''p'') of Inl _ \<Rightarrow> False | Inr engine \<Rightarrow>
     (case handle_inbound_sync (rd shard_test_clock)
             (DeltaUpdate ''test_delta_state'' ''2'' (generation_new 1000000 2) 99 [1, 2, 3]) engine of
        Inl _ \<Rightarrow> False
      | Inr (engine, actions) \<Rightarrow> actions = [] \<and> em_sync_failures (metrics engine) = 1))"

subsection \<open>Requests, feeds, lifecycle, queries\<close>

definition request_snapshot_sends_own_view :: "test_state bincode \<Rightarrow> bool" where
  "request_snapshot_sends_own_view bc \<longleftrightarrow>
     (case handle_inbound_sync (rd shard_test_clock) (RequestSnapshot ''test_state'' ''2'')
             (fst (mutate (rd shard_test_clock) (set_counter 42) (\<lambda>s. s) DefaultUrgency (make_engine bc ''1'' shard_test_clock))) of
        Inr (engine, [SendSync target (FullSnapshot _ _ _ _ data)]) \<Rightarrow> target = ''2'' \<and>
          (case bc_deserialize bc data of Inl _ \<Rightarrow> False | Inr view \<Rightarrow> ts_counter view = 42)
      | _ \<Rightarrow> False)"

text \<open>A feed engine that holds a real view of each peer, as the next tests prepare it.\<close>

definition feed_peer ::
    "test_state bincode \<Rightarrow> node_id \<Rightarrow> test_state \<Rightarrow> (test_state, test_state) engine \<Rightarrow>
     engine_panic + (test_state, test_state) engine" where
  "feed_peer bc n view engine =
     (case handle_inbound_sync (rd shard_test_clock)
             (FullSnapshot ''test_state'' n (generation_new 1000000 1) 1 (bc_serialize bc view)) engine of
        Inl p \<Rightarrow> Inl p | Inr (engine, _) \<Rightarrow> Inr engine)"

definition feed_lit :: "node_id \<Rightarrow> generation \<Rightarrow> batched_change_feed" where
  "feed_lit n gen = \<lparr>bf_source_node = n, bf_notifications =
     [\<lparr>cn_state_name = ''test_state'', cn_source_node = n, cn_generation = gen\<rparr>]\<rparr>"

definition change_feed_marks_stale :: "test_state bincode \<Rightarrow> bool" where
  "change_feed_marks_stale bc \<longleftrightarrow>
     (case joined [''2''] test_state_default (make_feed_engine bc ''1'' shard_test_clock) of Inl _ \<Rightarrow> False | Inr engine \<Rightarrow>
     (case feed_peer bc ''2'' (ts 1 ''x'') engine of Inl _ \<Rightarrow> False | Inr engine \<Rightarrow>
     (case query (rd (test_clock_advance (from_secs 10) shard_test_clock)) (from_millis 1)
             (\<lambda>views. map_option (ts_counter \<circ> sv_value) (hm_get views ''2''))
             (handle_inbound_change_feed (feed_lit ''2'' (generation_new 1000000 5)) engine) of
        (EngineStale _ _, actions) \<Rightarrow> actions \<noteq> []
      | _ \<Rightarrow> False)))"

definition node_joined_sends_snapshot :: "test_state bincode \<Rightarrow> bool" where
  "node_joined_sends_snapshot bc \<longleftrightarrow>
     (case on_node_joined (rd shard_test_clock) ''2'' test_state_default
             (fst (mutate (rd shard_test_clock) (set_counter 10) (\<lambda>s. s) DefaultUrgency (make_engine bc ''1'' shard_test_clock))) of
        Inr (engine, [SendSync target (FullSnapshot _ _ _ _ _)]) \<Rightarrow> target = ''2'' \<and> eng_view_count engine = 2
      | _ \<Rightarrow> False)"

definition node_left_removes_view :: "test_state bincode \<Rightarrow> bool" where
  "node_left_removes_view bc \<longleftrightarrow>
     (case joined [''2''] test_state_default (make_engine bc ''1'' shard_test_clock) of Inl _ \<Rightarrow> False | Inr engine \<Rightarrow>
       eng_view_count engine = 2 \<and>
       (let (engine, ()) = (on_node_left ''2'' engine, ())
        in eng_view_count engine = 1 \<and> eng_get_view engine ''2'' = None \<and> \<not> eng_should_accept_from engine ''2''))"

definition query_fresh_returns_all_views :: "test_state bincode \<Rightarrow> bool" where
  "query_fresh_returns_all_views bc \<longleftrightarrow>
     query (rd shard_test_clock) (from_secs 60) (\<lambda>views. map_option (ts_counter \<circ> sv_value) (hm_get views ''1''))
       (fst (mutate (rd shard_test_clock) (set_counter 100) (\<lambda>s. s) DefaultUrgency (make_engine bc ''1'' shard_test_clock))) =
     (EngineFresh (Some 100), [])"

definition periodic_sync_broadcasts_snapshot :: "test_state bincode \<Rightarrow> bool" where
  "periodic_sync_broadcasts_snapshot bc \<longleftrightarrow>
     (case periodic_sync (fst (mutate (rd shard_test_clock) (set_counter 5) (\<lambda>s. s) SuppressUrgency
             (engine_new ''test_state'' ''1'' test_state_default (\<lambda>s. s)
               (state_config_default\<lparr>sc_sync_strategy := periodic_only (from_secs 30)\<rparr>) 1 (rd shard_test_clock)
               (bc_serialize bc) (\<lambda>b _. case bc_deserialize bc b of Inr x \<Rightarrow> Inr x | Inl e \<Rightarrow> Inl (Malformed e)) None))) of
        Inl _ \<Rightarrow> False
      | Inr (engine, actions) \<Rightarrow> is_snapshot_broadcast actions)"

definition periodic_sync_returns_empty_when_not_configured :: "test_state bincode \<Rightarrow> bool" where
  "periodic_sync_returns_empty_when_not_configured bc \<longleftrightarrow>
     (case periodic_sync (make_engine bc ''1'' shard_test_clock) of Inl _ \<Rightarrow> False | Inr (engine, actions) \<Rightarrow> actions = [])"

definition health_status_with_no_peers :: "test_state bincode \<Rightarrow> bool" where
  "health_status_with_no_peers bc \<longleftrightarrow>
     (let (h, ()) = (health (rd shard_test_clock) (from_secs 60) (make_engine bc ''1'' shard_test_clock), ())
      in eh_status h = EngineHealthy \<and> eh_stale_peers h = 0)"

text \<open>One turn of the loop of the next test.\<close>

definition bump :: "(test_state, test_state) engine \<Rightarrow> (test_state, test_state) engine" where
  "bump engine = fst (mutate (rd shard_test_clock) (add_counter 1) (\<lambda>s. s) DefaultUrgency engine)"

definition metrics_track_mutations :: "test_state bincode \<Rightarrow> bool" where
  "metrics_track_mutations bc \<longleftrightarrow>
     (let (m, ()) = (metrics (fold (\<lambda>_. bump) [(), (), (), (), ()] (make_engine bc ''1'' shard_test_clock)), ())
      in em_total_mutations m = 5 \<and> em_snapshots_sent m = 5)"

subsection \<open>Two engines\<close>

definition full_round_trip_two_engines :: "test_state bincode \<Rightarrow> bool" where
  "full_round_trip_two_engines bc \<longleftrightarrow>
     (case joined [''2''] test_state_default (make_engine bc ''1'' shard_test_clock) of Inl _ \<Rightarrow> False | Inr engine1 \<Rightarrow>
     (case joined [''1''] test_state_default (make_engine bc ''2'' shard_test_clock) of Inl _ \<Rightarrow> False | Inr engine2 \<Rightarrow>
     (case mr_actions (snd (mutate (rd shard_test_clock) (set_both 42 ''hello'') (\<lambda>s. s) DefaultUrgency engine1)) of
        [BroadcastSync msg] \<Rightarrow>
          (case handle_inbound_sync (rd shard_test_clock) msg engine2 of Inl _ \<Rightarrow> False | Inr (engine2, actions) \<Rightarrow> actions = [] \<and>
          (case eng_get_view engine2 ''1'' of None \<Rightarrow> False | Some view \<Rightarrow> sv_value view = ts 42 ''hello''))
      | _ \<Rightarrow> False)))"

text \<open>The second half of the next test: node 1 mutates again and node 2 receives the delta.\<close>

fun deliver_second_delta ::
    "test_delta_view_delta bincode \<Rightarrow> (f64 test_delta_inner, test_delta_view) engine \<Rightarrow>
     (f64 test_delta_inner, test_delta_view) engine \<times> engine_action list \<Rightarrow> bool" where
  "deliver_second_delta bcd engine1 (engine2, _) \<longleftrightarrow>
     (case dmr_actions (snd (delta_add bcd 3 None engine1)) of
        BroadcastSync msg # _ \<Rightarrow>
          (case handle_inbound_sync (rd shard_test_clock) msg engine2 of Inl _ \<Rightarrow> False
           | Inr r \<Rightarrow> snd r = [] \<and> map_option (tv_counter \<circ> sv_value) (eng_get_view (fst r) ''1'') = Some 13)
      | _ \<Rightarrow> False)"

fun deliver_first_snapshot ::
    "test_delta_view bincode \<Rightarrow> test_delta_view_delta bincode \<Rightarrow>
     (f64 test_delta_inner, test_delta_view) engine \<times> (test_delta_view, test_delta_view_delta) delta_mutate_result \<Rightarrow>
     (f64 test_delta_inner, test_delta_view) engine \<Rightarrow> bool" where
  "deliver_first_snapshot bcv bcd (engine1, result) engine2 \<longleftrightarrow>
     (case handle_inbound_sync (rd shard_test_clock)
             (FullSnapshot ''test_delta_state'' ''1'' (dmr_generation result) 1 (bc_serialize bcv (dmr_view result))) engine2 of
        Inl _ \<Rightarrow> False | Inr r \<Rightarrow> deliver_second_delta bcd engine1 r)"

definition delta_round_trip_two_engines :: "test_delta_view bincode \<Rightarrow> test_delta_view_delta bincode \<Rightarrow> bool" where
  "delta_round_trip_two_engines bcv bcd \<longleftrightarrow>
     (case joined [''2''] (tv 0 '''') (make_delta_engine bcv bcd ''1'' shard_test_clock) of Inl _ \<Rightarrow> False | Inr engine1 \<Rightarrow>
     (case joined [''1''] (tv 0 '''') (make_delta_engine bcv bcd ''2'' shard_test_clock) of Inl _ \<Rightarrow> False | Inr engine2 \<Rightarrow>
        deliver_first_snapshot bcv bcd (delta_add bcd 10 (Some ''updated'') engine1) engine2))"

subsection \<open>Departed nodes and dispatch\<close>

definition request_snapshot_rejected_from_departed_node :: "test_state bincode \<Rightarrow> bool" where
  "request_snapshot_rejected_from_departed_node bc \<longleftrightarrow>
     (case joined [''2''] test_state_default (make_engine bc ''1'' shard_test_clock) of Inl _ \<Rightarrow> False | Inr engine \<Rightarrow>
     (case handle_inbound_sync (rd shard_test_clock) (RequestSnapshot ''test_state'' ''2'') (on_node_left ''2'' engine) of
        Inl _ \<Rightarrow> False
      | Inr (engine, actions) \<Rightarrow> actions = [] \<and> em_snapshots_sent (metrics engine) = 1))"

definition change_feed_from_departed_node_ignored :: "test_state bincode \<Rightarrow> bool" where
  "change_feed_from_departed_node_ignored bc \<longleftrightarrow>
     (case joined [''2''] test_state_default (make_feed_engine bc ''1'' shard_test_clock) of Inl _ \<Rightarrow> False | Inr engine \<Rightarrow>
     (case feed_peer bc ''2'' (ts 1 ''x'') engine of Inl _ \<Rightarrow> False | Inr engine \<Rightarrow>
       \<not> List.member (send_targets (snd (query (rd (test_clock_advance (from_secs 60) shard_test_clock)) (from_millis 1) (\<lambda>_. ())
           (handle_inbound_change_feed (feed_lit ''2'' (generation_new 1000000 10)) (on_node_left ''2'' engine))))) ''2''))"

definition query_pull_skips_departed_peers :: "test_state bincode \<Rightarrow> bool" where
  "query_pull_skips_departed_peers bc \<longleftrightarrow>
     (case joined [''2'', ''3''] test_state_default (make_feed_engine bc ''1'' shard_test_clock) of Inl _ \<Rightarrow> False | Inr engine \<Rightarrow>
     (case feed_peer bc ''2'' (ts 2 ''n2'') engine of Inl _ \<Rightarrow> False | Inr engine \<Rightarrow>
     (case feed_peer bc ''3'' (ts 3 ''n3'') engine of Inl _ \<Rightarrow> False | Inr engine \<Rightarrow>
       (let (targets, ()) = (send_targets (snd (query (rd (test_clock_advance (from_secs 60) shard_test_clock)) (from_millis 1) (\<lambda>_. ())
              (handle_inbound_change_feed (feed_lit ''3'' (generation_new 1000000 5)) (on_node_left ''2'' engine)))), ())
        in List.member targets ''3'' \<and> \<not> List.member targets ''2''))))"

definition handle_inbound_wire_message_dispatches :: "test_state bincode \<Rightarrow> bool" where
  "handle_inbound_wire_message_dispatches bc \<longleftrightarrow>
     (case handle_inbound (rd shard_test_clock) (Sync (RequestSnapshot ''test_state'' ''2''))
             (make_engine bc ''1'' shard_test_clock) of
        Inl _ \<Rightarrow> False
      | Inr (engine, actions) \<Rightarrow> length actions = 1 \<and>
          (case handle_inbound (rd shard_test_clock) (Feed \<lparr>bf_source_node = ''2'', bf_notifications = []\<rparr>) engine of
             Inl _ \<Rightarrow> False | Inr (engine, actions) \<Rightarrow> actions = []))"

subsection \<open>The tests pass\<close>

lemmas engine_suite_run = run make_engine_def make_delta_engine_def make_feed_engine_def delta_add_def joined_def delta_peer_def feed_peer_def feed_lit_def bump_def
  reporting_def set_counter_def add_counter_def set_both_def

lemma engine_suite_mutate:
  assumes "bincode_ok bc" and "bincode_ok bcv" and "bincode_ok bcd"
  shows "engine_initial_state bc" "mutate_active_push_broadcasts_snapshot bc" "mutate_suppress_no_actions bc"
    "mutate_delayed_produces_scheduled_action bc" "mutate_feed_mode_notifies_change_feed bc"
    "mutate_immediate_overrides_feed_mode bc" "delta_mutate_broadcasts_delta bcv bcd"
  using assms by (simp_all add: bincode_ok_def engine_suite_run cong: exec_cong add:
       engine_initial_state_def mutate_active_push_broadcasts_snapshot_def mutate_suppress_no_actions_def
       mutate_delayed_produces_scheduled_action_def mutate_feed_mode_notifies_change_feed_def
       mutate_immediate_overrides_feed_mode_def delta_mutate_broadcasts_delta_def)

lemma engine_suite_snapshot:
  assumes "bincode_ok bc" and "bc_deserialize bc [0xFF, 0xFF] = Inl e"
  shows "inbound_snapshot_accepted bc" "inbound_snapshot_wrong_state_name_ignored bc"
    "inbound_snapshot_departed_node_rejected bc" "inbound_snapshot_version_mismatch bc" "inbound_snapshot_malformed_data bc"
  using assms by (simp_all add: bincode_ok_def engine_suite_run cong: exec_cong add:
       inbound_snapshot_accepted_def inbound_snapshot_wrong_state_name_ignored_def
       inbound_snapshot_departed_node_rejected_def inbound_snapshot_version_mismatch_def
       inbound_snapshot_malformed_data_def)

lemma engine_suite_delta:
  assumes "bincode_ok bc" and "bincode_ok bcv" and "bincode_ok bcd"
  shows "inbound_delta_without_applier_requests_snapshot bc" "inbound_delta_applied bcv bcd"
    "inbound_delta_gap_requests_snapshot bcv bcd" "eng_inbound_delta_stale_discarded bcv bcd"
    "inbound_delta_wrong_wire_version_rejected bcv bcd"
  using assms by (simp_all add: bincode_ok_def engine_suite_run cong: exec_cong add:
       inbound_delta_without_applier_requests_snapshot_def inbound_delta_applied_def
       inbound_delta_gap_requests_snapshot_def eng_inbound_delta_stale_discarded_def
       inbound_delta_wrong_wire_version_rejected_def)

lemma engine_suite_host:
  assumes "bincode_ok bc"
  shows "request_snapshot_sends_own_view bc" "change_feed_marks_stale bc" "node_joined_sends_snapshot bc"
    "node_left_removes_view bc" "query_fresh_returns_all_views bc" "periodic_sync_broadcasts_snapshot bc"
    "periodic_sync_returns_empty_when_not_configured bc" "health_status_with_no_peers bc" "metrics_track_mutations bc"
  using assms by (simp_all add: bincode_ok_def engine_suite_run cong: exec_cong add:
       request_snapshot_sends_own_view_def change_feed_marks_stale_def node_joined_sends_snapshot_def
       node_left_removes_view_def query_fresh_returns_all_views_def periodic_sync_broadcasts_snapshot_def
       periodic_sync_returns_empty_when_not_configured_def health_status_with_no_peers_def metrics_track_mutations_def)

lemma engine_suite_pair:
  assumes "bincode_ok bc" and "bincode_ok bcv" and "bincode_ok bcd"
  shows "full_round_trip_two_engines bc" "delta_round_trip_two_engines bcv bcd"
  using assms by (simp_all add: bincode_ok_def engine_suite_run cong: exec_cong add:
       full_round_trip_two_engines_def delta_round_trip_two_engines_def)

lemma engine_suite_departed:
  assumes "bincode_ok bc"
  shows "request_snapshot_rejected_from_departed_node bc" "change_feed_from_departed_node_ignored bc"
    "query_pull_skips_departed_peers bc" "handle_inbound_wire_message_dispatches bc"
  using assms by (simp_all add: bincode_ok_def engine_suite_run cong: exec_cong add:
       request_snapshot_rejected_from_departed_node_def change_feed_from_departed_node_ignored_def
       query_pull_skips_departed_peers_def handle_inbound_wire_message_dispatches_def)

end
