(* ===== verification/Suite_Integration.thy ===== *)
theory Suite_Integration
  imports Suite_Exec Cluster_Refinement
begin

text \<open>
  The unit tests of \<open>interceptor.rs\<close> and \<open>transport.rs\<close>, run on the model. The transport tests are functions of bincode on wire
  messages and hold for every such pair of functions that round-trips.
\<close>

unbundle bit_operations_syntax

subsection \<open>Interceptors\<close>

definition ctx_lit :: "u64 \<Rightarrow> u64 \<Rightarrow> intercept_context" where
  "ctx_lit t msg_id = \<lparr>ic_current_tick = t, ic_message_id = msg_id, ic_rng_seed = 42\<rparr>"

definition passthrough_delivers :: bool where
  "passthrough_delivers \<longleftrightarrow> pass_through ''1'' ''2'' (bytes_of ''hello'') (ctx_lit 0 0) = Deliver (bytes_of ''hello'')"

definition drop_all_drops :: bool where
  "drop_all_drops \<longleftrightarrow> drop_all ''1'' ''2'' (bytes_of ''hello'') (ctx_lit 0 0) = DropMsg"

text \<open>One turn of the loop of the next test, and a run of it: what happens to the messages 0 to 99.\<close>

definition drop_rate_at :: "drop_rate \<Rightarrow> nat \<Rightarrow> intercept_action" where
  "drop_rate_at dr i = drop_rate_intercept dr ''1'' ''2'' (bytes_of ''x'') (ctx_lit 0 (of_nat i))"

definition drop_rate_run :: "drop_rate \<Rightarrow> intercept_action list" where
  "drop_rate_run dr = map (drop_rate_at dr) [0..<100]"

fun is_deliver :: "intercept_action \<Rightarrow> bool" where
  "is_deliver (Deliver _) = True"
| "is_deliver _ = False"

definition drop_rate_deterministic :: bool where
  "drop_rate_deterministic \<longleftrightarrow>
     (case drop_rate_new (1 / 2) 12345 of Inl _ \<Rightarrow> False | Inr dr \<Rightarrow>
     (let actions = drop_rate_run dr;
          dropped = length (filter ((=) DropMsg) actions); delivered = length (filter is_deliver actions)
      in list_all (\<lambda>a. a = DropMsg \<or> is_deliver a) actions \<and> dropped > 0 \<and> delivered > 0 \<and>
        (case drop_rate_new (1 / 2) 12345 of Inl _ \<Rightarrow> False | Inr dr2 \<Rightarrow>
           dropped = length (filter ((=) DropMsg) (drop_rate_run dr2)))))"

definition symmetric_partition :: bool where
  "symmetric_partition \<longleftrightarrow>
     (let p = partition_intercept (partition_symmetric [''1''] [''2''])
      in p ''1'' ''2'' (bytes_of ''x'') (ctx_lit 0 0) = DropMsg \<and> p ''2'' ''1'' (bytes_of ''x'') (ctx_lit 0 1) = DropMsg \<and>
         is_deliver (p ''1'' ''3'' (bytes_of ''x'') (ctx_lit 0 2)))"

definition asymmetric_partition :: bool where
  "asymmetric_partition \<longleftrightarrow>
     (let p = partition_intercept (partition_asymmetric [''1''] [''2''])
      in p ''1'' ''2'' (bytes_of ''x'') (ctx_lit 0 0) = DropMsg \<and> is_deliver (p ''2'' ''1'' (bytes_of ''x'') (ctx_lit 0 1)))"

definition delay_ticks_test :: bool where
  "delay_ticks_test \<longleftrightarrow>
     (case delay_ticks_intercept 3 ''1'' ''2'' (bytes_of ''x'') (ctx_lit 0 0) of DelayMsg _ ticks \<Rightarrow> ticks = 3 | _ \<Rightarrow> False)"

definition duplicate_all_test :: bool where
  "duplicate_all_test \<longleftrightarrow>
     (case duplicate_all ''1'' ''2'' (bytes_of ''x'') (ctx_lit 0 0) of DeliverMany [a, b] \<Rightarrow> a = b | _ \<Rightarrow> False)"

definition count_ones :: "u8 \<Rightarrow> nat" where
  "count_ones w = length (filter (bit w) [0, 1, 2, 3, 4, 5, 6, 7])"

definition corrupt_bytes_flips_bit :: bool where
  "corrupt_bytes_flips_bit \<longleftrightarrow>
     (case corrupt_bytes_intercept 42 ''1'' ''2'' (bytes_of ''hello world'') (ctx_lit 0 0) of
        Deliver bs \<Rightarrow> bs \<noteq> bytes_of ''hello world'' \<and>
          sum_list (map (\<lambda>(a, b). count_ones (a XOR b)) (zip bs (bytes_of ''hello world''))) = 1
      | _ \<Rightarrow> False)"

lemma interceptor_suite:
  "passthrough_delivers" "drop_all_drops" "symmetric_partition" "asymmetric_partition" "delay_ticks_test" "duplicate_all_test"
  "corrupt_bytes_flips_bit"
  by code_simp+

text \<open>Message 0 is dropped and message 1 delivered; the two hashes are evaluated, and the rest is the shape of the interceptor.\<close>

lemma drop_hash:
  "splitmix64 12345 = 2454886589211414944" "splitmix64 12344 = 18133564086679993456"
  by code_simp+

lemma bit_length_step: "0 < n \<Longrightarrow> bit_length n = Suc (bit_length (n div 2))" "bit_length 0 = 0"
  by (subst bit_length.simps, simp)+

lemma drop_bit_length:
  "bit_length 2454886589211414944 = 62" "bit_length 18133564086679993456 = 64"
  by (simp_all add: bit_length_step)

lemma drop_unat:
  "unat (2454886589211414944 :: u64) = 2454886589211414944" "unat (18133564086679993456 :: u64) = 18133564086679993456"
  by simp_all

lemma drop_f64:
  "f64_of_u64 2454886589211414944 = 2454886589211415040" "f64_of_u64 18133564086679993456 = 18133564086679994368"
  unfolding f64_of_u64_def Let_def drop_unat drop_bit_length by simp_all

lemma drop_rate_first:
  "drop_rate_at \<lparr>dr_rate = 1 / 2, dr_seed = 12345\<rparr> 0 = DropMsg"
  "is_deliver (drop_rate_at \<lparr>dr_rate = 1 / 2, dr_seed = 12345\<rparr> 1)"
  by (simp_all add: drop_rate_at_def drop_rate_intercept_def drop_prob_def ctx_lit_def drop_hash drop_f64)

lemma drop_rate_shape: "drop_rate_at dr i = DropMsg \<or> is_deliver (drop_rate_at dr i)"
  by (simp add: drop_rate_at_def drop_rate_intercept_def)

lemma interceptor_suite_drop_rate: "drop_rate_deterministic"
proof -
  let ?dr = "\<lparr>dr_rate = 1 / 2, dr_seed = 12345\<rparr>"
  have "drop_rate_at ?dr 0 \<in> set (drop_rate_run ?dr)" "drop_rate_at ?dr 1 \<in> set (drop_rate_run ?dr)"
    by (simp_all add: drop_rate_run_def)
  then have "filter ((=) DropMsg) (drop_rate_run ?dr) \<noteq> []" "filter is_deliver (drop_rate_run ?dr) \<noteq> []"
    unfolding filter_empty_conv using drop_rate_first by auto
  moreover have "list_all (\<lambda>a. a = DropMsg \<or> is_deliver a) (drop_rate_run ?dr)"
    using drop_rate_shape by (auto simp: list_all_iff drop_rate_run_def)
  ultimately show ?thesis by (simp add: drop_rate_deterministic_def drop_rate_new_def Let_def)
qed

subsection \<open>Transport\<close>

definition test_msg :: wire_message where
  "test_msg = Sync (RequestSnapshot ''test'' ''1'')"

definition transport_with :: "interceptor list \<Rightarrow> mock_transport" where
  "transport_with is = fold add_interceptor is (transport_new 42)"

text \<open>\<open>advance_tick\<close> followed by \<open>deliver_due\<close>, as every test calls them.\<close>

definition next_due :: "wire_codec \<Rightarrow> mock_transport \<Rightarrow> mock_transport \<times> delivery_result" where
  "next_due cd t = deliver_due cd (advance_tick t)"

definition send_and_deliver :: "wire_codec \<Rightarrow> bool" where
  "send_and_deliver cd \<longleftrightarrow>
     (let transport = transport_send cd ''1'' ''2'' test_msg (transport_new 42);
          (transport, result) = deliver_due cd transport
      in res_delivered result = [] \<and>
     (let (transport, result) = next_due cd transport
      in map (\<lambda>d. (dm_from d, dm_to d)) (res_delivered result) = [(''1'', ''2'')]))"

definition broadcast_sends_to_all_except_self :: "wire_codec \<Rightarrow> bool" where
  "broadcast_sends_to_all_except_self cd \<longleftrightarrow>
     (let transport = transport_broadcast cd ''1'' test_msg [''1'', ''2'', ''3''] (transport_new 42)
      in in_flight_count transport = 2 \<and> length (res_delivered (snd (next_due cd transport))) = 2)"

definition drop_all_interceptor :: "wire_codec \<Rightarrow> bool" where
  "drop_all_interceptor cd \<longleftrightarrow>
     (let transport = transport_send cd ''1'' ''2'' test_msg (transport_with [boxed drop_all])
      in in_flight_count transport = 0 \<and> res_delivered (snd (next_due cd transport)) = [])"

definition delay_interceptor :: "wire_codec \<Rightarrow> bool" where
  "delay_interceptor cd \<longleftrightarrow>
     (let transport = transport_send cd ''1'' ''2'' test_msg (transport_with [boxed (delay_ticks_intercept 3)]);
          (transport, r1) = next_due cd transport;
          (transport, r2) = next_due cd transport;
          (transport, r3) = next_due cd transport;
          (transport, result) = next_due cd transport
      in res_delivered r1 = [] \<and> res_delivered r2 = [] \<and> res_delivered r3 = [] \<and> length (res_delivered result) = 1)"

definition duplicate_interceptor :: "wire_codec \<Rightarrow> bool" where
  "duplicate_interceptor cd \<longleftrightarrow>
     (let transport = transport_send cd ''1'' ''2'' test_msg (transport_with [boxed duplicate_all])
      in in_flight_count transport = 2 \<and> length (res_delivered (snd (next_due cd transport))) = 2)"

definition clear_interceptors_restores_clean_network :: "wire_codec \<Rightarrow> bool" where
  "clear_interceptors_restores_clean_network cd \<longleftrightarrow>
     (let transport = transport_send cd ''1'' ''2'' test_msg (transport_with [boxed drop_all])
      in in_flight_count transport = 0 \<and>
         in_flight_count (transport_send cd ''1'' ''2'' test_msg (clear_interceptors transport)) = 1)"

definition corrupted_message_detected :: "wire_codec \<Rightarrow> bool" where
  "corrupted_message_detected cd \<longleftrightarrow>
     (let msg = Sync (FullSnapshot ''test'' ''1'' (generation_new 1 1) 1 [1, 2, 3]);
          transport = transport_send cd ''1'' ''2'' msg (transport_with [boxed (corrupt_bytes_intercept 99)]);
          (transport, result) = next_due cd transport
      in length (res_delivered result) + length (res_corrupted result) = 1)"

definition duplicate_then_delay_preserves_both_copies :: "wire_codec \<Rightarrow> bool" where
  "duplicate_then_delay_preserves_both_copies cd \<longleftrightarrow>
     (let transport = transport_send cd ''1'' ''2'' test_msg
            (transport_with [boxed duplicate_all, boxed (delay_ticks_intercept 2)]);
          (transport, r1) = next_due cd transport;
          (transport, r2) = next_due cd transport;
          (transport, result) = next_due cd transport
      in res_delivered r1 = [] \<and> res_delivered r2 = [] \<and> length (res_delivered result) = 2)"

definition delay_zero_delivers_next_tick :: "wire_codec \<Rightarrow> bool" where
  "delay_zero_delivers_next_tick cd \<longleftrightarrow>
     (let transport = transport_send cd ''1'' ''2'' test_msg (transport_with [boxed (delay_ticks_intercept 0)]);
          (transport, result) = deliver_due cd transport
      in res_delivered result = [] \<and> length (res_delivered (snd (next_due cd transport))) = 1)"

definition drop_in_flight_for_node :: "wire_codec \<Rightarrow> bool" where
  "drop_in_flight_for_node cd \<longleftrightarrow>
     (let transport = transport_send cd ''3'' ''2'' test_msg (transport_send cd ''1'' ''2'' test_msg (transport_new 42));
          purged = drop_in_flight_for ''1'' transport
      in in_flight_count transport = 2 \<and> in_flight_count purged = 1 \<and>
         map dm_from (res_delivered (snd (next_due cd purged))) = [''3''])"

lemma transport_suite:
  assumes "wire_ok cd"
  shows "send_and_deliver cd" "broadcast_sends_to_all_except_self cd" "drop_all_interceptor cd" "delay_interceptor cd"
    "duplicate_interceptor cd" "clear_interceptors_restores_clean_network cd"
    "duplicate_then_delay_preserves_both_copies cd" "delay_zero_delivers_next_tick cd" "drop_in_flight_for_node cd"
  using assms
  by (simp_all add: send_and_deliver_def broadcast_sends_to_all_except_self_def drop_all_interceptor_def delay_interceptor_def
      duplicate_interceptor_def clear_interceptors_restores_clean_network_def duplicate_then_delay_preserves_both_copies_def
      delay_zero_delivers_next_tick_def drop_in_flight_for_node_def wire_ok_def transport_with_def next_due_def run)

lemma transport_suite_corruption: "corrupted_message_detected cd"
  by (simp add: corrupted_message_detected_def corrupt_bytes_intercept_def transport_with_def next_due_def run split: sum.splits)

end
