(* ===== verification/Suite_Cluster.thy ===== *)
theory Suite_Cluster
  imports Suite_Integration Suite_Exec
begin

text \<open>
  The unit tests of \<open>cluster.rs\<close>, run on the model for every bincode that round-trips on the state and on the wire messages, and
  every instant the clock of the cluster starts at, with the evaluator of \<open>Suite_Exec\<close>.
\<close>

type_synonym test_cluster = "(test_state, test_state) mock_cluster"

definition with_config :: "test_state bincode \<Rightarrow> wire_codec \<Rightarrow> instant \<Rightarrow> nat \<Rightarrow> cluster_panic + test_cluster" where
  "with_config bc cd start n = with_test_state bc cd start n state_config_default"

definition cluster_set ::
    "wire_codec \<Rightarrow> node_id \<Rightarrow> u64 \<Rightarrow> test_cluster \<Rightarrow> cluster_panic + test_cluster" where
  "cluster_set cd n v c = cluster_mutate cd n (\<lambda>s. s\<lparr>ts_counter := v\<rparr>) (\<lambda>s. s) DefaultUrgency c"

definition cluster_set_both ::
    "wire_codec \<Rightarrow> node_id \<Rightarrow> u64 \<Rightarrow> string \<Rightarrow> test_cluster \<Rightarrow> cluster_panic + test_cluster" where
  "cluster_set_both cd n v l c = cluster_mutate cd n (\<lambda>s. s\<lparr>ts_counter := v, ts_label := l\<rparr>) (\<lambda>s. s) DefaultUrgency c"

definition settled :: "wire_codec \<Rightarrow> test_cluster \<Rightarrow> cluster_panic + test_cluster" where
  "settled cd c = result_bind (settle cd c) (\<lambda>r. Inr (fst r))"

definition intercepted :: "interceptor \<Rightarrow> test_cluster \<Rightarrow> test_cluster" where
  "intercepted i c = c\<lparr>mc_transport := add_interceptor i (mc_transport c)\<rparr>"

text \<open>\<open>cluster.engine(observer).get_view(origin).unwrap().value\<close>\<close>

definition value_at :: "test_cluster \<Rightarrow> node_id \<Rightarrow> node_id \<Rightarrow> test_state option" where
  "value_at c observer origin =
     (case cluster_engine observer c of Inl _ \<Rightarrow> None | Inr e \<Rightarrow> map_option sv_value (eng_get_view e origin))"

text \<open>A test passes when no call panics and the last value is true.\<close>

definition passes :: "cluster_panic + bool \<Rightarrow> bool" where
  "passes r \<longleftrightarrow> r = Inr True"

definition create_cluster_with_test_state :: "test_state bincode \<Rightarrow> wire_codec \<Rightarrow> instant \<Rightarrow> bool" where
  "create_cluster_with_test_state bc cd start \<longleftrightarrow> passes
     (result_bind (with_config bc cd start 3) (\<lambda>c. Inr (cluster_node_count c = 3 \<and>
        list_all (\<lambda>n. (case cluster_engine n c of Inl _ \<Rightarrow> False | Inr e \<Rightarrow> eng_view_count e = 3)) [''0'', ''1'', ''2''])))"

definition mutate_and_settle_propagates_to_all :: "test_state bincode \<Rightarrow> wire_codec \<Rightarrow> instant \<Rightarrow> bool" where
  "mutate_and_settle_propagates_to_all bc cd start \<longleftrightarrow> passes
     (result_bind (with_config bc cd start 3) (\<lambda>c.
      result_bind (cluster_set_both cd ''0'' 42 ''hello'' c) (\<lambda>c.
      result_bind (settle cd c) (\<lambda>r. Inr (snd r > 0 \<and>
        list_all (\<lambda>n. value_at (fst r) n ''0'' = Some (ts 42 ''hello'')) [''0'', ''1'', ''2''])))))"

definition multiple_mutations_converge :: "test_state bincode \<Rightarrow> wire_codec \<Rightarrow> instant \<Rightarrow> bool" where
  "multiple_mutations_converge bc cd start \<longleftrightarrow> passes
     (result_bind (with_config bc cd start 3) (\<lambda>c.
      result_bind (cluster_set_both cd ''0'' 10 ''node0'' c) (\<lambda>c.
      result_bind (cluster_set_both cd ''1'' 20 ''node1'' c) (\<lambda>c.
      result_bind (cluster_set_both cd ''2'' 30 ''node2'' c) (\<lambda>c.
      result_bind (settled cd c) (\<lambda>c. Inr (
        list_all (\<lambda>n. value_at c n ''0'' = Some (ts 10 ''node0'') \<and> value_at c n ''1'' = Some (ts 20 ''node1'') \<and>
          value_at c n ''2'' = Some (ts 30 ''node2'')) [''0'', ''1'', ''2''])))))))"

definition node_removal_stops_message_delivery :: "test_state bincode \<Rightarrow> wire_codec \<Rightarrow> instant \<Rightarrow> bool" where
  "node_removal_stops_message_delivery bc cd start \<longleftrightarrow> passes
     (result_bind (with_config bc cd start 3) (\<lambda>c.
      result_bind (settled cd c) (\<lambda>c.
      let removed = remove_node ''2'' c in
      result_bind (cluster_set cd ''0'' 99 removed) (\<lambda>c.
      result_bind (settled cd c) (\<lambda>c.
        Inr (cluster_node_count removed = 2 \<and> map_option ts_counter (value_at c ''1'' ''0'') = Some 99))))))"

definition network_partition_prevents_propagation :: "test_state bincode \<Rightarrow> wire_codec \<Rightarrow> instant \<Rightarrow> bool" where
  "network_partition_prevents_propagation bc cd start \<longleftrightarrow> passes
     (result_bind (with_config bc cd start 3) (\<lambda>c.
      result_bind (settled cd c) (\<lambda>c.
      result_bind (cluster_set cd ''0'' 77
        (intercepted (boxed (partition_intercept (partition_symmetric [''0''] [''2'']))) c)) (\<lambda>c.
      result_bind (settled cd c) (\<lambda>c.
        Inr (map_option ts_counter (value_at c ''1'' ''0'') = Some 77 \<and> map_option ts_counter (value_at c ''2'' ''0'') = Some 0))))))"

definition partition_heal_allows_convergence :: "test_state bincode \<Rightarrow> wire_codec \<Rightarrow> instant \<Rightarrow> bool" where
  "partition_heal_allows_convergence bc cd start \<longleftrightarrow> passes
     (result_bind (with_config bc cd start 2) (\<lambda>c.
      result_bind (settled cd c) (\<lambda>c.
      result_bind (cluster_set cd ''0'' 100
        (intercepted (boxed (partition_intercept (partition_symmetric [''0''] [''1'']))) c)) (\<lambda>c.
      result_bind (settled cd c) (\<lambda>c1.
      result_bind (cluster_set cd ''0'' 200 (c1\<lparr>mc_transport := clear_interceptors (mc_transport c1)\<rparr>)) (\<lambda>c.
      result_bind (settled cd c) (\<lambda>c2.
        Inr (map_option ts_counter (value_at c1 ''1'' ''0'') = Some 0 \<and> map_option ts_counter (value_at c2 ''1'' ''0'') = Some 200))))))))"

definition settle_returns_tick_count :: "test_state bincode \<Rightarrow> wire_codec \<Rightarrow> instant \<Rightarrow> bool" where
  "settle_returns_tick_count bc cd start \<longleftrightarrow> passes
     (result_bind (with_config bc cd start 2) (\<lambda>c.
      result_bind (cluster_set cd ''0'' 1 c) (\<lambda>c.
      result_bind (settle cd c) (\<lambda>r. Inr (snd r \<ge> 1 \<and> snd r \<le> 10)))))"

definition duplicate_messages_handled_idempotently :: "test_state bincode \<Rightarrow> wire_codec \<Rightarrow> instant \<Rightarrow> bool" where
  "duplicate_messages_handled_idempotently bc cd start \<longleftrightarrow> passes
     (result_bind (with_config bc cd start 2) (\<lambda>c.
      result_bind (settled cd c) (\<lambda>c.
      result_bind (cluster_set cd ''0'' 42 (intercepted (boxed duplicate_all) c)) (\<lambda>c.
      result_bind (settled cd c) (\<lambda>c. Inr (map_option ts_counter (value_at c ''1'' ''0'') = Some 42))))))"

definition single_node_cluster_settles_immediately :: "test_state bincode \<Rightarrow> wire_codec \<Rightarrow> instant \<Rightarrow> bool" where
  "single_node_cluster_settles_immediately bc cd start \<longleftrightarrow> passes
     (result_bind (with_config bc cd start 1) (\<lambda>c.
      result_bind (cluster_set cd ''0'' 1 c) (\<lambda>c.
      result_bind (settle cd c) (\<lambda>r. Inr (snd r \<le> 20)))))"

definition hard_remove_purges_in_flight :: "test_state bincode \<Rightarrow> wire_codec \<Rightarrow> instant \<Rightarrow> bool" where
  "hard_remove_purges_in_flight bc cd start \<longleftrightarrow> passes
     (result_bind (with_config bc cd start 3) (\<lambda>c.
      result_bind (settled cd c) (\<lambda>c.
      result_bind (cluster_set cd ''0'' 42 c) (\<lambda>c.
        Inr (in_flight_count (mc_transport c) > 0 \<and> in_flight_count (mc_transport (remove_node_hard ''0'' c)) = 0)))))"

definition tick_n_advances_multiple_ticks :: "test_state bincode \<Rightarrow> wire_codec \<Rightarrow> instant \<Rightarrow> bool" where
  "tick_n_advances_multiple_ticks bc cd start \<longleftrightarrow> passes
     (result_bind (with_config bc cd start 2) (\<lambda>c.
      result_bind (tick_n cd 5 c) (\<lambda>c. Inr (mc_current_tick c = 5))))"

text \<open>The last test only reads the counter, so it passes when nothing panics, whatever the flipped bit makes of the messages.\<close>

definition corrupted_messages_tracked :: "test_state bincode \<Rightarrow> wire_codec \<Rightarrow> instant \<Rightarrow> bool" where
  "corrupted_messages_tracked bc cd start \<longleftrightarrow> passes
     (result_bind (with_config bc cd start 2) (\<lambda>c.
      result_bind (settled cd c) (\<lambda>c.
      result_bind (cluster_set cd ''0'' 1 (intercepted (boxed (corrupt_bytes_intercept 99)) c)) (\<lambda>c.
      result_bind (tick_n cd 5 c) (\<lambda>c. Inr (mc_corrupted_count c = mc_corrupted_count c))))))"

lemmas cluster_run_defs = run with_config_def cluster_set_def cluster_set_both_def settled_def intercepted_def value_at_def passes_def

lemma cluster_suite_propagation:
  assumes "bincode_ok bc" and "wire_ok cd"
  shows "create_cluster_with_test_state bc cd start" "mutate_and_settle_propagates_to_all bc cd start"
    "multiple_mutations_converge bc cd start"
  using assms
  by (simp_all add: bincode_ok_def wire_ok_def cluster_run_defs cong: exec_cong
      add: create_cluster_with_test_state_def
        mutate_and_settle_propagates_to_all_def
        multiple_mutations_converge_def)

lemma cluster_suite_faults:
  assumes "bincode_ok bc" and "wire_ok cd"
  shows "node_removal_stops_message_delivery bc cd start" "network_partition_prevents_propagation bc cd start"
    "partition_heal_allows_convergence bc cd start"
  using assms
  by (simp_all add: bincode_ok_def wire_ok_def cluster_run_defs cong: exec_cong
      add: node_removal_stops_message_delivery_def
        network_partition_prevents_propagation_def
        partition_heal_allows_convergence_def)

lemma cluster_suite_ticks:
  assumes "bincode_ok bc" and "wire_ok cd"
  shows "settle_returns_tick_count bc cd start" "duplicate_messages_handled_idempotently bc cd start"
    "single_node_cluster_settles_immediately bc cd start" "hard_remove_purges_in_flight bc cd start"
    "tick_n_advances_multiple_ticks bc cd start"
  using assms
  by (simp_all add: bincode_ok_def wire_ok_def cluster_run_defs cong: exec_cong
      add: settle_returns_tick_count_def
        duplicate_messages_handled_idempotently_def
        single_node_cluster_settles_immediately_def
        hard_remove_purges_in_flight_def
        tick_n_advances_multiple_ticks_def)

lemma corrupted_messages_tracked_passes:
  assumes "bincode_ok bc" and "wire_ok cd" shows "corrupted_messages_tracked bc cd start"
proof -
  let ?e = "\<lambda>i. test_state_engine bc state_config_default (rd (test_clock_with_base start 1000000)) i"
  let ?c0 = "cluster_new (test_clock_with_base start 1000000) (from_millis 100) 42 :: test_cluster"
  have e: "engine_wf (?e i)" "eng_node_id (?e i) = show_nat i" for i
    by (simp_all add: test_state_engine_def wf_intros) (simp add: engine_new_def shard_new_def Let_def)
  have "cluster_of {} ?c0"
    by (rule cluster_new_of [OF _ refl]) (simp add: tick_ms_def cluster_new_def as_millis_def from_millis_def)
  then obtain c1 where c1: "add_node cd (?e 0) test_state_default ?c0 = Inr c1" "cluster_of {''0''} c1"
    using add_node_ok [of "{}" ?c0 "?e 0" cd test_state_default] e by (auto simp: show_digits)
  then obtain c2 where c2: "add_node cd (?e 1) test_state_default c1 = Inr c2" "cluster_of {''1'', ''0''} c2"
    using add_node_ok [of "{''0''}" c1 "?e 1" cd test_state_default] e by (auto simp: show_digits)
  have start: "with_config bc cd start 2 = Inr c2"
    using c1(1) c2(1) by (simp add: with_config_def with_test_state_def upts Let_def)
  have "\<exists>c. result_bind (with_config bc cd start 2) (settled cd) = Inr c"
    using assms by (simp add: bincode_ok_def wire_ok_def cluster_run_defs cong: exec_cong)
  then obtain c3 n where c3: "settle cd c2 = Inr (c3, n)" by (auto simp: start settled_def result_bind_def split: sum.splits)
  then have of3: "cluster_of {''1'', ''0''} c3"
    using settle_loop_spec [OF c2(2), of cd 1000 1000 0] unfolding settle_def settle_with_limit_def by auto
  obtain c4 where c4: "cluster_set cd ''0'' 1 (intercepted (boxed (corrupt_bytes_intercept 99)) c3) = Inr c4"
      "cluster_of {''1'', ''0''} c4"
    using mutate_ok [of "{''1'', ''0''}" "intercepted (boxed (corrupt_bytes_intercept 99)) c3" "''0''" cd
        "\<lambda>s. s\<lparr>ts_counter := 1\<rparr>" "\<lambda>s. s" DefaultUrgency] of3
    by (auto simp: cluster_set_def intercepted_def)
  obtain c5 where "tick_n cd 5 c4 = Inr c5" using tick_n_ok [OF c4(2)] by blast
  then show ?thesis by (simp add: corrupted_messages_tracked_def passes_def start settled_def c3 c4(1))
qed

end
