(* ===== verification/Suite_Resource.thy ===== *)
theory Suite_Resource
  imports Node_Resource Suite_Base
begin

text \<open>
  The unit tests of \<open>examples/node_resource.rs\<close>, run on the model. The numbers they reach are exact in \<open>f64\<close>, which the kernel
  evaluates first.
\<close>

lemma exact_numbers:
  "round_to (quantum 3) 3 = 3" "round_to (quantum 50) 50 = 50" "round_to (quantum 120) 120 = 120" "round_to (quantum 60) 60 = 60"
  "round_to (quantum (1 / 2)) (1 / 2) = 1 / 2" "round_to (quantum 1073741824) 1073741824 = 1073741824"
  "round_to (quantum 3221225472) 3221225472 = 3221225472" "round_to (quantum 8589934592) 8589934592 = 8589934592"
  "round_to (quantum (1 / 8)) (1 / 8) = 1 / 8" "round_to (quantum (3 / 8)) (3 / 8) = 3 / 8"
  "round_to (quantum (25 / 2)) (25 / 2) = 25 / 2" "round_to (quantum (75 / 2)) (75 / 2) = 75 / 2" "round_to (quantum 25) 25 = 25"
  by code_simp+

lemma exact_f64:
  "f64_round 50 = Finite 50" "f64_round 120 = Finite 120" "f64_round 60 = Finite 60" "f64_round (1 / 2) = Finite (1 / 2)"
  "f64_round 1073741824 = Finite 1073741824" "f64_round 3221225472 = Finite 3221225472" "f64_round 8589934592 = Finite 8589934592"
  "f64_round (1 / 8) = Finite (1 / 8)" "f64_round (3 / 8) = Finite (3 / 8)" "f64_round (25 / 2) = Finite (25 / 2)"
  "f64_round (75 / 2) = Finite (75 / 2)" "f64_round 25 = Finite 25"
  by (rule f64_round_exactI; simp add: exact_numbers)+

definition project_view_hides_private_fields :: bool where
  "project_view_hides_private_fields \<longleftrightarrow>
     (let state = record_cpu_sample (Finite 70) (record_cpu_sample (Finite 50) node_resource_state_default);
          view = resource_project_view state
      in f64_eq (nv_cpu_usage_pct view) (Finite 60) \<and> nr_sample_count state = 2 \<and> f64_eq (nr_cpu_accumulator state) (Finite 120))"

definition apply_delta_memory_update :: bool where
  "apply_delta_memory_update \<longleftrightarrow>
     (let new_view = resource_apply_delta node_resource_view_default
            \<lparr>nd_cpu_usage_pct = None, nd_memory_used_bytes = Some (4 * 1024 * 1024 * 1024),
             nd_memory_total_bytes = Some (8 * 1024 * 1024 * 1024), nd_disk_used_bytes = None, nd_disk_total_bytes = None\<rparr>
      in nv_memory_used_bytes new_view = 4 * 1024 * 1024 * 1024 \<and> f64_eq (nv_cpu_usage_pct new_view) (Finite 0))"

definition memory_lit :: "u64 \<Rightarrow> node_resource_view" where
  "memory_lit used = node_resource_view_default\<lparr>nv_memory_used_bytes := used, nv_memory_total_bytes := 8 * 1024 * 1024 * 1024\<rparr>"

definition urgency_memory_spike_immediate :: bool where
  "urgency_memory_spike_immediate \<longleftrightarrow>
     resource_sync_urgency (memory_lit (1 * 1024 * 1024 * 1024)) (memory_lit (3 * 1024 * 1024 * 1024))
       (MemoryUpdate (3 * 1024 * 1024 * 1024) (8 * 1024 * 1024 * 1024)) = Immediate"

definition urgency_small_cpu_suppressed :: bool where
  "urgency_small_cpu_suppressed \<longleftrightarrow>
     resource_sync_urgency (node_resource_view_default\<lparr>nv_cpu_usage_pct := Finite 50\<rparr>)
       (node_resource_view_default\<lparr>nv_cpu_usage_pct := Finite (101 / 2)\<rparr>) (CpuSample (Finite (101 / 2))) = SuppressUrgency"

definition make_resource_view :: "instant \<Rightarrow> node_id \<Rightarrow> u64 \<Rightarrow> node_resource_view state_view_object" where
  "make_resource_view now node mem = \<lparr>sv_generation = generation_new 1 0, sv_wire_version = 1,
     sv_value = node_resource_view_default\<lparr>nv_memory_used_bytes := mem\<rparr>, sv_created_time = 0, sv_modified_time = 0,
     sv_synced_at = now, sv_pending_remote_generation = None, sv_source_node = node\<rparr>"

definition find_lowest_memory :: "instant \<Rightarrow> bool" where
  "find_lowest_memory now \<longleftrightarrow>
     find_lowest_memory_node
       (hm_insert ''node-2'' (make_resource_view now ''node-2'' 7000000000)
         (hm_insert ''node-1'' (make_resource_view now ''node-1'' 2000000000)
           (hm_insert ''node-0'' (make_resource_view now ''node-0'' 5000000000) []))) = Some ''node-1''"

lemma word_sizes:
  "unat (2 :: u64) = 2" "unat (1073741824 :: u64) = 1073741824" "unat (3221225472 :: u64) = 3221225472"
  "unat (8589934592 :: u64) = 8589934592"
  by simp_all

lemma resource_suite:
  "project_view_hides_private_fields" "apply_delta_memory_update" "urgency_memory_spike_immediate"
  "urgency_small_cpu_suppressed"
  by (simp_all add: project_view_hides_private_fields_def record_cpu_sample_def node_resource_state_default_def
      resource_project_view_def u64_as_f64_def exact_f64 f64_eq_def apply_delta_memory_update_def resource_apply_delta_def
      unwrap_or_def node_resource_view_default_def urgency_memory_spike_immediate_def memory_lit_def view_memory_usage_pct_def
      usage_pct_def memory_spike_threshold_pct_def f64_ge_def f64_less_def urgency_small_cpu_suppressed_def
      cpu_suppress_threshold_pct_def word_sizes)

lemma resource_suite_query: "find_lowest_memory now"
  by (simp add: find_lowest_memory_def find_lowest_memory_node_def make_resource_view_def hm_insert_def)

end
