(* ===== verification/Spec2Isabelle.thy ===== *)
theory Spec2Isabelle
  imports Persistence Registry Actor_System Cluster_Refinement In_Process Node_Resource Runtime_Support Messages
    Suite_Shard Suite_Core Suite_Diagnostics Suite_Persistence Suite_Engine Suite_Integration Suite_Cluster Suite_Resource
begin

text \<open>
  \<^bold>\<open>dstate: a verified model of the replicated-state crates\<close>

  \<^bold>\<open>The program.\<close> dstate replicates the state of every node of a cluster to all others. Each node owns one
  state per registered type, mutates it locally, and keeps a read-only view of the same state on every
  other node. A view carries a generation (incarnation of the process, age of the state); a node
  publishes a full snapshot or a delta after a mutation, or announces the generation in a batched change feed and lets
  the others pull. Three crates are modelled, and the two examples of the first:
  \<^item> \<open>dstate\<close>, the engine: pure logic in \<open>core/\<close>, composed by \<open>engine.rs\<close>. Operations return actions,
    which a shell carries out.
  \<^item> \<open>dstate-dactor\<close>, the production shell: an actor that owns an engine, routes its actions to peer
    actors and feeds inbound messages to it.
  \<^item> \<open>dstate-integration\<close>, the simulation shell: a cluster of engines in one process over a byte-level
    transport with fault injection and simulated time.

  \<^bold>\<open>Theories and what they model.\<close>
  \<^item> \<open>Prelude\<close>: words for the machine integers, the standard containers as association lists (\<open>hm_\<close> for
    \<open>HashMap\<close>, \<open>bt_\<close> for \<open>BTreeMap\<close>), results and their folds; the interfaces \<open>finite_map\<close> (interpreted on both
    containers), \<open>max_register\<close> (a keyed register that keeps the largest generation offered),
    \<open>invariant_machine\<close> (reachable states and an inductive invariant) and \<open>forward_simulation\<close> (a concrete
    machine whose steps are matched by runs of an abstract one).
  \<^item> \<open>Types\<close>: \<open>dstate/src/types/*.rs\<close>, the urgency hint of \<open>traits/state.rs\<close>, the clocks of \<open>traits/clock.rs\<close>.
    Generations are a linear order, as the \<open>Ord\<close> instance of the code.
  \<^item> \<open>View_Map\<close>: \<open>core/view_map.rs\<close>, the two-level map behind lock-free reads, with its cells in an
    explicit store because readers and the writer share them. Each operation refines an update of a
    partial map; the interface \<open>view_store\<close> is what the shard relies on.
  \<^item> \<open>Shard_Core\<close>: \<open>core/shard_core.rs\<close>, the state of one node and its views of the others: direct and
    two-phase mutations, inbound snapshots and deltas, staleness, queries, joins and departures.
  \<^item> \<open>Sync_Logic\<close>, \<open>Change_Feed\<close>, \<open>Versioning\<close>, \<open>Lifecycle\<close>, \<open>Diagnostics\<close>, \<open>Persistence\<close>: the remaining files of
    \<open>core/\<close> (\<open>delta_accumulator.rs\<close> is in \<open>Sync_Logic\<close>, the persistence trait and its test stores are in
    \<open>Persistence\<close>, under the interface \<open>state_persistence\<close>).
  \<^item> \<open>Engine\<close>: \<open>engine.rs\<close>, every public operation; \<open>engine_event\<close>, \<open>engine_apply\<close> and \<open>engine_run\<close> are the sequences
    of operations a shell can make.
  \<^item> \<open>Replication\<close>: a cluster of engines as a transition system over a network that loses, duplicates,
    reorders and delays; the ghost log of what each node published is its abstract specification.
  \<^item> \<open>Test_States\<close>: the trait \<open>DeltaDistributedState\<close> as an interface, interpreted on the state types of
    \<open>test_support/test_state.rs\<close>, and the replication theorems at those types.
  \<^item> \<open>Registry\<close>: \<open>registry.rs\<close>, with the contract of \<open>AnyStateShard\<close> as an interface.
  \<^item> \<open>Interceptor\<close>, \<open>Transport\<close>, \<open>Cluster\<close>: the three files of \<open>dstate-integration/src\<close>.
  \<^item> \<open>Membership\<close>: no code of its own; what additions and removals of nodes leave in the record of departed nodes of each member.
  \<^item> \<open>Propagation\<close>: no code of its own; a mutation followed end to end through cluster, transport and engine, to members that are
    ready for it.
  \<^item> \<open>Cluster_Refinement\<close>: no code of its own; the mock cluster as an implementation of the protocol of
    \<open>Replication\<close>, by interpreting \<open>forward_simulation\<close> with the set of all messages ever sent as the network. In the states it
    reaches the members accept each other and are ready for mutations, so that these reach everyone.
  \<^item> \<open>State_Actor\<close>: the two files of \<open>dstate-dactor/src\<close>.
  \<^item> \<open>Actor_System\<close>: no code of its own; a cluster of state actors over any runtime whose \<open>tell\<close> forges nothing, again an
    interpretation of \<open>forward_simulation\<close>; and, where a \<open>tell\<close> without an error has delivered, a mutation followed from the actor that
    makes it to a peer that shows it.
  \<^item> \<open>In_Process\<close>: \<open>examples/engine_demo.rs\<close>, the in-process cluster whose routing and delivery call each other, and
    its \<open>main\<close>. The mutual recursion is a \<open>function\<close> with a termination proof.
  \<^item> \<open>Float64\<close>, \<open>Node_Resource\<close>: \<open>f64\<close> arithmetic with rounding to nearest even, and the state type of
    \<open>examples/node_resource.rs\<close> computed with it, as another interpretation of \<open>delta_distributed_state\<close>.
  \<^item> \<open>Runtime_Support\<close>: \<open>SystemClock\<close> over the time the host shows, and the doubles of \<open>test_support/test_runtime.rs\<close>.
  \<^item> \<open>Messages\<close>: the internal message enumerations of \<open>dstate/src/messages\<close> and their \<open>Debug\<close> output.
  \<^item> \<open>Suite_Base\<close>, \<open>Suite_Exec\<close>: what the translated unit tests share, and an evaluator for the model: its definitions as
    rewrite rules under congruence rules that evaluate arguments first, which also runs on free codecs.
  \<^item> \<open>Suite_Shard\<close>, \<open>Suite_Core\<close>, \<open>Suite_Diagnostics\<close>, \<open>Suite_Persistence\<close>, \<open>Suite_Engine\<close>, \<open>Suite_Integration\<close>, \<open>Suite_Cluster\<close>,
    \<open>Suite_Resource\<close>: the unit tests of the source files, each a boolean definition under the name of the test, with the
    theorem that it holds. They check the model against the behaviour the authors recorded and are not counted among its
    properties; \<open>unit_tests\<close> below lists them.

  \<^bold>\<open>How the model corresponds to the code.\<close> A struct is a record (fields prefixed, since field names are global), an
  enum a datatype with its constructors, a method a function that returns the new state with its result.
  Integers keep their width: \<open>u64\<close> and \<open>u32\<close> are words and wrap as a release build does. A panic, an
  \<open>expect\<close> or a failed assertion is a value of an error type, so that its absence can be stated. The clock
  is read once per operation in the code and is an argument here. Hash maps iterate in an unspecified order in Rust; the list
  order of the model is one such order, and where an order reaches a result the theorems speak of sets
  or of the order reported. What is not in the repository is a parameter: bincode (a pair of functions per type, its round
  trip a named hypothesis where one is needed), the user's serializers and projections, and \<open>ActorRef::tell\<close>.

  \<^bold>\<open>What is shown.\<close>
  \<^item> Replication (\<open>Replication\<close>, \<open>Test_States\<close>): replicas only show what the owner published, are never ahead of it,
    are brought up to date by one pull, stay in step through deltas, and miss no delta silently.
  \<^item> Engine: no reachable engine panics; departed nodes have no voice and do not come back; undecodable
    data follows the policy; a query pulls exactly the stale peers; a mutation sends exactly the documented
    messages; views only move forward.
  \<^item> Shard and below: atomic publication, equality of the direct mutation and the two-phase one with peer events in between, acceptance of
    exactly the next delta, convergence of snapshots in any order, exact change feeds, health and metrics,
    persisted mutations restored after a crash, and a restart no older than what was stored, on any store that loads what it saved.
  \<^item> Shells: an actor has exactly the behaviour of its engine and sends to exactly the registered peers;
    a cluster script never panics unexpectedly, settling stops at the first settled state, the transport
    loses, repeats and invents nothing, partitions isolate, members accept each other, and in every settled state without
    interceptors that a cluster reaches a mutation is on every member two ticks later.
    Whatever its interceptors do, short of forging a message that decodes to another, the simulated cluster reaches only
    states of the replication protocol, so the consistency of replicas carries over to it. The same holds of a cluster of
    actors under every schedule of its runtime.
  \<^item> Examples: every sequence of mutations of the in-process cluster leaves all nodes with the same map of counters, and
    \<open>main\<close> passes its assertions; usage percentages stay within 0 and 100 in floating point, and a resource view
    only shows metrics its owner had.
  \<^item> Tests: the unit tests of the repository hold on the model, for every serialization library that round-trips.
  \<^item> Divergences: a late announcement can hide a newer one, suppressed deltas are not carried by the next
    delta, a drop rate of one can deliver, and after a failed migration the incarnation is not always the documented one.

  \<^bold>\<open>Bounds.\<close> No loop of the code needs fuel except \<open>settle_with_limit\<close>, whose own limit is the recursion
  argument. The age of a generation is a 64-bit counter: theorems that depend on it not
  wrapping say so, as a bound on the number of operations. Scheduling and in-flight ticks are 64-bit words too.

  \<^bold>\<open>What is not modelled.\<close> \<open>tracing\<close> calls, derived \<open>Debug\<close> output, the serde derives,
  the memory ordering of \<open>ArcSwap\<close> beyond the sharing of cells, the crate roots and \<open>traits/runtime.rs\<close> (re-exports), and
  what the examples print. Of the 240 unit tests in the source files six have no counterpart: two count the calls of a projection, one
  catches an unwinding panic of a user closure, three read the log. The integration tests under \<open>tests/\<close> are not translated,
  except for the implementations that \<open>registry_tests.rs\<close> defines.
\<close>

subsection \<open>The unit tests\<close>

definition shard_tests :: "(string \<times> bool) list" where
  "shard_tests =
     [(''test_05_should_accept_newer_incarnation'', test_05_should_accept_newer_incarnation),
      (''test_05_should_accept_same_inc_newer_age'', test_05_should_accept_same_inc_newer_age),
      (''test_05_should_reject_same_inc_same_age'', test_05_should_reject_same_inc_same_age),
      (''test_05_should_reject_same_inc_older_age'', test_05_should_reject_same_inc_older_age),
      (''test_05_should_reject_older_incarnation'', test_05_should_reject_older_incarnation),
      (''test_06_stale_peers_by_time'', test_06_stale_peers_by_time),
      (''test_06_stale_peers_by_pending_age'', test_06_stale_peers_by_pending_age),
      (''test_06_own_node_never_stale'', test_06_own_node_never_stale),
      (''test_07_mutation_advances_age'', test_07_mutation_advances_age),
      (''pvm_01_own_entry_after_construction'', pvm_01_own_entry_after_construction),
      (''pvm_02_own_entry_matches_state'', pvm_02_own_entry_matches_state),
      (''pvm_03_no_peers_on_single_node'', pvm_03_no_peers_on_single_node),
      (''shard_01_mutation_increments_age'', shard_01_mutation_increments_age),
      (''shard_02_mutation_updates_modified_time'', shard_02_mutation_updates_modified_time),
      (''shard_03_mutation_produces_outbound_view'', shard_03_mutation_produces_outbound_view),
      (''shard_04_sequential_mutations_sequential_ages'', shard_04_sequential_mutations_sequential_ages),
      (''shard_05_node_joined_adds_entry'', shard_05_node_joined_adds_entry),
      (''shard_06_node_left_removes_entry'', shard_06_node_left_removes_entry),
      (''shard_07_mark_stale_sets_pending'', shard_07_mark_stale_sets_pending),
      (''shard_08_mark_stale_old_incarnation_noop'', shard_08_mark_stale_old_incarnation_noop),
      (''shard_10_snapshot_returns_view_map'', shard_10_snapshot_returns_view_map),
      (''mut_01_closure_receives_mutable_state'', mut_01_closure_receives_mutable_state),
      (''mut_02_mutation_updates_view_map'', mut_02_mutation_updates_view_map),
      (''mut_04_mutation_broadcasts_snapshot_data'', mut_04_mutation_broadcasts_snapshot_data),
      (''mut_05_inbound_snapshot_replaces_view'', mut_05_inbound_snapshot_replaces_view),
      (''mut_06_stale_snapshot_discarded'', mut_06_stale_snapshot_discarded),
      (''dmut_01_delta_mutation_captures_change'', dmut_01_delta_mutation_captures_change),
      (''dmut_03_delta_mutation_updates_view_map'', dmut_03_delta_mutation_updates_view_map),
      (''dmut_05_delta_mutation_produces_view_delta'', dmut_05_delta_mutation_produces_view_delta),
      (''dmut_06_simple_mutate_on_delta_shard'', dmut_06_simple_mutate_on_delta_shard),
      (''inbound_delta_applied_correctly'', inbound_delta_applied_correctly),
      (''inbound_delta_gap_detected'', inbound_delta_gap_detected),
      (''inbound_delta_stale_discarded'', inbound_delta_stale_discarded),
      (''inbound_delta_unknown_peer'', inbound_delta_unknown_peer),
      (''mark_stale_new_incarnation_sets_both'', mark_stale_new_incarnation_sets_both),
      (''node_joined_idempotent'', node_joined_idempotent), (''node_left_unknown_noop'', node_left_unknown_noop),
      (''inbound_snapshot_creates_entry_for_unknown_peer'', inbound_snapshot_creates_entry_for_unknown_peer),
      (''accept_snapshot_clears_pending_remote'', accept_snapshot_clears_pending_remote),
      (''accept_snapshot_partial_catchup_preserves_pending'', accept_snapshot_partial_catchup_preserves_pending),
      (''accept_delta_partial_catchup_preserves_pending'', accept_delta_partial_catchup_preserves_pending),
      (''node_joined_placeholder_is_stale'', node_joined_placeholder_is_stale),
      (''test_new_state_object'', test_new_state_object),
      (''wire_full_snapshot_updates_view_map'', wire_full_snapshot_updates_view_map),
      (''wire_delta_advances_peer_view'', wire_delta_advances_peer_view),
      (''wire_change_feed_marks_peer_stale'', wire_change_feed_marks_peer_stale),
      (''wire_request_snapshot_response'', wire_request_snapshot_response),
      (''wire_unknown_peer_snapshot_accepted'', wire_unknown_peer_snapshot_accepted),
      (''query_01_projection_receives_full_view_map'', query_01_projection_receives_full_view_map),
      (''query_02_stale_entries_detected_by_time'', query_02_stale_entries_detected_by_time),
      (''query_03_fresh_entries_not_flagged'', query_03_fresh_entries_not_flagged),
      (''query_04_callback_result_returned'', query_04_callback_result_returned),
      (''query_05_unreachable_peer_returns_stale'', query_05_unreachable_peer_returns_stale),
      (''query_06_pending_remote_generation_triggers_stale'', query_06_pending_remote_generation_triggers_stale),
      (''query_07_multiple_stale_peers'', query_07_multiple_stale_peers),
      (''query_08_snapshot_returns_stale_data_without_freshness'', query_08_snapshot_returns_stale_data_without_freshness),
      (''query_local_node_never_stale'', query_local_node_never_stale),
      (''sync_14_immediate_bypasses_timer'', sync_14_immediate_bypasses_timer),
      (''sync_15_delayed_overrides_interval'', sync_15_delayed_overrides_interval),
      (''sync_16_suppress_skips_broadcast'', sync_16_suppress_skips_broadcast),
      (''sync_17_suppressed_deltas_accumulate'', sync_17_suppressed_deltas_accumulate),
      (''sync_18_default_uses_configured_strategy'', sync_18_default_uses_configured_strategy),
      (''err_05_stale_retry_succeeds_after_refresh'', err_05_stale_retry_succeeds_after_refresh),
      (''err_06_stale_peers_consistent_for_retry'', err_06_stale_peers_consistent_for_retry),
      (''persist_01_prepare_returns_state_to_persist'', persist_01_prepare_returns_state_to_persist),
      (''persist_03_state_survives_restart'', persist_03_state_survives_restart),
      (''persist_04_no_persistence_direct_commit'', persist_04_no_persistence_direct_commit),
      (''persist_05_err_03_save_failure_no_commit'', persist_05_err_03_save_failure_no_commit),
      (''persist_07_save_failure_prevents_age_advance'', persist_07_save_failure_prevents_age_advance),
      (''persist_08_save_failure_viewmap_unchanged'', persist_08_save_failure_viewmap_unchanged),
      (''persist_09_save_failure_no_broadcast'', persist_09_save_failure_no_broadcast),
      (''persist_10_save_then_publish_ordering'', persist_10_save_then_publish_ordering),
      (''persist_delta_prepare_commit_cycle'', persist_delta_prepare_commit_cycle),
      (''persist_delta_save_failure_rollback'', persist_delta_save_failure_rollback),
      (''stale_commit_panics'', stale_commit_panics), (''stale_delta_commit_panics'', stale_delta_commit_panics)]"

definition core_tests :: "(string \<times> bool) list" where
  "core_tests =
     [(''immediate_urgency_broadcasts_delta'', immediate_urgency_broadcasts_delta),
      (''immediate_urgency_broadcasts_snapshot_for_simple'', immediate_urgency_broadcasts_snapshot_for_simple),
      (''default_urgency_active_push'', default_urgency_active_push),
      (''default_urgency_feed_lazy_pull'', default_urgency_feed_lazy_pull),
      (''default_urgency_no_push_mode'', default_urgency_no_push_mode), (''delayed_urgency'', delayed_urgency),
      (''suppress_urgency'', suppress_urgency), (''immediate_overrides_feed_mode'', immediate_overrides_feed_mode),
      (''periodic_sync_configured'', periodic_sync_configured),
      (''periodic_sync_not_configured'', periodic_sync_not_configured),
      (''active_push_mutation_produces_broadcast'', active_push_mutation_produces_broadcast),
      (''feed_mode_mutation_produces_notify'', feed_mode_mutation_produces_notify),
      (''fresh_view_no_pull'', fresh_view_no_pull),
      (''strategy_composition_feed_with_periodic'', strategy_composition_feed_with_periodic),
      (''strategy_composition_periodic_only'', strategy_composition_periodic_only),
      (''immediate_overrides_any_strategy'', immediate_overrides_any_strategy),
      (''empty_flush_returns_none'', empty_flush_returns_none), (''accumulate_and_flush'', accumulate_and_flush),
      (''flush_clears_buffer'', flush_clears_buffer),
      (''suppressed_deltas_accumulate_in_order'', suppressed_deltas_accumulate_in_order),
      (''notify_dedup_keeps_highest'', notify_dedup_keeps_highest), (''flush_sends_batched_feed'', flush_sends_batched_feed),
      (''empty_pending_no_flush'', empty_pending_no_flush), (''self_message_filtered'', self_message_filtered),
      (''cross_state_batching'', cross_state_batching), (''higher_incarnation_wins_dedup'', higher_incarnation_wins_dedup),
      (''flush_clears_pending'', flush_clears_pending),
      (''route_inbound_batch_routes_correctly'', route_inbound_batch_routes_correctly),
      (''inbound_batch_routes_to_correct_shards'', inbound_batch_routes_to_correct_shards),
      (''ver_06_same_wire_version_sync_works'', ver_06_same_wire_version_sync_works),
      (''ver_07_receiver_supports_older_wire_version'', ver_07_receiver_supports_older_wire_version),
      (''ver_08_unknown_version_keep_stale'', ver_08_unknown_version_keep_stale),
      (''ver_09_unknown_version_drop_and_wait'', ver_09_unknown_version_drop_and_wait),
      (''ver_10_malformed_data_not_version_mismatch'', ver_10_malformed_data_not_version_mismatch),
      (''ver_11_on_deserialize_error_actions'', ver_11_on_deserialize_error_actions),
      (''ver_12_phase1_read_both_send_old'', ver_12_phase1_read_both_send_old),
      (''ver_13_phase2_switch_to_v2'', ver_13_phase2_switch_to_v2),
      (''ver_14_phase2_rollback_to_phase1'', ver_14_phase2_rollback_to_phase1),
      (''ver_15_phase3_v1_removed'', ver_15_phase3_v1_removed),
      (''ver_16_persist_load_same_version'', ver_16_persist_load_same_version),
      (''ver_17_load_older_version_with_migration'', ver_17_load_older_version_with_migration),
      (''ver_18_load_unknown_version_fails_gracefully'', ver_18_load_unknown_version_fails_gracefully),
      (''accessors'', accessors), (''life_01_new_node_receives_snapshots'', life_01_new_node_receives_snapshots),
      (''life_02_existing_nodes_receive_new_node_snapshot'', life_02_existing_nodes_receive_new_node_snapshot),
      (''life_03_join_with_multiple_state_types'', life_03_join_with_multiple_state_types),
      (''life_04_departed_node_removed'', life_04_departed_node_removed),
      (''life_05_inflight_from_departed_discarded'', life_05_inflight_from_departed_discarded),
      (''life_06_leave_multiple_state_types'', life_06_leave_multiple_state_types),
      (''life_07_crash_restart_no_persistence'', life_07_crash_restart_no_persistence),
      (''life_08_crash_restart_with_persistence'', life_08_crash_restart_with_persistence),
      (''life_09_fast_restart_before_node_left'', life_09_fast_restart_before_node_left),
      (''life_10_late_node_left_after_rejoin'', life_10_late_node_left_after_rejoin),
      (''life_11_partitioned_peers_stale'', life_11_partitioned_peers_stale),
      (''life_12_partition_recovery'', life_12_partition_recovery),
      (''life_13_loose_freshness_during_partition'', life_13_loose_freshness_during_partition)]"

definition diagnostics_tests :: "(string \<times> bool) list" where
  "diagnostics_tests =
     [(''diag_01_sync_status_returns_all_peers'', diag_01_sync_status_returns_all_peers),
      (''diag_02_consecutive_failures_increments'', diag_02_consecutive_failures_increments),
      (''diag_03_failures_reset_on_success'', diag_03_failures_reset_on_success),
      (''diag_04_latency_tracked'', diag_04_latency_tracked), (''diag_05_last_error_captured'', diag_05_last_error_captured),
      (''diag_06_gap_count_increments'', diag_06_gap_count_increments),
      (''diag_07_total_mutations'', diag_07_total_mutations), (''diag_08_deltas_sent'', diag_08_deltas_sent),
      (''diag_09_deltas_suppressed'', diag_09_deltas_suppressed), (''diag_10_deltas_immediate'', diag_10_deltas_immediate),
      (''diag_11_age_gaps_detected'', diag_11_age_gaps_detected),
      (''diag_12_stale_deltas_discarded'', diag_12_stale_deltas_discarded),
      (''diag_13_sync_failures'', diag_13_sync_failures), (''diag_25_remove_peer'', diag_25_remove_peer),
      (''diag_26_inbound_resets_failures'', diag_26_inbound_resets_failures),
      (''diag_14_stale_peers_filtered'', diag_14_stale_peers_filtered), (''diag_15_all_fresh'', diag_15_all_fresh),
      (''diag_16_healthy'', diag_16_healthy), (''diag_17_degraded'', diag_17_degraded),
      (''diag_18_unhealthy'', diag_18_unhealthy), (''diag_19_multiple_state_types'', diag_19_multiple_state_types),
      (''diag_23_single_node_healthy'', diag_23_single_node_healthy),
      (''diag_24_disjoint_stale_and_failing'', diag_24_disjoint_stale_and_failing),
      (''diag_27_stale_and_failing_overlap'', diag_27_stale_and_failing_overlap)]"

definition startup_tests :: "(string \<times> bool) list" where
  "startup_tests =
     [(''inc_04_fresh_startup_incarnation_from_clock'', inc_04_fresh_startup_incarnation_from_clock),
      (''inc_05_loaded_incarnation_preserved'', inc_05_loaded_incarnation_preserved),
      (''inc_06_migration_failure_new_incarnation'', inc_06_migration_failure_new_incarnation),
      (''inc_06b_migration_failure_incarnation_monotonic'', inc_06b_migration_failure_incarnation_monotonic),
      (''persist_06_load_none_fresh_start'', persist_06_load_none_fresh_start),
      (''persist_11_load_error_fallback'', persist_11_load_error_fallback),
      (''persist_12_load_error_reason_captured'', persist_12_load_error_reason_captured),
      (''persist_13_same_version_used_as_is'', persist_13_same_version_used_as_is),
      (''persist_14_different_version_triggers_migration'', persist_14_different_version_triggers_migration),
      (''persist_15_migration_failure_fallback'', persist_15_migration_failure_fallback),
      (''persist_16_migration_preserves_metadata'', persist_16_migration_preserves_metadata)]"

definition engine_tests :: "test_state bincode \<Rightarrow> test_delta_view bincode \<Rightarrow> test_delta_view_delta bincode \<Rightarrow> (string \<times> bool) list" where
  "engine_tests bc bcv bcd =
     [(''engine_initial_state'', engine_initial_state bc),
      (''mutate_active_push_broadcasts_snapshot'', mutate_active_push_broadcasts_snapshot bc),
      (''mutate_suppress_no_actions'', mutate_suppress_no_actions bc),
      (''mutate_delayed_produces_scheduled_action'', mutate_delayed_produces_scheduled_action bc),
      (''mutate_feed_mode_notifies_change_feed'', mutate_feed_mode_notifies_change_feed bc),
      (''mutate_immediate_overrides_feed_mode'', mutate_immediate_overrides_feed_mode bc),
      (''delta_mutate_broadcasts_delta'', delta_mutate_broadcasts_delta bcv bcd),
      (''inbound_snapshot_accepted'', inbound_snapshot_accepted bc),
      (''inbound_snapshot_wrong_state_name_ignored'', inbound_snapshot_wrong_state_name_ignored bc),
      (''inbound_snapshot_departed_node_rejected'', inbound_snapshot_departed_node_rejected bc),
      (''inbound_snapshot_version_mismatch'', inbound_snapshot_version_mismatch bc),
      (''inbound_snapshot_malformed_data'', inbound_snapshot_malformed_data bc),
      (''inbound_delta_applied'', inbound_delta_applied bcv bcd),
      (''inbound_delta_without_applier_requests_snapshot'', inbound_delta_without_applier_requests_snapshot bc),
      (''inbound_delta_gap_requests_snapshot'', inbound_delta_gap_requests_snapshot bcv bcd),
      (''inbound_delta_stale_discarded'', eng_inbound_delta_stale_discarded bcv bcd),
      (''inbound_delta_wrong_wire_version_rejected'', inbound_delta_wrong_wire_version_rejected bcv bcd),
      (''request_snapshot_sends_own_view'', request_snapshot_sends_own_view bc),
      (''change_feed_marks_stale'', change_feed_marks_stale bc),
      (''node_joined_sends_snapshot'', node_joined_sends_snapshot bc),
      (''node_left_removes_view'', node_left_removes_view bc),
      (''query_fresh_returns_all_views'', query_fresh_returns_all_views bc),
      (''periodic_sync_broadcasts_snapshot'', periodic_sync_broadcasts_snapshot bc),
      (''periodic_sync_returns_empty_when_not_configured'', periodic_sync_returns_empty_when_not_configured bc),
      (''health_status_with_no_peers'', health_status_with_no_peers bc),
      (''metrics_track_mutations'', metrics_track_mutations bc),
      (''full_round_trip_two_engines'', full_round_trip_two_engines bc),
      (''delta_round_trip_two_engines'', delta_round_trip_two_engines bcv bcd),
      (''request_snapshot_rejected_from_departed_node'', request_snapshot_rejected_from_departed_node bc),
      (''change_feed_from_departed_node_ignored'', change_feed_from_departed_node_ignored bc),
      (''query_pull_skips_departed_peers'', query_pull_skips_departed_peers bc),
      (''handle_inbound_wire_message_dispatches'', handle_inbound_wire_message_dispatches bc)]"

definition transport_tests :: "wire_codec \<Rightarrow> (string \<times> bool) list" where
  "transport_tests cd =
     [(''passthrough_delivers'', passthrough_delivers), (''drop_all_drops'', drop_all_drops),
      (''drop_rate_deterministic'', drop_rate_deterministic), (''symmetric_partition'', symmetric_partition),
      (''asymmetric_partition'', asymmetric_partition), (''delay_ticks'', delay_ticks_test),
      (''duplicate_all'', duplicate_all_test), (''corrupt_bytes_flips_bit'', corrupt_bytes_flips_bit),
      (''send_and_deliver'', send_and_deliver cd),
      (''broadcast_sends_to_all_except_self'', broadcast_sends_to_all_except_self cd),
      (''drop_all_interceptor'', drop_all_interceptor cd), (''delay_interceptor'', delay_interceptor cd),
      (''duplicate_interceptor'', duplicate_interceptor cd),
      (''clear_interceptors_restores_clean_network'', clear_interceptors_restores_clean_network cd),
      (''corrupted_message_detected'', corrupted_message_detected cd),
      (''duplicate_then_delay_preserves_both_copies'', duplicate_then_delay_preserves_both_copies cd),
      (''delay_zero_delivers_next_tick'', delay_zero_delivers_next_tick cd),
      (''drop_in_flight_for_node'', drop_in_flight_for_node cd)]"

definition cluster_tests :: "test_state bincode \<Rightarrow> wire_codec \<Rightarrow> instant \<Rightarrow> (string \<times> bool) list" where
  "cluster_tests bc cd start =
     [(''create_cluster_with_test_state'', create_cluster_with_test_state bc cd start),
      (''mutate_and_settle_propagates_to_all'', mutate_and_settle_propagates_to_all bc cd start),
      (''multiple_mutations_converge'', multiple_mutations_converge bc cd start),
      (''node_removal_stops_message_delivery'', node_removal_stops_message_delivery bc cd start),
      (''network_partition_prevents_propagation'', network_partition_prevents_propagation bc cd start),
      (''partition_heal_allows_convergence'', partition_heal_allows_convergence bc cd start),
      (''settle_returns_tick_count'', settle_returns_tick_count bc cd start),
      (''duplicate_messages_handled_idempotently'', duplicate_messages_handled_idempotently bc cd start),
      (''single_node_cluster_settles_immediately'', single_node_cluster_settles_immediately bc cd start),
      (''hard_remove_purges_in_flight'', hard_remove_purges_in_flight bc cd start),
      (''tick_n_advances_multiple_ticks'', tick_n_advances_multiple_ticks bc cd start),
      (''corrupted_messages_tracked'', corrupted_messages_tracked bc cd start)]"

definition resource_tests :: "instant \<Rightarrow> (string \<times> bool) list" where
  "resource_tests start =
     [(''project_view_hides_private_fields'', project_view_hides_private_fields),
      (''apply_delta_memory_update'', apply_delta_memory_update),
      (''urgency_memory_spike_immediate'', urgency_memory_spike_immediate),
      (''urgency_small_cpu_suppressed'', urgency_small_cpu_suppressed), (''find_lowest_memory'', find_lowest_memory start)]"

definition unit_tests ::
    "test_state bincode \<Rightarrow> test_delta_view bincode \<Rightarrow> test_delta_view_delta bincode \<Rightarrow> wire_codec \<Rightarrow> instant \<Rightarrow>
     (string \<times> bool) list" where
  "unit_tests bc bcv bcd cd start = shard_tests @ core_tests @ diagnostics_tests @ startup_tests @ engine_tests bc bcv bcd @
     transport_tests cd @ cluster_tests bc cd start @ resource_tests start"

lemmas closed_suites =
  shard_suite_hundred shard_suite_projected shard_suite_order shard_suite_shard shard_suite_mut shard_suite_delta
  shard_suite_views shard_suite_wire shard_suite_query shard_suite_sync shard_suite_persist sync_suite accumulator_suite
  feed_suite versioning_suite lifecycle_suite_join lifecycle_suite_leave lifecycle_suite_restart lifecycle_suite_rejoin
  lifecycle_suite_partition diagnostics_suite_peers diagnostics_suite_counters diagnostics_suite_health
  startup_suite_incarnation startup_suite_load startup_suite_migration interceptor_suite interceptor_suite_drop_rate
  transport_suite_corruption resource_suite resource_suite_query

lemma list_all_tests: "list_all snd [] \<longleftrightarrow> True" "list_all snd ((n, t) # xs) \<longleftrightarrow> t \<and> list_all snd xs"
  by simp_all

lemma closed_tests_pass: "list_all snd (shard_tests @ core_tests @ diagnostics_tests @ startup_tests @ resource_tests start)"
  by (simp only: list_all_append shard_tests_def core_tests_def diagnostics_tests_def startup_tests_def resource_tests_def
      list_all_tests closed_suites simp_thms)

lemma engine_tests_pass:
  assumes "bincode_ok bc" and "bincode_ok bcv" and "bincode_ok bcd" and "bc_deserialize bc [0xFF, 0xFF] = Inl e"
  shows "list_all snd (engine_tests bc bcv bcd)"
  by (simp only: engine_tests_def list_all_tests simp_thms engine_suite_mutate [OF assms(1-3)] engine_suite_snapshot [OF assms(1,4)]
      engine_suite_delta [OF assms(1-3)] engine_suite_host [OF assms(1)] engine_suite_pair [OF assms(1-3)]
      engine_suite_departed [OF assms(1)])

lemma network_tests_pass:
  assumes "bincode_ok bc" and "wire_ok cd"
  shows "list_all snd (transport_tests cd)" "list_all snd (cluster_tests bc cd start)"
  by (simp_all only: transport_tests_def cluster_tests_def list_all_tests simp_thms closed_suites transport_suite [OF assms(2)]
      cluster_suite_propagation [OF assms] cluster_suite_faults [OF assms] cluster_suite_ticks [OF assms]
      corrupted_messages_tracked_passes [OF assms])

text \<open>
  The unit tests of the repository pass on the model, whatever the serialization library does within its contract. For every
  bincode that round-trips on the states, the deltas and the wire messages, and that rejects two bytes as a \<open>TestState\<close>, and
  whatever instant the clock starts at, all the 234 translated tests of \<open>shard_core.rs\<close>, \<open>sync_logic.rs\<close>,
  \<open>delta_accumulator.rs\<close>, \<open>change_feed_logic.rs\<close>, \<open>versioning_logic.rs\<close>, \<open>lifecycle_logic.rs\<close>, \<open>diagnostics.rs\<close>,
  \<open>persistence_startup_logic.rs\<close>, \<open>engine.rs\<close>, \<open>interceptor.rs\<close>, \<open>transport.rs\<close>, \<open>cluster.rs\<close> and \<open>node_resource.rs\<close> hold.
\<close>

theorem unit_tests_pass:
  assumes "bincode_ok bc" and "bincode_ok bcv" and "bincode_ok bcd" and "wire_ok cd" and "bc_deserialize bc [0xFF, 0xFF] = Inl e"
  shows "list_all snd (unit_tests bc bcv bcd cd start)"
  using closed_tests_pass [of start] engine_tests_pass [OF assms(1-3,5)] network_tests_pass [OF assms(1,4)]
  by (simp only: unit_tests_def list_all_append simp_thms)

theorem unit_tests_pass_witness:
  "list_all snd (unit_tests le_bincode view_bincode delta_bincode unary_codec 0)"
  by (rule unit_tests_pass [OF le_bincode_ok view_delta_bincode_ok unary_codec_ok, of "''unexpected end of file''"])
    (simp add: le_bincode_def le_deserialize_def)

end
